(* ===== verification/Aegis_Prelude.thy ===== *)
theory Aegis_Prelude
  imports Main "HOL-Library.Word"
begin

section \<open>Prelude: shared types, list operations and the run of a machine\<close>

text \<open>
  What every component of the development shares:
  \<^item> JavaScript strings as lists of UTF-16 code units (a \<open>16 word\<close> each), with \<open>lit\<close> for the
    ASCII literals of the source;
  \<^item> the array idioms of the source: \<open>xs.slice(-n)\<close> (\<open>slice_last\<close>), "drop the entries with this key,
    then append" (\<open>upsert\<close>), and the order-preserving list of distinct elements (\<open>distinct_loop\<close>);
  \<^item> error values: a result is \<open>error + value\<close>, as an exception or a rejected promise is;
  \<^item> the locale \<open>machine\<close>: a step function with an invariant, whose runs keep the invariant.
\<close>

named_theorems js_eval \<open>equations that evaluate the JavaScript primitives on concrete input\<close>

type_synonym u16 = "16 word"
type_synonym jsstring = "u16 list"
type_synonym jsnum = int

lemma unat_u16_less: "unat (c :: u16) < 0x10000"
  using unsigned_less [of c, where ?'a = nat] by simp

text \<open>A literal of the source. Every literal used in a property is ASCII, so a code unit is its
  character code; the few others are written as lists of code units.\<close>

definition lit :: "string \<Rightarrow> jsstring" where
  "lit s = map of_char s"

lemma lit_Nil [simp, js_eval]: "lit [] = []"
  by (simp add: lit_def)

lemma lit_Cons [js_eval]: "lit (c # cs) = of_char c # lit cs"
  by (simp add: lit_def)

lemma length_lit [simp]: "length (lit s) = length s"
  by (simp add: lit_def)

lemma lit_eq_Nil [simp]: "lit s = [] \<longleftrightarrow> s = []"
  by (simp add: lit_def)

lemma lit_append: "lit (s @ t) = lit s @ lit t"
  by (simp add: lit_def)

subsection \<open>Array idioms\<close>

definition slice_last :: "nat \<Rightarrow> 'a list \<Rightarrow> 'a list" where
  "slice_last n xs = drop (length xs - n) xs"

lemma length_slice_last [simp]: "length (slice_last n xs) = min n (length xs)"
  by (simp add: slice_last_def min_def)

lemma slice_last_short: "length xs \<le> n \<Longrightarrow> slice_last n xs = xs"
  by (simp add: slice_last_def)

lemma set_slice_last: "set (slice_last n xs) \<subseteq> set xs"
  by (simp add: slice_last_def set_drop_subset)

lemma distinct_map_slice_last: "distinct (map f xs) \<Longrightarrow> distinct (map f (slice_last n xs))"
  by (simp add: slice_last_def drop_map [symmetric] distinct_drop)

lemma slice_last_snoc: "0 < n \<Longrightarrow> slice_last n (xs @ [x]) = slice_last (n - 1) xs @ [x]"
  by (cases n) (auto simp: slice_last_def)

lemma slice_last_append_slice:
  "slice_last n (slice_last n xs @ ys) = slice_last n (xs @ ys)"
  by (cases "length xs \<le> n") (auto simp: slice_last_def add.commute)

lemma last_slice_last: "0 < n \<Longrightarrow> xs \<noteq> [] \<Longrightarrow> last (slice_last n xs) = last xs"
  by (simp add: slice_last_def last_drop)

lemma takeWhile_until: "c \<notin> set xs \<Longrightarrow> takeWhile (\<lambda>x. x \<noteq> c) (xs @ c # ys) = xs"
  by (induction xs) auto

lemma dropWhile_until: "c \<notin> set xs \<Longrightarrow> dropWhile (\<lambda>x. x \<noteq> c) (xs @ c # ys) = c # ys"
  by (induction xs) auto

text \<open>"Remove the entries with the same key, then append": how the host reducer stores hints and
  transcript lines.\<close>

definition upsert :: "('a \<Rightarrow> 'k) \<Rightarrow> 'a \<Rightarrow> 'a list \<Rightarrow> 'a list" where
  "upsert key x xs = filter (\<lambda>y. key y \<noteq> key x) xs @ [x]"

text \<open>The specification of a run of upserts: of every key the last entry, in the order of these
  last arrivals.\<close>

fun keep_last :: "('a \<Rightarrow> 'k) \<Rightarrow> 'a list \<Rightarrow> 'a list" where
  "keep_last key [] = []"
| "keep_last key (x # xs) =
     (if key x \<in> key ` set xs then keep_last key xs else x # keep_last key xs)"

lemma set_keep_last: "set (keep_last key xs) \<subseteq> set xs"
  by (induction xs) auto

lemma keys_keep_last [simp]: "key ` set (keep_last key xs) = key ` set xs"
  by (induction xs) auto

lemma distinct_keep_last: "distinct (map key (keep_last key xs))"
proof (induction xs)
  case Nil
  show ?case by simp
next
  case (Cons x xs)
  have "key ` set (keep_last key xs) = key ` set xs" by simp
  then have "key x \<notin> key ` set (keep_last key xs)" if "key x \<notin> key ` set xs"
    using that by simp
  with Cons.IH show ?case by (auto simp: image_iff)
qed

lemma keep_last_distinct: "distinct (map key xs) \<Longrightarrow> keep_last key xs = xs"
  by (induction xs) auto

lemma filter_keep_last:
  "filter (\<lambda>y. key y \<noteq> k) (keep_last key xs) = keep_last key (filter (\<lambda>y. key y \<noteq> k) xs)"
  by (induction xs) auto

lemma keep_last_snoc: "keep_last key (xs @ [x]) = upsert key x (keep_last key xs)"
  by (induction xs) (auto simp: upsert_def)

lemma foldl_upsert: "foldl (\<lambda>ys x. upsert key x ys) [] xs = keep_last key xs"
  by (induction xs rule: rev_induct) (simp_all add: keep_last_snoc)

lemma distinct_upsert: "distinct (map key xs) \<Longrightarrow> distinct (map key (upsert key x xs))"
  by (auto simp: upsert_def distinct_map inj_on_def)

lemma upsert_not_Nil [simp]: "upsert key x xs \<noteq> []"
  by (simp add: upsert_def)

lemma last_upsert [simp]: "last (upsert key x xs) = x"
  by (simp add: upsert_def)

lemma set_upsert: "set (upsert key x xs) = insert x {y \<in> set xs. key y \<noteq> key x}"
  by (auto simp: upsert_def)

lemma length_filter_key:
  "distinct (map key xs) \<Longrightarrow> length xs \<le> Suc (length (filter (\<lambda>y. key y \<noteq> k) xs))"
proof (induction xs)
  case Nil
  then show ?case by simp
next
  case (Cons x xs)
  have "filter (\<lambda>y. key y \<noteq> k) xs = xs" if "key x = k"
    using Cons.prems that by (auto simp: filter_id_conv image_iff)
  with Cons show ?case by auto
qed

lemma slice_last_append_long: "n \<le> length ys \<Longrightarrow> slice_last n (xs @ ys) = slice_last n ys"
  by (simp add: slice_last_def)

text \<open>Trimming to a window after every upsert gives the window of the untrimmed run: what falls out
  of the window cannot come back.\<close>

lemma slice_last_upsert_slice:
  assumes "distinct (map key xs)"
  shows "slice_last (Suc n) (upsert key x (slice_last (Suc n) xs)) = slice_last (Suc n) (upsert key x xs)"
proof (cases "length xs \<le> Suc n")
  case True
  then show ?thesis by (simp add: slice_last_short)
next
  case False
  define a b where "a = take (length xs - Suc n) xs" and "b = slice_last (Suc n) xs"
  have xs: "xs = a @ b" and b: "length b = Suc n"
    using False by (simp_all add: a_def b_def slice_last_def)
  have "distinct (map key b)" using assms xs by simp
  from length_filter_key [OF this, of "key x"] b
  have "n \<le> length (filter (\<lambda>y. key y \<noteq> key x) b)" by simp
  then have "slice_last (Suc n) (upsert key x b) = slice_last (Suc n) (upsert key x xs)"
    by (simp add: upsert_def slice_last_snoc xs slice_last_append_long)
  then show ?thesis by (simp add: b_def)
qed

lemma foldl_upsert_window:
  "foldl (\<lambda>ys x. slice_last (Suc n) (upsert key x ys)) [] xs = slice_last (Suc n) (keep_last key xs)"
proof (induction xs rule: rev_induct)
  case Nil
  show ?case by (simp add: slice_last_def)
next
  case (snoc x xs)
  then show ?case
    by (simp add: keep_last_snoc slice_last_upsert_slice distinct_keep_last)
qed

lemma keep_last_map: "keep_last key (map f xs) = map f (keep_last (key \<circ> f) xs)"
  by (induction xs) auto

lemma keep_last_cong:
  assumes "\<And>x y. key x = key y \<longleftrightarrow> key' x = key' y"
  shows "keep_last key xs = keep_last key' xs"
proof -
  have "key x \<in> key ` set ys \<longleftrightarrow> key' x \<in> key' ` set ys" for x ys
    using assms by (auto simp: image_iff)
  then show ?thesis by (induction xs) auto
qed

text \<open>The loop \<open>for (x of xs) if (!distinct.includes(x)) distinct.push(x)\<close>.\<close>

fun distinct_loop :: "'a list \<Rightarrow> 'a list \<Rightarrow> 'a list" where
  "distinct_loop acc [] = acc"
| "distinct_loop acc (x # xs) = distinct_loop (if x \<in> set acc then acc else acc @ [x]) xs"

lemma set_distinct_loop [simp]: "set (distinct_loop acc xs) = set acc \<union> set xs"
  by (induction xs arbitrary: acc) auto

lemma distinct_distinct_loop: "distinct acc \<Longrightarrow> distinct (distinct_loop acc xs)"
  by (induction xs arbitrary: acc) auto

lemma distinct_loop_Nil_iff: "distinct_loop acc xs = [] \<longleftrightarrow> acc = [] \<and> xs = []"
  by (metis set_distinct_loop Un_empty set_empty)

subsection \<open>Results\<close>

text \<open>\<open>Inl\<close> carries the thrown value or the rejection, \<open>Inr\<close> the value.\<close>

definition bind_result :: "'e + 'a \<Rightarrow> ('a \<Rightarrow> 'e + 'b) \<Rightarrow> 'e + 'b" where
  "bind_result r f = (case r of Inl e \<Rightarrow> Inl e | Inr x \<Rightarrow> f x)"

lemma bind_result_simps [simp]:
  "bind_result (Inl e) f = Inl e" "bind_result (Inr x) f = f x"
  by (simp_all add: bind_result_def)

lemma bind_result_eq_Inr:
  "bind_result r f = Inr y \<longleftrightarrow> (\<exists>x. r = Inr x \<and> f x = Inr y)"
  by (cases r) auto

text \<open>The nullish coalescing operator \<open>a ?? b\<close>, with \<open>None\<close> for null and undefined.\<close>

definition coalesce :: "'a option \<Rightarrow> 'a option \<Rightarrow> 'a option" where
  "coalesce a b = (case a of None \<Rightarrow> b | Some x \<Rightarrow> Some x)"

lemma coalesce_simps [simp]:
  "coalesce None b = b" "coalesce (Some x) b = Some x" "coalesce a None = a"
  by (simp_all add: coalesce_def split: option.splits)

lemma coalesce_eq_None [simp]: "coalesce a b = None \<longleftrightarrow> a = None \<and> b = None"
  by (simp add: coalesce_def split: option.splits)

subsection \<open>Machines\<close>

text \<open>
  Every stateful component of the frontend is a state, a function that handles one event, and the
  run of a list of events. The contract of a machine is an invariant that the initial state has and
  every step keeps; what follows for runs is proved here once.
\<close>

fun run :: "('e \<Rightarrow> 's \<Rightarrow> 's) \<Rightarrow> 'e list \<Rightarrow> 's \<Rightarrow> 's" where
  "run stp [] s = s"
| "run stp (e # es) s = run stp es (stp e s)"

lemma run_append [simp]: "run stp (es @ fs) s = run stp fs (run stp es s)"
  by (induction es arbitrary: s) auto

lemma run_snoc: "run stp (es @ [e]) s = stp e (run stp es s)"
  by simp

lemma run_frame: "(\<And>e s. f (stp e s) = f s) \<Longrightarrow> f (run stp es s) = f s"
  by (induction es arbitrary: s) auto

locale machine =
  fixes stp :: "'e \<Rightarrow> 's \<Rightarrow> 's"
    and start :: "'s \<Rightarrow> bool"
    and inv :: "'s \<Rightarrow> bool"
  assumes start_inv: "start s \<Longrightarrow> inv s"
    and step_inv: "inv s \<Longrightarrow> inv (stp e s)"
begin

lemma run_inv: "inv s \<Longrightarrow> inv (run stp es s)"
  by (induction es arbitrary: s) (auto intro: step_inv)

lemma reach_inv: "start s \<Longrightarrow> inv (run stp es s)"
  by (blast intro: run_inv start_inv)

lemma run_induct_inv:
  assumes "inv s" and "P s" and "\<And>s e. inv s \<Longrightarrow> P s \<Longrightarrow> P (stp e s)"
  shows "P (run stp es s)"
  using assms(1,2)
proof (induction es arbitrary: s)
  case Nil
  then show ?case by simp
next
  case (Cons e es)
  then show ?case by (simp add: assms(3) step_inv)
qed

text \<open>A fact that holds now and did not hold at the start was brought in by an event of the history,
  and no event that ends it has happened since.\<close>

lemma run_origin:
  assumes "inv s" and "\<not> P s" and "P (run stp es s)"
    and "\<And>s e. inv s \<Longrightarrow> P (stp e s) \<Longrightarrow> brings e \<or> P s \<and> \<not> ends e"
  shows "\<exists>pre e post. es = pre @ e # post \<and> brings e \<and> list_all (\<lambda>e. \<not> ends e) post"
  using assms(3)
proof (induction es rule: rev_induct)
  case Nil
  with assms(2) show ?case by simp
next
  case (snoc e es)
  then consider "brings e" | "P (run stp es s)" "\<not> ends e"
    using assms(4) [OF run_inv [OF assms(1)]] by (metis run_snoc)
  then show ?case
  proof cases
    case 1
    then have "es @ [e] = es @ e # [] \<and> brings e \<and> list_all (\<lambda>e. \<not> ends e) []" by simp
    then show ?thesis by blast
  next
    case 2
    with snoc.IH obtain pre b post where "es = pre @ b # post" "brings b" "list_all (\<lambda>e. \<not> ends e) post"
      by blast
    with 2 have "es @ [e] = pre @ b # (post @ [e]) \<and> brings b \<and> list_all (\<lambda>e. \<not> ends e) (post @ [e])"
      by simp
    then show ?thesis by blast
  qed
qed

end

end
