(* ===== verification/Js_String.thy ===== *)
theory Js_String
  imports Aegis_Prelude
begin

section \<open>The JavaScript string operations the frontend uses\<close>

text \<open>
  ECMAScript's \<open>String.prototype.trim\<close>, \<open>split(":")[0]\<close>, \<open>toLowerCase\<close> as far as ASCII results are
  concerned, the decimal rendering of an integer-valued number, and \<open>encodeURIComponent\<close>, over
  UTF-16 code units. The lemmas give what the components rely on: trimming is idempotent and keeps
  no white space at either end, decimal rendering is injective, and \<open>encodeURIComponent\<close> fails
  exactly on lone surrogates, yields unreserved ASCII only and can be decoded.
\<close>

subsection \<open>White space and trim\<close>

text \<open>WhiteSpace and LineTerminator of ECMA-262, 12.2 and 12.3.\<close>

definition js_space :: "u16 \<Rightarrow> bool" where
  "js_space c \<longleftrightarrow> c \<in> {9, 10, 11, 12, 13, 32, 0xA0, 0x1680, 0x2028, 0x2029, 0x202F, 0x205F,
     0x3000, 0xFEFF} \<or> (0x2000 \<le> c \<and> c \<le> 0x200A)"

definition trim :: "jsstring \<Rightarrow> jsstring" where
  "trim s = rev (dropWhile js_space (rev (dropWhile js_space s)))"

lemma trim_Nil [simp]: "trim [] = []"
  by (simp add: trim_def)

lemma dropWhile_rev_hd:
  assumes "xs \<noteq> []" and "\<not> P (hd xs)"
  shows "rev (dropWhile P (rev xs)) \<noteq> [] \<and> hd (rev (dropWhile P (rev xs))) = hd xs"
proof -
  obtain y ys where xs: "xs = y # ys" using assms(1) by (cases xs) auto
  with assms(2) have "dropWhile P (rev xs) = dropWhile P (rev ys) @ [y]"
    by (simp add: dropWhile_append3)
  with xs show ?thesis by simp
qed

lemma trim_hd: "trim s \<noteq> [] \<Longrightarrow> \<not> js_space (hd (trim s))"
proof -
  let ?t = "dropWhile js_space s"
  assume ne: "trim s \<noteq> []"
  then have "?t \<noteq> []" by (metis dropWhile.simps(1) rev.simps(1) trim_def)
  moreover from this have "\<not> js_space (hd ?t)" by (rule hd_dropWhile)
  ultimately show ?thesis
    using dropWhile_rev_hd [of ?t js_space] by (simp add: trim_def)
qed

lemma trim_last: "trim s \<noteq> [] \<Longrightarrow> \<not> js_space (last (trim s))"
  by (simp add: trim_def last_rev hd_dropWhile)

lemma dropWhile_fixed: "xs \<noteq> [] \<Longrightarrow> \<not> P (hd xs) \<Longrightarrow> dropWhile P xs = xs"
  by (cases xs) auto

lemma trim_fixed: "s = [] \<or> \<not> js_space (hd s) \<and> \<not> js_space (last s) \<Longrightarrow> trim s = s"
  by (cases "s = []") (auto simp: trim_def dropWhile_fixed hd_rev)

lemma trim_trim [simp]: "trim (trim s) = trim s"
  using trim_fixed trim_hd trim_last by blast

lemma trim_eq_Nil_iff: "trim s = [] \<longleftrightarrow> (\<forall>c \<in> set s. js_space c)"
proof -
  have "trim s = [] \<longleftrightarrow> (\<forall>c \<in> set (dropWhile js_space s). js_space c)"
    by (simp add: trim_def)
  also have "\<dots> \<longleftrightarrow> (\<forall>c \<in> set s. js_space c)"
    by (metis dropWhile_eq_Nil_conv hd_dropWhile hd_in_set set_dropWhileD)
  finally show ?thesis .
qed

lemma trim_infix: "\<exists>a b. s = a @ trim s @ b"
proof -
  let ?t = "dropWhile js_space s"
  have "s = takeWhile js_space s @ ?t" by simp
  moreover have "?t = trim s @ rev (takeWhile js_space (rev ?t))"
    by (metis rev_append rev_rev_ident takeWhile_dropWhile_id trim_def)
  ultimately show ?thesis by metis
qed

subsection \<open>split(":")[0]\<close>

definition before_colon :: "jsstring \<Rightarrow> jsstring" where
  "before_colon s = takeWhile (\<lambda>c. c \<noteq> 0x3A) s"

lemma before_colon_append: "0x3A \<notin> set s \<Longrightarrow> before_colon (s @ 0x3A # t) = s"
  by (simp add: before_colon_def takeWhile_until)

subsection \<open>Numbers in template literals\<close>

text \<open>An integer-valued number below \<open>10 ^ 21\<close> prints as its decimal digits (Number::toString).\<close>

definition digit :: "nat \<Rightarrow> u16" where
  "digit d = word_of_nat (48 + d)"

lemma unat_digit: "d < 10 \<Longrightarrow> unat (digit d) = 48 + d"
  unfolding digit_def by (subst unat_of_nat) simp

fun nat_string :: "nat \<Rightarrow> jsstring" where
  "nat_string n = (if n < 10 then [digit n] else nat_string (n div 10) @ [digit (n mod 10)])"

declare nat_string.simps [simp del]

definition num_string :: "jsnum \<Rightarrow> jsstring" where
  "num_string n = (if n < 0 then 0x2D # nat_string (nat (- n)) else nat_string (nat n))"

lemma nat_string_small: "n < 10 \<Longrightarrow> nat_string n = [digit n]"
  by (simp add: nat_string.simps)

lemma nat_string_large: "\<not> n < 10 \<Longrightarrow> nat_string n = nat_string (n div 10) @ [digit (n mod 10)]"
  by (subst nat_string.simps) simp

lemma nat_string_digits: "c \<in> set (nat_string n) \<Longrightarrow> 48 \<le> unat c \<and> unat c \<le> 57"
proof (induction n rule: nat_string.induct)
  case (1 n)
  have "n mod 10 < 10" by simp
  with "1.prems" "1.IH" show ?case
    by (cases "n < 10") (auto simp: nat_string_small nat_string_large unat_digit)
qed

text \<open>Reading the digits back.\<close>

definition string_nat :: "jsstring \<Rightarrow> nat" where
  "string_nat s = foldl (\<lambda>a c. 10 * a + (unat c - 48)) 0 s"

lemma string_nat_string: "string_nat (nat_string n) = n"
proof (induction n rule: nat_string.induct)
  case (1 n)
  show ?case
  proof (cases "n < 10")
    case True
    then show ?thesis by (simp add: nat_string_small string_nat_def unat_digit)
  next
    case False
    with "1.IH" show ?thesis
      by (simp add: nat_string_large string_nat_def unat_digit)
  qed
qed

lemma nat_string_inj: "nat_string m = nat_string n \<longleftrightarrow> m = n"
  by (metis string_nat_string)

lemma nat_string_not_Nil [simp]: "nat_string n \<noteq> []"
  by (subst nat_string.simps) simp

lemma nat_string_no_colon: "(0x3A :: u16) \<notin> set (nat_string n)"
  using nat_string_digits [of "0x3A" n] by auto

lemma nat_string_no_minus: "(0x2D :: u16) \<notin> set (nat_string n)"
  using nat_string_digits [of "0x2D" n] by auto

lemma num_string_no_colon: "(0x3A :: u16) \<notin> set (num_string n)"
  by (simp add: num_string_def nat_string_no_colon)

lemma num_string_inj: "num_string m = num_string n \<longleftrightarrow> m = n"
proof -
  have "0x2D # nat_string a \<noteq> nat_string b" for a b
    using nat_string_no_minus [of b] by (metis list.set_intros(1))
  then show ?thesis
    by (auto simp: num_string_def nat_string_inj dest: sym)
qed

subsection \<open>encodeURIComponent\<close>

definition is_high :: "u16 \<Rightarrow> bool" where
  "is_high c \<longleftrightarrow> 0xD800 \<le> unat c \<and> unat c < 0xDC00"

definition is_low :: "u16 \<Rightarrow> bool" where
  "is_low c \<longleftrightarrow> 0xDC00 \<le> unat c \<and> unat c < 0xE000"

definition surrogate_pair :: "u16 \<Rightarrow> u16 \<Rightarrow> nat" where
  "surrogate_pair c d = 0x10000 + (unat c - 0xD800) * 0x400 + (unat d - 0xDC00)"

text \<open>The code points of a string; \<open>None\<close> when a surrogate stands alone.\<close>

fun codepoints :: "jsstring \<Rightarrow> nat list option" where
  "codepoints [] = Some []"
| "codepoints (c # cs) =
     (if is_low c then None
      else if is_high c then
        (case cs of [] \<Rightarrow> None
         | d # ds \<Rightarrow> if is_low d then map_option (Cons (surrogate_pair c d)) (codepoints ds) else None)
      else map_option (Cons (unat c)) (codepoints cs))"

definition well_formed :: "jsstring \<Rightarrow> bool" where
  "well_formed s \<longleftrightarrow> codepoints s \<noteq> None"

definition utf8 :: "nat \<Rightarrow> nat list" where
  "utf8 p =
     (if p < 0x80 then [p]
      else if p < 0x800 then [0xC0 + p div 0x40, 0x80 + p mod 0x40]
      else if p < 0x10000 then [0xE0 + p div 0x1000, 0x80 + p div 0x40 mod 0x40, 0x80 + p mod 0x40]
      else [0xF0 + p div 0x40000, 0x80 + p div 0x1000 mod 0x40, 0x80 + p div 0x40 mod 0x40,
            0x80 + p mod 0x40])"

definition uri_unreserved :: "nat \<Rightarrow> bool" where
  "uri_unreserved c \<longleftrightarrow> (0x30 \<le> c \<and> c \<le> 0x39) \<or> (0x41 \<le> c \<and> c \<le> 0x5A) \<or> (0x61 \<le> c \<and> c \<le> 0x7A)
     \<or> c \<in> {0x2D, 0x5F, 0x2E, 0x21, 0x7E, 0x2A, 0x27, 0x28, 0x29}"

definition hex_digit :: "nat \<Rightarrow> u16" where
  "hex_digit n = (if n < 10 then word_of_nat (0x30 + n) else word_of_nat (0x37 + n))"

definition percent_byte :: "nat \<Rightarrow> jsstring" where
  "percent_byte b = [0x25, hex_digit (b div 16), hex_digit (b mod 16)]"

definition encode_codepoint :: "nat \<Rightarrow> jsstring" where
  "encode_codepoint p =
     (if uri_unreserved p then [word_of_nat p] else concat (map percent_byte (utf8 p)))"

datatype uri_error = URIError

definition encodeURIComponent :: "jsstring \<Rightarrow> uri_error + jsstring" where
  "encodeURIComponent s = (case codepoints s of
     None \<Rightarrow> Inl URIError
   | Some ps \<Rightarrow> Inr (concat (map encode_codepoint ps)))"

text \<open>The decoder, used to show that nothing is lost.\<close>

definition hex_value :: "u16 \<Rightarrow> nat" where
  "hex_value c = (if unat c < 0x3A then unat c - 0x30 else unat c - 0x37)"

fun percent_decode :: "jsstring \<Rightarrow> nat list" where
  "percent_decode [] = []"
| "percent_decode (c # s) =
     (if c = 0x25 then
        (case s of a # b # r \<Rightarrow> (16 * hex_value a + hex_value b) # percent_decode r | _ \<Rightarrow> [])
      else unat c # percent_decode s)"

fun utf8_decode :: "nat list \<Rightarrow> nat list" where
  "utf8_decode [] = []"
| "utf8_decode (a # s) =
     (if a < 0x80 then a # utf8_decode s
      else if a < 0xE0 then
        (case s of b # r \<Rightarrow> ((a - 0xC0) * 0x40 + (b - 0x80)) # utf8_decode r | _ \<Rightarrow> [])
      else if a < 0xF0 then
        (case s of b # c # r \<Rightarrow>
           ((a - 0xE0) * 0x1000 + (b - 0x80) * 0x40 + (c - 0x80)) # utf8_decode r | _ \<Rightarrow> [])
      else
        (case s of b # c # d # r \<Rightarrow>
           ((a - 0xF0) * 0x40000 + (b - 0x80) * 0x1000 + (c - 0x80) * 0x40 + (d - 0x80))
             # utf8_decode r | _ \<Rightarrow> []))"

definition codepoint_units :: "nat \<Rightarrow> jsstring" where
  "codepoint_units p =
     (if p < 0x10000 then [word_of_nat p]
      else [word_of_nat (0xD800 + (p - 0x10000) div 0x400), word_of_nat (0xDC00 + (p - 0x10000) mod 0x400)])"

definition decode_component :: "jsstring \<Rightarrow> jsstring" where
  "decode_component s = concat (map codepoint_units (utf8_decode (percent_decode s)))"

lemma surrogate_pair_bounds:
  assumes "is_high c" and "is_low d"
  shows "0x10000 \<le> surrogate_pair c d \<and> surrogate_pair c d < 0x110000"
  using assms unfolding is_high_def is_low_def surrogate_pair_def by arith

lemma surrogate_pair_units:
  assumes "is_high c" and "is_low d"
  shows "codepoint_units (surrogate_pair c d) = [c, d]"
proof -
  let ?h = "unat c - 0xD800" and ?l = "unat d - 0xDC00"
  have l: "?l < 0x400" and c: "0xD800 + ?h = unat c" and d: "0xDC00 + ?l = unat d"
    using assms unfolding is_high_def is_low_def by arith+
  have "surrogate_pair c d - 0x10000 = ?h * 0x400 + ?l"
    by (simp add: surrogate_pair_def)
  moreover from l have "(?h * 0x400 + ?l) div 0x400 = ?h" and "(?h * 0x400 + ?l) mod 0x400 = ?l"
    by simp_all
  moreover have "\<not> surrogate_pair c d < 0x10000"
    using surrogate_pair_bounds [OF assms] by simp
  ultimately show ?thesis
    by (simp only: codepoint_units_def if_False c d) simp
qed

lemma codepoints_bounded: "codepoints s = Some ps \<Longrightarrow> p \<in> set ps \<Longrightarrow> p < 0x110000"
proof (induction s arbitrary: ps rule: codepoints.induct)
  case 1
  then show ?case by simp
next
  case (2 c cs)
  have "unat c < 0x110000" using unat_u16_less [of c] by simp
  with 2 surrogate_pair_bounds [of c] show ?case
    by (fastforce split: if_splits list.splits)
qed

lemma codepoints_units: "codepoints s = Some ps \<Longrightarrow> concat (map codepoint_units ps) = s"
proof (induction s arbitrary: ps rule: codepoints.induct)
  case 1
  then show ?case by simp
next
  case (2 c cs)
  have "codepoint_units (unat c) = [c]"
    using unat_u16_less [of c] by (simp add: codepoint_units_def)
  with 2 surrogate_pair_units [of c] show ?case
    by (fastforce split: if_splits list.splits)
qed

lemma unat_hex_digit: "n < 16 \<Longrightarrow> unat (hex_digit n) = (if n < 10 then 0x30 + n else 0x37 + n)"
  unfolding hex_digit_def
  by (cases "n < 10"; simp only: if_True if_False; subst unat_of_nat; simp)

lemma hex_value_digit: "n < 16 \<Longrightarrow> hex_value (hex_digit n) = n"
  by (simp add: hex_value_def unat_hex_digit)

lemma percent_decode_byte: "b < 256 \<Longrightarrow> percent_decode (percent_byte b @ r) = b # percent_decode r"
  by (simp add: percent_byte_def hex_value_digit)

lemma percent_decode_bytes:
  "(\<And>b. b \<in> set bs \<Longrightarrow> b < 256) \<Longrightarrow>
   percent_decode (concat (map percent_byte bs) @ r) = bs @ percent_decode r"
  by (induction bs) (auto simp: percent_decode_byte)

lemma utf8_bytes: "p < 0x110000 \<Longrightarrow> b \<in> set (utf8 p) \<Longrightarrow> b < 256"
  unfolding utf8_def by (auto split: if_splits)

lemma uri_unreserved_ascii: "uri_unreserved p \<Longrightarrow> p < 0x80 \<and> p \<noteq> 0x25"
  by (auto simp: uri_unreserved_def)

lemma unat_ascii: "p < 0x80 \<Longrightarrow> unat (word_of_nat p :: u16) = p"
  by (subst unat_of_nat) simp

lemma percent_decode_codepoint:
  assumes "p < 0x110000"
  shows "percent_decode (encode_codepoint p @ r) = utf8 p @ percent_decode r"
proof (cases "uri_unreserved p")
  case True
  then have p: "p < 0x80" "p \<noteq> 0x25" by (simp_all add: uri_unreserved_ascii)
  from p(1) have u: "unat (word_of_nat p :: u16) = p" by (rule unat_ascii)
  with p(2) have "(word_of_nat p :: u16) \<noteq> 0x25" by auto
  with True p(1) u show ?thesis by (simp add: encode_codepoint_def utf8_def)
next
  case False
  with utf8_bytes [OF assms] show ?thesis
    by (simp add: encode_codepoint_def percent_decode_bytes)
qed

lemma base64_split:
  fixes p :: nat
  shows "p div 0x1000 * 0x1000 + p div 0x40 mod 0x40 * 0x40 + p mod 0x40 = p"
    and "p div 0x40000 * 0x40000 + p div 0x1000 mod 0x40 * 0x1000 + p div 0x40 mod 0x40 * 0x40
           + p mod 0x40 = p"
proof -
  have d: "p div 0x1000 = p div 0x40 div 0x40" "p div 0x40000 = p div 0x40 div 0x40 div 0x40"
    by (simp_all add: div_mult2_eq [symmetric])
  have *: "q = q div 0x40 * 0x40 + q mod 0x40" for q :: nat by simp
  show "p div 0x1000 * 0x1000 + p div 0x40 mod 0x40 * 0x40 + p mod 0x40 = p"
    using * [of p] * [of "p div 0x40"] unfolding d by linarith
  show "p div 0x40000 * 0x40000 + p div 0x1000 mod 0x40 * 0x1000 + p div 0x40 mod 0x40 * 0x40
           + p mod 0x40 = p"
    using * [of p] * [of "p div 0x40"] * [of "p div 0x40 div 0x40"] unfolding d by linarith
qed

lemma utf8_decode_codepoint:
  assumes "p < 0x110000"
  shows "utf8_decode (utf8 p @ r) = p # utf8_decode r"
proof -
  consider "p < 0x80" | "0x80 \<le> p" "p < 0x800" | "0x800 \<le> p" "p < 0x10000" | "0x10000 \<le> p"
    by linarith
  then show ?thesis
  proof cases
    case 1
    then show ?thesis by (simp add: utf8_def)
  next
    case 2
    moreover from 2 have "p div 0x40 < 0x20" by simp
    ultimately show ?thesis by (simp add: utf8_def)
  next
    case 3
    moreover from 3 have "p div 0x1000 < 0x10" by simp
    ultimately show ?thesis by (simp add: utf8_def base64_split)
  next
    case 4
    then show ?thesis by (simp add: utf8_def base64_split)
  qed
qed

lemma decode_encodeURIComponent:
  assumes "encodeURIComponent s = Inr u"
  shows "decode_component u = s"
proof -
  from assms obtain ps where ps: "codepoints s = Some ps" and u: "u = concat (map encode_codepoint ps)"
    by (auto simp: encodeURIComponent_def split: option.splits)
  have "percent_decode (concat (map encode_codepoint qs)) = concat (map utf8 qs)
      \<and> utf8_decode (concat (map utf8 qs)) = qs" if "\<forall>p \<in> set qs. p < 0x110000" for qs
    using that by (induction qs) (auto simp: percent_decode_codepoint utf8_decode_codepoint)
  with codepoints_bounded [OF ps] u codepoints_units [OF ps] show ?thesis
    by (simp add: decode_component_def)
qed

lemma encodeURIComponent_total_iff: "(\<exists>u. encodeURIComponent s = Inr u) \<longleftrightarrow> well_formed s"
  by (auto simp: encodeURIComponent_def well_formed_def split: option.splits)

definition uri_safe :: "u16 \<Rightarrow> bool" where
  "uri_safe c \<longleftrightarrow> uri_unreserved (unat c) \<or> c = 0x25"

lemma hex_digit_safe: "n < 16 \<Longrightarrow> uri_safe (hex_digit n)"
  by (auto simp: uri_safe_def uri_unreserved_def unat_hex_digit)

lemma encode_codepoint_safe:
  assumes "p < 0x110000" and "c \<in> set (encode_codepoint p)"
  shows "uri_safe c"
proof (cases "uri_unreserved p")
  case True
  moreover from True have "unat (word_of_nat p :: u16) = p"
    by (simp add: unat_ascii uri_unreserved_ascii)
  ultimately show ?thesis
    using assms(2) by (simp add: encode_codepoint_def uri_safe_def)
next
  case False
  with assms(2) obtain b where "b \<in> set (utf8 p)" and c: "c \<in> set (percent_byte b)"
    by (auto simp: encode_codepoint_def)
  with assms(1) have "b < 256" by (blast intro: utf8_bytes)
  then have "b div 16 < 16" and "b mod 16 < 16" by auto
  with c show ?thesis
    by (auto simp: percent_byte_def hex_digit_safe) (simp add: uri_safe_def)
qed

lemma encodeURIComponent_safe:
  assumes "encodeURIComponent s = Inr u" and "c \<in> set u"
  shows "uri_safe c"
proof -
  from assms obtain ps q where "codepoints s = Some ps" and "q \<in> set ps" and "c \<in> set (encode_codepoint q)"
    by (auto simp: encodeURIComponent_def split: option.splits)
  then show ?thesis by (blast intro: encode_codepoint_safe codepoints_bounded)
qed

end
