(* ===== verification/Stitcher.thy ===== *)
theory Stitcher
  imports Js_String
begin

section \<open>The sentence stitcher (hooks/useSentenceStitcher.ts)\<close>

text \<open>
  \<open>createSentenceStitcher\<close> keeps a pending buffer and a timer and turns transcript segments into
  display lines. The state below holds both, the host's timer queue (\<open>setTimeout\<close> and
  \<open>clearTimeout\<close> over an explicit clock), and the lines passed to \<open>onLine\<close> so far. The second half
  states what a stitcher promises as an abstract machine over groups of segments and shows that the
  code refines it: the lines are a partition of the accepted segments into single-speaker groups,
  cut at sentence ends, speaker changes, silence and teardown.
\<close>

subsection \<open>Data\<close>

record StitchedLine =
  sl_text :: jsstring
  sl_speaker :: jsstring
  sl_isQuestion :: bool
  sl_isComplete :: bool

record StitcherInput =
  si_text :: jsstring
  si_speakerLabel :: jsstring
  si_isQuestion :: bool

record SentenceStitcherOptions =
  timeoutMs :: nat
  sentenceEnders :: "jsstring list"

text \<open>Ideographic full stop, full-width question and exclamation mark, and the three ASCII marks.\<close>

definition DEFAULT_ENDERS :: "jsstring list" where
  "DEFAULT_ENDERS = [[0x3002], [0xFF1F], [0xFF01], lit ''.'', lit ''?'', lit ''!'']"

definition default_options :: SentenceStitcherOptions where
  "default_options = \<lparr>timeoutMs = 4000, sentenceEnders = DEFAULT_ENDERS\<rparr>"

record PendingBuffer =
  pb_text :: jsstring
  pb_speaker :: jsstring
  pb_isQuestion :: bool

record SentenceStitcher =
  pending :: "PendingBuffer option"
  timer :: "nat option"
  clock :: nat
  nextTimer :: nat
  scheduled :: "(nat \<times> nat) list"
  onLine_log :: "StitchedLine list"

definition createSentenceStitcher :: SentenceStitcher where
  "createSentenceStitcher = \<lparr>pending = None, timer = None, clock = 0, nextTimer = 0,
     scheduled = [], onLine_log = []\<rparr>"

subsection \<open>Joining fragments\<close>

definition isLatinWordChar :: "jsstring \<Rightarrow> bool" where
  "isLatinWordChar ch = (case ch of [] \<Rightarrow> False | code # _ \<Rightarrow>
     (0x30 \<le> code \<and> code \<le> 0x39) \<or> (0x41 \<le> code \<and> code \<le> 0x5A) \<or> (0x61 \<le> code \<and> code \<le> 0x7A))"

definition joinSegments :: "jsstring \<Rightarrow> jsstring \<Rightarrow> jsstring" where
  "joinSegments left right =
     (if length left = 0 then right
      else if length right = 0 then left
      else let leftTail = slice_last 1 left; rightHead = take 1 right;
               needsSpace = isLatinWordChar leftTail \<and> isLatinWordChar rightHead
           in if needsSpace then left @ lit '' '' @ right else left @ right)"

subsection \<open>Operations\<close>

definition setTimeout :: "nat \<Rightarrow> SentenceStitcher \<Rightarrow> nat \<times> SentenceStitcher" where
  "setTimeout ms s = (nextTimer s,
     s\<lparr>scheduled := scheduled s @ [(nextTimer s, clock s + ms)], nextTimer := Suc (nextTimer s)\<rparr>)"

definition clearTimeout :: "nat \<Rightarrow> SentenceStitcher \<Rightarrow> SentenceStitcher" where
  "clearTimeout i s = s\<lparr>scheduled := filter (\<lambda>t. fst t \<noteq> i) (scheduled s)\<rparr>"

definition flush :: "bool \<Rightarrow> SentenceStitcher \<Rightarrow> SentenceStitcher" where
  "flush complete s = (case pending s of
     None \<Rightarrow> s
   | Some p \<Rightarrow>
       let line = \<lparr>sl_text = pb_text p, sl_speaker = pb_speaker p, sl_isQuestion = pb_isQuestion p,
                   sl_isComplete = complete\<rparr>;
           s1 = s\<lparr>onLine_log := onLine_log s @ [line], pending := None\<rparr>
       in case timer s1 of None \<Rightarrow> s1 | Some i \<Rightarrow> (clearTimeout i s1)\<lparr>timer := None\<rparr>)"

definition pushSegment ::
  "SentenceStitcherOptions \<Rightarrow> StitcherInput \<Rightarrow> SentenceStitcher \<Rightarrow> SentenceStitcher" where
  "pushSegment opts segment s =
     (let incoming = trim (si_text segment) in
      if length incoming = 0 then s
      else
        let s1 = (case pending s of
                    None \<Rightarrow> s
                  | Some p \<Rightarrow> if pb_speaker p \<noteq> si_speakerLabel segment then flush False s else s);
            p = (case pending s1 of
                   None \<Rightarrow> \<lparr>pb_text = incoming, pb_speaker = si_speakerLabel segment,
                            pb_isQuestion = si_isQuestion segment\<rparr>
                 | Some q \<Rightarrow> \<lparr>pb_text = joinSegments (pb_text q) incoming, pb_speaker = pb_speaker q,
                              pb_isQuestion = (pb_isQuestion q \<or> si_isQuestion segment)\<rparr>);
            s2 = s1\<lparr>pending := Some p\<rparr>;
            lastChar = slice_last 1 (pb_text p)
        in if lastChar \<in> set (sentenceEnders opts) then flush True s2
           else let s3 = (case timer s2 of None \<Rightarrow> s2 | Some i \<Rightarrow> clearTimeout i s2);
                    (i, s4) = setTimeout (timeoutMs opts) s3
                in s4\<lparr>timer := Some i\<rparr>)"

definition destroy :: "SentenceStitcher \<Rightarrow> SentenceStitcher" where
  "destroy s =
     (let s1 = (case timer s of None \<Rightarrow> s | Some i \<Rightarrow> (clearTimeout i s)\<lparr>timer := None\<rparr>)
      in if pending s1 \<noteq> None then flush False s1 else s1)"

text \<open>The callback handed to \<open>setTimeout\<close>, and the event loop that runs the callbacks that are due,
  earliest first, each at its due time.\<close>

definition timeoutCallback :: "SentenceStitcher \<Rightarrow> SentenceStitcher" where
  "timeoutCallback s = flush False (s\<lparr>timer := None\<rparr>)"

fun runTimers :: "(nat \<times> nat) list \<Rightarrow> SentenceStitcher \<Rightarrow> SentenceStitcher" where
  "runTimers [] s = s"
| "runTimers (t # ts) s = runTimers ts
     (if t \<in> set (scheduled s)
      then timeoutCallback (s\<lparr>clock := snd t, scheduled := filter (\<lambda>u. u \<noteq> t) (scheduled s)\<rparr>)
      else s)"

definition elapse :: "nat \<Rightarrow> SentenceStitcher \<Rightarrow> SentenceStitcher" where
  "elapse dt s =
     (let due = sort_key snd (filter (\<lambda>t. snd t \<le> clock s + dt) (scheduled s))
      in (runTimers due s)\<lparr>clock := clock s + dt\<rparr>)"

datatype stitcher_event = Push StitcherInput | Elapse nat | Destroy

fun stitcher_step ::
  "SentenceStitcherOptions \<Rightarrow> stitcher_event \<Rightarrow> SentenceStitcher \<Rightarrow> SentenceStitcher" where
  "stitcher_step opts (Push seg) s = pushSegment opts seg s"
| "stitcher_step opts (Elapse dt) s = elapse dt s"
| "stitcher_step opts Destroy s = destroy s"

abbreviation stitch :: "SentenceStitcherOptions \<Rightarrow> stitcher_event list \<Rightarrow> SentenceStitcher" where
  "stitch opts es \<equiv> run (stitcher_step opts) es createSentenceStitcher"

subsection \<open>Facts about joinSegments\<close>

lemma joinSegments_Nil [simp]: "joinSegments [] r = r" "joinSegments l [] = l"
  by (simp_all add: joinSegments_def)

lemma joinSegments_cases:
  "joinSegments l r = l @ r \<or> joinSegments l r = l @ 0x20 # r \<and> l \<noteq> [] \<and> r \<noteq> []"
  by (auto simp: joinSegments_def Let_def lit_Cons)

lemma joinSegments_eq_Nil [simp]: "joinSegments l r = [] \<longleftrightarrow> l = [] \<and> r = []"
  using joinSegments_cases [of l r] by auto

lemma slice_last_1: "xs \<noteq> [] \<Longrightarrow> slice_last (Suc 0) xs = [last xs]"
  using slice_last_snoc [of 1 "butlast xs" "last xs"] by (simp add: slice_last_def)

lemma joinSegments_last: "r \<noteq> [] \<Longrightarrow> slice_last (Suc 0) (joinSegments l r) = slice_last (Suc 0) r"
  using joinSegments_cases [of l r] by (auto simp: slice_last_1)

definition strip_blanks :: "jsstring \<Rightarrow> jsstring" where
  "strip_blanks s = filter (\<lambda>c. c \<noteq> 0x20) s"

lemma strip_blanks_append [simp]: "strip_blanks (a @ b) = strip_blanks a @ strip_blanks b"
  by (simp add: strip_blanks_def)

lemma strip_blanks_join: "strip_blanks (joinSegments l r) = strip_blanks l @ strip_blanks r"
  using joinSegments_cases [of l r] by (auto simp: strip_blanks_def)

subsection \<open>The specification: groups of segments\<close>

text \<open>
  The abstract machine keeps the segments of the open group, the closed groups (with the flag
  whether the group ended a sentence), the time of the last accepted segment and the clock.
\<close>

record groups =
  g_open :: "StitcherInput list"
  g_out :: "(StitcherInput list \<times> bool) list"
  g_last :: nat
  g_clock :: nat

definition groups_init :: groups where
  "groups_init = \<lparr>g_open = [], g_out = [], g_last = 0, g_clock = 0\<rparr>"

definition group_text :: "StitcherInput list \<Rightarrow> jsstring" where
  "group_text segs = foldl (\<lambda>t seg. joinSegments t (trim (si_text seg))) [] segs"

definition group_buffer :: "StitcherInput list \<Rightarrow> PendingBuffer" where
  "group_buffer segs = \<lparr>pb_text = group_text segs, pb_speaker = si_speakerLabel (hd segs),
     pb_isQuestion = list_ex si_isQuestion segs\<rparr>"

definition group_line :: "StitcherInput list \<times> bool \<Rightarrow> StitchedLine" where
  "group_line gc = \<lparr>sl_text = group_text (fst gc), sl_speaker = si_speakerLabel (hd (fst gc)),
     sl_isQuestion = list_ex si_isQuestion (fst gc), sl_isComplete = snd gc\<rparr>"

definition ends_sentence :: "jsstring list \<Rightarrow> StitcherInput list \<Rightarrow> bool" where
  "ends_sentence enders segs \<longleftrightarrow> slice_last 1 (group_text segs) \<in> set enders"

definition close_group :: "bool \<Rightarrow> groups \<Rightarrow> groups" where
  "close_group complete g = (if g_open g = [] then g
     else g\<lparr>g_open := [], g_out := g_out g @ [(g_open g, complete)]\<rparr>)"

definition add_segment :: "jsstring list \<Rightarrow> StitcherInput \<Rightarrow> groups \<Rightarrow> groups" where
  "add_segment enders seg g =
     (if trim (si_text seg) = [] then g
      else
        let g1 = (if g_open g \<noteq> [] \<and> si_speakerLabel (hd (g_open g)) \<noteq> si_speakerLabel seg
                  then close_group False g else g);
            g2 = g1\<lparr>g_open := g_open g1 @ [seg], g_last := g_clock g\<rparr>
        in if ends_sentence enders (g_open g2) then close_group True g2 else g2)"

fun spec_step :: "SentenceStitcherOptions \<Rightarrow> stitcher_event \<Rightarrow> groups \<Rightarrow> groups" where
  "spec_step opts (Push seg) g = add_segment (sentenceEnders opts) seg g"
| "spec_step opts (Elapse dt) g =
     (let g1 = g\<lparr>g_clock := g_clock g + dt\<rparr>
      in if g_last g1 + timeoutMs opts \<le> g_clock g1 then close_group False g1 else g1)"
| "spec_step opts Destroy g = close_group False g"

subsection \<open>The code refines the specification\<close>

text \<open>The coupling: while a group is open, exactly one timer is scheduled, for \<open>timeoutMs\<close> after the
  last accepted segment; otherwise no timer and no buffer exist.\<close>

definition refines :: "SentenceStitcherOptions \<Rightarrow> SentenceStitcher \<Rightarrow> groups \<Rightarrow> bool" where
  "refines opts s g \<longleftrightarrow>
     clock s = g_clock g \<and> g_last g \<le> g_clock g \<and> onLine_log s = map group_line (g_out g) \<and>
     (if g_open g = [] then pending s = None \<and> timer s = None \<and> scheduled s = []
      else pending s = Some (group_buffer (g_open g)) \<and>
           (\<exists>i. timer s = Some i \<and> scheduled s = [(i, g_last g + timeoutMs opts)]))"

lemma group_text_snoc:
  "group_text (segs @ [seg]) = joinSegments (group_text segs) (trim (si_text seg))"
  by (simp add: group_text_def)

lemma group_text_single: "group_text [seg] = trim (si_text seg)"
  by (simp add: group_text_def)

lemma group_buffer_snoc:
  assumes "segs \<noteq> []"
  shows "group_buffer (segs @ [seg]) =
     \<lparr>pb_text = joinSegments (pb_text (group_buffer segs)) (trim (si_text seg)),
      pb_speaker = pb_speaker (group_buffer segs),
      pb_isQuestion = (pb_isQuestion (group_buffer segs) \<or> si_isQuestion seg)\<rparr>"
  using assms by (simp add: group_buffer_def group_text_snoc)

lemma group_buffer_single:
  "group_buffer [seg] = \<lparr>pb_text = trim (si_text seg), pb_speaker = si_speakerLabel seg,
     pb_isQuestion = si_isQuestion seg\<rparr>"
  by (simp add: group_buffer_def group_text_single)

lemma group_buffer_sel [simp]:
  "pb_text (group_buffer segs) = group_text segs"
  "pb_speaker (group_buffer segs) = si_speakerLabel (hd segs)"
  "pb_isQuestion (group_buffer segs) = list_ex si_isQuestion segs"
  by (simp_all add: group_buffer_def)

lemma refines_init: "refines opts createSentenceStitcher groups_init"
  by (simp add: refines_def createSentenceStitcher_def groups_init_def)

lemma flush_refines:
  "refines opts s g \<Longrightarrow> refines opts (flush c s) (close_group c g)"
  by (auto simp: refines_def flush_def close_group_def clearTimeout_def group_line_def Let_def
      split: if_splits)

text \<open>\<open>flush\<close> right after the buffer was replaced: the old timer, if any, is still the one scheduled.\<close>

lemma flush_extended:
  assumes "refines opts s g" and "segs \<noteq> []" and "t \<le> g_clock g"
  shows "refines opts (flush c (s\<lparr>pending := Some (group_buffer segs)\<rparr>))
     (close_group c (g\<lparr>g_open := segs, g_last := t\<rparr>))"
  using assms by (auto simp: refines_def flush_def close_group_def clearTimeout_def group_line_def
      Let_def split: if_splits)

definition arm :: "SentenceStitcherOptions \<Rightarrow> SentenceStitcher \<Rightarrow> SentenceStitcher" where
  "arm opts s = (let s3 = (case timer s of None \<Rightarrow> s | Some i \<Rightarrow> clearTimeout i s);
                     (i, s4) = setTimeout (timeoutMs opts) s3
                 in s4\<lparr>timer := Some i\<rparr>)"

lemma arm_extended:
  assumes "refines opts s g" and "segs \<noteq> []"
  shows "refines opts (arm opts (s\<lparr>pending := Some (group_buffer segs)\<rparr>))
     (g\<lparr>g_open := segs, g_last := g_clock g\<rparr>)"
  using assms by (auto simp: refines_def arm_def clearTimeout_def setTimeout_def Let_def
      split: if_splits)

lemma pushSegment_arm:
  "pushSegment opts segment s =
     (let incoming = trim (si_text segment) in
      if incoming = [] then s
      else
        let s1 = (case pending s of
                    None \<Rightarrow> s
                  | Some p \<Rightarrow> if pb_speaker p \<noteq> si_speakerLabel segment then flush False s else s);
            p = (case pending s1 of
                   None \<Rightarrow> \<lparr>pb_text = incoming, pb_speaker = si_speakerLabel segment,
                            pb_isQuestion = si_isQuestion segment\<rparr>
                 | Some q \<Rightarrow> \<lparr>pb_text = joinSegments (pb_text q) incoming, pb_speaker = pb_speaker q,
                              pb_isQuestion = (pb_isQuestion q \<or> si_isQuestion segment)\<rparr>)
        in if slice_last 1 (pb_text p) \<in> set (sentenceEnders opts)
           then flush True (s1\<lparr>pending := Some p\<rparr>)
           else arm opts (s1\<lparr>pending := Some p\<rparr>))"
  by (simp add: pushSegment_def arm_def Let_def)

lemma pushSegment_refines:
  assumes R: "refines opts s g"
  shows "refines opts (pushSegment opts seg s) (add_segment (sentenceEnders opts) seg g)"
proof (cases "trim (si_text seg) = []")
  case True
  with R show ?thesis by (simp add: pushSegment_arm add_segment_def)
next
  case False
  let ?s1 = "case pending s of None \<Rightarrow> s
     | Some p \<Rightarrow> if pb_speaker p \<noteq> si_speakerLabel seg then flush False s else s"
  let ?g1 = "if g_open g \<noteq> [] \<and> si_speakerLabel (hd (g_open g)) \<noteq> si_speakerLabel seg
     then close_group False g else g"
  let ?open = "g_open ?g1 @ [seg]"
  have R1: "refines opts ?s1 ?g1"
    using R flush_refines [OF R, of False] by (auto simp: refines_def split: if_splits)
  have clock: "g_clock ?g1 = g_clock g"
    by (simp add: close_group_def)
  have p: "(case pending ?s1 of
       None \<Rightarrow> \<lparr>pb_text = trim (si_text seg), pb_speaker = si_speakerLabel seg,
                pb_isQuestion = si_isQuestion seg\<rparr>
     | Some q \<Rightarrow> \<lparr>pb_text = joinSegments (pb_text q) (trim (si_text seg)), pb_speaker = pb_speaker q,
                  pb_isQuestion = (pb_isQuestion q \<or> si_isQuestion seg)\<rparr>) = group_buffer ?open"
    using R1 by (cases "g_open ?g1 = []")
      (simp_all add: refines_def group_buffer_single group_buffer_snoc)
  have "refines opts (flush True (?s1\<lparr>pending := Some (group_buffer ?open)\<rparr>))
      (close_group True (?g1\<lparr>g_open := ?open, g_last := g_clock g\<rparr>))"
    by (rule flush_extended [OF R1]) (simp_all add: clock)
  moreover have "refines opts (arm opts (?s1\<lparr>pending := Some (group_buffer ?open)\<rparr>))
      (?g1\<lparr>g_open := ?open, g_last := g_clock g\<rparr>)"
    using arm_extended [OF R1, of ?open] clock by simp
  ultimately show ?thesis
    using False p unfolding pushSegment_arm add_segment_def
    by (simp only: Let_def if_False ends_sentence_def p group_buffer_sel groups.simps split: if_split) simp
qed

lemma destroy_refines: "refines opts s g \<Longrightarrow> refines opts (destroy s) (close_group False g)"
  by (auto simp: refines_def destroy_def flush_def close_group_def clearTimeout_def group_line_def
      Let_def split: if_splits)

lemma elapse_refines:
  "refines opts s g \<Longrightarrow> refines opts (elapse dt s) (spec_step opts (Elapse dt) g)"
  by (auto simp: refines_def elapse_def flush_def close_group_def timeoutCallback_def
      clearTimeout_def group_line_def Let_def split: if_splits)

lemma step_refines: "refines opts s g \<Longrightarrow> refines opts (stitcher_step opts e s) (spec_step opts e g)"
  by (cases e) (simp_all add: pushSegment_refines destroy_refines elapse_refines del: spec_step.simps(2))

lemma run_refines:
  "refines opts s g \<Longrightarrow> refines opts (run (stitcher_step opts) es s) (run (spec_step opts) es g)"
  by (induction es arbitrary: s g) (simp_all add: step_refines del: stitcher_step.simps spec_step.simps)

text \<open>The states a stitcher can be in: those that refine some abstract state. Every run from
  \<open>createSentenceStitcher\<close> stays among them.\<close>

interpretation stitcher: machine "stitcher_step opts" "\<lambda>s. s = createSentenceStitcher"
  "\<lambda>s. \<exists>g. refines opts s g" for opts
  by unfold_locales (auto intro: refines_init step_refines)

subsection \<open>What the specification guarantees\<close>

definition single_speaker :: "StitcherInput list \<Rightarrow> bool" where
  "single_speaker segs = list_all (\<lambda>seg. si_speakerLabel seg = si_speakerLabel (hd segs)) segs"

definition uncut :: "jsstring list \<Rightarrow> StitcherInput list \<Rightarrow> bool" where
  "uncut enders segs = list_all (\<lambda>k. \<not> ends_sentence enders (take k segs)) [1..<length segs]"

definition closed_ok :: "jsstring list \<Rightarrow> StitcherInput list \<times> bool \<Rightarrow> bool" where
  "closed_ok enders gc \<longleftrightarrow> fst gc \<noteq> [] \<and> single_speaker (fst gc) \<and> uncut enders (fst gc)
     \<and> snd gc = ends_sentence enders (fst gc)"

definition open_ok :: "jsstring list \<Rightarrow> StitcherInput list \<Rightarrow> bool" where
  "open_ok enders segs \<longleftrightarrow> single_speaker segs \<and> uncut enders segs
     \<and> (segs = [] \<or> \<not> ends_sentence enders segs)"

text \<open>The segments a run of events feeds in that are not blank.\<close>

fun accepted :: "stitcher_event list \<Rightarrow> StitcherInput list" where
  "accepted [] = []"
| "accepted (Push seg # es) = (if trim (si_text seg) = [] then accepted es else seg # accepted es)"
| "accepted (_ # es) = accepted es"

lemma accepted_append [simp]: "accepted (es @ fs) = accepted es @ accepted fs"
  by (induction es rule: accepted.induct) auto

definition groups_ok :: "jsstring list \<Rightarrow> StitcherInput list \<Rightarrow> groups \<Rightarrow> bool" where
  "groups_ok enders segs g \<longleftrightarrow> concat (map fst (g_out g)) @ g_open g = segs
     \<and> list_all (closed_ok enders) (g_out g) \<and> open_ok enders (g_open g)"

lemma groups_ok_close:
  assumes "concat (map fst (g_out g)) @ g_open g = segs" and "list_all (closed_ok enders) (g_out g)"
    and "g_open g \<noteq> [] \<Longrightarrow> closed_ok enders (g_open g, c)"
  shows "groups_ok enders segs (close_group c g)"
  using assms by (auto simp: groups_ok_def close_group_def open_ok_def single_speaker_def uncut_def)

lemma groups_ok_close_False: "groups_ok enders segs g \<Longrightarrow> groups_ok enders segs (close_group False g)"
  by (rule groups_ok_close) (auto simp: groups_ok_def open_ok_def closed_ok_def)

lemma single_speaker_snoc:
  "single_speaker segs \<Longrightarrow> segs = [] \<or> si_speakerLabel (hd segs) = si_speakerLabel seg \<Longrightarrow>
   single_speaker (segs @ [seg])"
  by (cases segs) (auto simp: single_speaker_def)

lemma uncut_snoc:
  assumes "uncut enders segs" and "segs = [] \<or> \<not> ends_sentence enders segs"
  shows "uncut enders (segs @ [seg])"
proof -
  have "\<not> ends_sentence enders (take k (segs @ [seg]))" if "k \<in> set [1..<length (segs @ [seg])]" for k
    using assms that by (cases "k = length segs") (auto simp: uncut_def list_all_iff)
  then show ?thesis unfolding uncut_def list_all_iff by blast
qed

lemma add_segment_ok:
  assumes ok: "groups_ok enders segs g" and nb: "trim (si_text seg) \<noteq> []"
  shows "groups_ok enders (segs @ [seg]) (add_segment enders seg g)"
proof -
  define g1 where "g1 = (if g_open g \<noteq> [] \<and> si_speakerLabel (hd (g_open g)) \<noteq> si_speakerLabel seg
     then close_group False g else g)"
  define g2 where "g2 = g1\<lparr>g_open := g_open g1 @ [seg], g_last := g_clock g\<rparr>"
  have add: "add_segment enders seg g = (if ends_sentence enders (g_open g2) then close_group True g2 else g2)"
    using nb by (simp add: add_segment_def Let_def g1_def g2_def)
  have ok1: "groups_ok enders segs g1"
    using ok groups_ok_close_False [OF ok] by (simp add: g1_def)
  have "g_open g1 = [] \<or> si_speakerLabel (hd (g_open g1)) = si_speakerLabel seg"
    by (auto simp: close_group_def g1_def)
  then have single: "single_speaker (g_open g2)" and cut: "uncut enders (g_open g2)"
    using ok1 by (auto simp: g2_def groups_ok_def open_ok_def single_speaker_snoc uncut_snoc)
  have parts: "concat (map fst (g_out g2)) @ g_open g2 = segs @ [seg]"
    and outs: "list_all (closed_ok enders) (g_out g2)"
    using ok1 by (auto simp: g2_def groups_ok_def)
  have "groups_ok enders (segs @ [seg]) (close_group True g2)" if "ends_sentence enders (g_open g2)"
    using groups_ok_close [OF parts outs, of True] that single cut by (simp add: closed_ok_def)
  moreover have "groups_ok enders (segs @ [seg]) g2" if "\<not> ends_sentence enders (g_open g2)"
    using that parts outs single cut by (simp add: groups_ok_def open_ok_def)
  ultimately show ?thesis by (simp add: add)
qed

lemma spec_step_ok:
  assumes "groups_ok (sentenceEnders opts) segs g"
  shows "groups_ok (sentenceEnders opts) (segs @ accepted [e]) (spec_step opts e g)"
proof (cases e)
  case (Push seg)
  with assms add_segment_ok [OF assms] show ?thesis by (simp add: add_segment_def)
next
  case (Elapse dt)
  have "groups_ok (sentenceEnders opts) segs (g\<lparr>g_clock := t\<rparr>)" for t
    using assms by (simp add: groups_ok_def)
  with Elapse show ?thesis by (simp add: Let_def groups_ok_close_False)
next
  case Destroy
  with groups_ok_close_False [OF assms] show ?thesis by simp
qed

lemma spec_run_ok:
  "groups_ok (sentenceEnders opts) segs g \<Longrightarrow>
   groups_ok (sentenceEnders opts) (segs @ accepted es) (run (spec_step opts) es g)"
proof (induction es arbitrary: segs g)
  case Nil
  then show ?case by simp
next
  case (Cons e es)
  have "accepted (e # es) = accepted [e] @ accepted es"
    using accepted_append [of "[e]" es] by simp
  with Cons.IH [OF spec_step_ok [OF Cons.prems, of e]] show ?case by simp
qed

lemma groups_init_ok: "groups_ok enders [] groups_init"
  by (simp add: groups_ok_def groups_init_def open_ok_def single_speaker_def uncut_def)

text \<open>The abstract state behind a run, with both halves: the code refines it, and it partitions the
  accepted segments.\<close>

lemma stitch_groups:
  obtains g where "refines opts (stitch opts es) g"
    and "groups_ok (sentenceEnders opts) (accepted es) g"
proof
  show "refines opts (stitch opts es) (run (spec_step opts) es groups_init)"
    by (rule run_refines) (rule refines_init)
  show "groups_ok (sentenceEnders opts) (accepted es) (run (spec_step opts) es groups_init)"
    using spec_run_ok [OF groups_init_ok, of opts es] by simp
qed

subsection \<open>Properties\<close>


lemma group_text_content:
  "strip_blanks (group_text segs) = strip_blanks (concat (map (\<lambda>seg. trim (si_text seg)) segs))"
  by (induction segs rule: rev_induct) (simp_all add: group_text_snoc strip_blanks_join group_text_def)

text \<open>The text a stitcher has shown or still holds.\<close>

definition stitched_text :: "SentenceStitcher \<Rightarrow> jsstring" where
  "stitched_text s = concat (map sl_text (onLine_log s))
     @ (case pending s of None \<Rightarrow> [] | Some p \<Rightarrow> pb_text p)"

lemma refines_text:
  assumes "refines opts s g"
  shows "strip_blanks (stitched_text s)
    = strip_blanks (concat (map (\<lambda>seg. trim (si_text seg)) (concat (map fst (g_out g)) @ g_open g)))"
proof -
  have "stitched_text s = concat (map (\<lambda>gc. group_text (fst gc)) (g_out g)) @ group_text (g_open g)"
    using assms by (auto simp: refines_def stitched_text_def group_line_def comp_def
        group_text_def split: if_splits)
  moreover have "strip_blanks (concat (map (\<lambda>gc. group_text (fst gc)) gs))
      = strip_blanks (concat (map (\<lambda>seg. trim (si_text seg)) (concat (map fst gs))))" for gs :: "(StitcherInput list \<times> bool) list"
    by (induction gs) (simp_all add: group_text_content)
  ultimately show ?thesis by (simp add: group_text_content)
qed

text \<open>No word is lost, duplicated or reordered: up to blanks, the shown lines followed by the
  pending buffer spell the trimmed segments in the order they were pushed, whatever timeouts,
  speaker changes and teardowns happened in between.\<close>

lemma stitched_content:
  "strip_blanks (stitched_text (stitch opts es))
   = strip_blanks (concat (map (\<lambda>seg. trim (si_text seg)) (accepted es)))"
proof -
  obtain g where "refines opts (stitch opts es) g"
    and "groups_ok (sentenceEnders opts) (accepted es) g"
    by (rule stitch_groups)
  then show ?thesis
    using refines_text [of opts "stitch opts es" g] by (simp add: groups_ok_def)
qed

text \<open>C26. Timer discipline: in every reachable state a buffer is pending exactly when a timer is
  held, the timer queue holds that timer and nothing else, and it is due at the latest
  \<open>timeoutMs\<close> from now; after \<open>destroy\<close> neither a buffer nor a timer is left.\<close>

theorem stitcher_timer_discipline:
  "(pending (stitch opts es) = None) = (timer (stitch opts es) = None)
   \<and> map fst (scheduled (stitch opts es)) = (case timer (stitch opts es) of None \<Rightarrow> [] | Some i \<Rightarrow> [i])
   \<and> list_all (\<lambda>t. snd t \<le> clock (stitch opts es) + timeoutMs opts) (scheduled (stitch opts es))
   \<and> pending (stitch opts (es @ [Destroy])) = None \<and> scheduled (stitch opts (es @ [Destroy])) = []"
proof -
  obtain g where r: "refines opts (stitch opts es) g"
    by (rule stitch_groups)
  from destroy_refines [OF r] have "pending (stitch opts (es @ [Destroy])) = None"
    and "scheduled (stitch opts (es @ [Destroy])) = []"
    by (auto simp: refines_def close_group_def split: if_splits)
  with r show ?thesis by (auto simp: refines_def split: if_splits)
qed

text \<open>C27. Bounded latency: once \<open>timeoutMs\<close> pass without a further segment, the pending buffer has
  been shown as one incomplete line (or there was none), and nothing is pending or scheduled.\<close>

theorem stitcher_latency:
  assumes "timeoutMs opts \<le> dt"
  shows "pending (elapse dt (stitch opts es)) = None \<and> scheduled (elapse dt (stitch opts es)) = []
    \<and> onLine_log (elapse dt (stitch opts es)) = onLine_log (stitch opts es)
        @ (case pending (stitch opts es) of None \<Rightarrow> []
           | Some p \<Rightarrow> [\<lparr>sl_text = pb_text p, sl_speaker = pb_speaker p,
                         sl_isQuestion = pb_isQuestion p, sl_isComplete = False\<rparr>])"
proof -
  obtain g where r: "refines opts (stitch opts es) g"
    by (rule stitch_groups)
  with assms have "g_last g + timeoutMs opts \<le> g_clock g + dt"
    by (simp add: refines_def)
  then have "spec_step opts (Elapse dt) g = close_group False (g\<lparr>g_clock := g_clock g + dt\<rparr>)"
    by simp
  with elapse_refines [OF r, of dt] r show ?thesis
    by (auto simp: refines_def close_group_def group_line_def group_buffer_def split: if_splits)
qed

definition hello :: StitcherInput where
  "hello = \<lparr>si_text = lit '' hello'', si_speakerLabel = lit ''Speaker_0'', si_isQuestion = False\<rparr>"

lemma trim_hello: "trim (si_text hello) = lit ''hello''"
  by (simp add: hello_def trim_def js_space_def js_eval)

lemma push_hello:
  "pushSegment default_options hello createSentenceStitcher =
     \<lparr>pending = Some \<lparr>pb_text = lit ''hello'', pb_speaker = lit ''Speaker_0'', pb_isQuestion = False\<rparr>,
      timer = Some 0, clock = 0, nextTimer = 1, scheduled = [(0, 4000)], onLine_log = []\<rparr>"
  by (simp add: pushSegment_arm arm_def Let_def trim_hello createSentenceStitcher_def
      default_options_def DEFAULT_ENDERS_def setTimeout_def slice_last_def js_eval)
    (simp add: hello_def js_eval)

theorem stitcher_latency_witness:
  "onLine_log (elapse 4000 (stitch default_options [Push hello])) =
     [\<lparr>sl_text = lit ''hello'', sl_speaker = lit ''Speaker_0'', sl_isQuestion = False,
       sl_isComplete = False\<rparr>]"
proof -
  have "timeoutMs default_options \<le> 4000" by (simp add: default_options_def)
  from stitcher_latency [OF this, of "[Push hello]"] show ?thesis
    by (simp add: push_hello)
qed

text \<open>The timeout is restarted by every segment, so it bounds silence, not waiting: a speaker
  whose unpunctuated segments keep arriving less than \<open>timeoutMs\<close> apart is never shown, however
  long this goes on; the whole speech stays in the buffer.\<close>

lemma stitcher_starvation:
  assumes "dt < timeoutMs opts" and "trim (si_text seg) \<noteq> []"
    and "slice_last 1 (trim (si_text seg)) \<notin> set (sentenceEnders opts)"
  shows "let s = stitch opts (concat (replicate n [Push seg, Elapse dt]))
    in clock s = n * dt \<and> onLine_log s = []
       \<and> map_option pb_text (pending s) = (if n = 0 then None else Some (group_text (replicate n seg)))"
proof -
  let ?es = "\<lambda>n. concat (replicate n [Push seg, Elapse dt])"
  let ?g = "\<lambda>n. \<lparr>g_open = replicate n seg, g_out = [], g_last = (n - 1) * dt, g_clock = n * dt\<rparr>"
  have noend: "\<not> ends_sentence (sentenceEnders opts) (replicate n seg @ [seg])" for n
    using assms(2,3) by (simp add: ends_sentence_def group_text_snoc joinSegments_last)
  have step: "run (spec_step opts) [Push seg, Elapse dt] (?g n) = ?g (Suc n)" for n
    using assms(1,2) noend [of n]
    by (cases n) (simp_all add: add_segment_def Let_def replicate_append_same add.commute)
  have "run (spec_step opts) (?es n) (?g m) = ?g (m + n)" for m
  proof (induction n arbitrary: m)
    case 0
    show ?case by simp
  next
    case (Suc n)
    have "run (spec_step opts) (?es (Suc n)) (?g m)
        = run (spec_step opts) (?es n) (run (spec_step opts) [Push seg, Elapse dt] (?g m))"
      by simp
    also have "\<dots> = run (spec_step opts) (?es n) (?g (Suc m))"
      by (simp only: step)
    also have "\<dots> = ?g (m + Suc n)"
      using Suc.IH [of "Suc m"] by simp
    finally show ?case .
  qed
  from this [of 0] have "run (spec_step opts) (?es n) groups_init = ?g n"
    by (simp add: groups_init_def)
  with run_refines [OF refines_init, of opts "?es n"] have "refines opts (stitch opts (?es n)) (?g n)"
    by simp
  then show ?thesis by (auto simp: Let_def refines_def split: if_splits)
qed

lemma stitcher_starvation_witness:
  "onLine_log (stitch default_options (concat (replicate 1000 [Push hello, Elapse 3999]))) = []
   \<and> clock (stitch default_options (concat (replicate 1000 [Push hello, Elapse 3999]))) = 3999000"
proof -
  have "(3999::nat) < timeoutMs default_options" by (simp add: default_options_def)
  moreover have "trim (si_text hello) \<noteq> []" by (simp add: trim_hello)
  moreover have "slice_last 1 (trim (si_text hello)) \<notin> set (sentenceEnders default_options)"
    by (simp add: trim_hello slice_last_def default_options_def DEFAULT_ENDERS_def js_eval)
  ultimately show ?thesis
    using stitcher_starvation [of 3999 default_options hello 1000] by (simp only: Let_def) simp
qed

text \<open>One push can call \<open>onLine\<close> twice, in this order: when the buffer belongs to another speaker
  it is shown as an incomplete line, and when the new segment is itself a complete sentence it is
  shown right after, complete.\<close>

lemma push_emits_twice:
  assumes "pending s = Some p" and "pb_speaker p \<noteq> si_speakerLabel seg"
    and "slice_last 1 (trim (si_text seg)) \<in> set (sentenceEnders opts)" and "trim (si_text seg) \<noteq> []"
  shows "onLine_log (pushSegment opts seg s) = onLine_log s
    @ [\<lparr>sl_text = pb_text p, sl_speaker = pb_speaker p, sl_isQuestion = pb_isQuestion p,
        sl_isComplete = False\<rparr>,
       \<lparr>sl_text = trim (si_text seg), sl_speaker = si_speakerLabel seg,
        sl_isQuestion = si_isQuestion seg, sl_isComplete = True\<rparr>]
    \<and> pending (pushSegment opts seg s) = None"
  using assms by (auto simp: pushSegment_arm flush_def clearTimeout_def Let_def split: option.splits)

definition fine :: StitcherInput where
  "fine = \<lparr>si_text = lit ''Fine.'', si_speakerLabel = lit ''Speaker_1'', si_isQuestion = False\<rparr>"

lemma push_emits_twice_witness:
  "map sl_text (onLine_log (pushSegment default_options fine
     (pushSegment default_options hello createSentenceStitcher))) = [lit ''hello'', lit ''Fine.'']"
proof -
  have t: "trim (si_text fine) = lit ''Fine.''"
    by (simp add: fine_def trim_def js_space_def js_eval)
  have "lit ''Speaker_0'' \<noteq> si_speakerLabel fine"
    by (simp add: fine_def js_eval)
  moreover have "slice_last 1 (trim (si_text fine)) \<in> set (sentenceEnders default_options)"
    by (simp add: t slice_last_def default_options_def DEFAULT_ENDERS_def js_eval)
  ultimately show ?thesis
    using push_emits_twice [of "pushSegment default_options hello createSentenceStitcher"
        "\<lparr>pb_text = lit ''hello'', pb_speaker = lit ''Speaker_0'', pb_isQuestion = False\<rparr>"
        fine default_options]
    by (simp add: push_hello t)
qed

end
