(* ===== verification/Viewer_Event.thy ===== *)
theory Viewer_Event
  imports Js_String "HOL-Library.Log_Nat"
begin

section \<open>Wire messages and viewer events\<close>

text \<open>
  The generated message types the frontend reads (gen/proto/aegis/v1/aegis_pb.ts), the event union
  the pages consume (TranscriptStreamProvider/types.ts), and \<open>decodeBinaryFrame\<close> with its helpers
  (WebSocketTranscriptStreamProvider.ts). 64-bit proto integers are words; a bigint is an \<open>int\<close>; a
  JavaScript number is an \<open>int\<close> after the rounding to 53 significant bits that \<open>round_double\<close> writes
  out. The \<open>confidence\<close> of a segment, a float that no code of the frontend reads, is its 32 bits.
  The protobuf runtime's \<open>fromBinary\<close> is a parameter. Proto enums are open: an enum value is any
  \<open>int\<close>, and the unknown ones take the \<open>default\<close> branch of each switch.
\<close>

subsection \<open>Generated messages\<close>

record Timestamp =
  ts_seconds :: "64 word"
  ts_nanos :: "32 word"

record ProtoTranscriptSegment =
  pt_segmentId :: "64 word"
  pt_speakerLabel :: jsstring
  pt_startMs :: "64 word"
  pt_endMs :: "64 word"
  pt_text :: jsstring
  pt_language :: jsstring
  pt_isFinal :: bool
  pt_confidence :: "32 word"
  pt_isQuestion :: bool

record RagCitation =
  rc_docId :: jsstring
  rc_quote :: jsstring
  rc_location :: jsstring

record ProtoPrompterHint =
  ph_hintId :: "64 word"
  ph_suggestion :: jsstring
  ph_rationale :: jsstring
  ph_citations :: "RagCitation list"
  ph_urgency :: int

record ProtoMeetingStateChange =
  ps_state :: int
  ps_reason :: jsstring

datatype ProtoPayload =
    PayloadTranscript ProtoTranscriptSegment
  | PayloadHint ProtoPrompterHint
  | PayloadStateChange ProtoMeetingStateChange
  | PayloadUnset

record ProtoViewerEvent =
  pv_sequence :: "64 word"
  pv_emittedAt :: "Timestamp option"
  pv_payload :: ProtoPayload

text \<open>The values of the two generated enums.\<close>

definition HINT_URGENCY :: "(int \<times> string) list" where
  "HINT_URGENCY = [(0, ''UNSPECIFIED''), (1, ''LOW''), (2, ''NORMAL''), (3, ''HIGH''), (4, ''URGENT'')]"

definition MEETING_STATE :: "(int \<times> string) list" where
  "MEETING_STATE = [(0, ''UNSPECIFIED''), (1, ''ACTIVE''), (2, ''HOST_RECONNECTING''), (3, ''ENDED''),
     (4, ''ENGINE_BUSY'')]"

subsection \<open>The events the pages consume\<close>

datatype HintUrgency = LowUrgency | NormalUrgency | HighUrgency | UrgentUrgency

datatype MeetingState = ActiveMeetingState | HostReconnecting | Ended | EngineBusy

record TranscriptEvent =
  te_sequence :: jsnum
  te_emittedAtMs :: jsnum
  te_segmentId :: jsnum
  te_speakerLabel :: jsstring
  te_text :: jsstring
  te_isFinal :: bool
  te_isQuestion :: bool

record HintEvent =
  he_sequence :: jsnum
  he_emittedAtMs :: jsnum
  he_hintId :: jsnum
  he_suggestion :: jsstring
  he_rationale :: "jsstring option"
  he_urgency :: HintUrgency

record StateEvent =
  se_sequence :: jsnum
  se_emittedAtMs :: jsnum
  se_state :: MeetingState
  se_reason :: "jsstring option"

datatype ViewerEvent = VTranscript TranscriptEvent | VHint HintEvent | VState StateEvent

fun event_sequence :: "ViewerEvent \<Rightarrow> jsnum" where
  "event_sequence (VTranscript t) = te_sequence t"
| "event_sequence (VHint h) = he_sequence h"
| "event_sequence (VState s) = se_sequence s"

subsection \<open>Numbers\<close>

text \<open>\<open>Number(v)\<close> of a bigint and the result of a product or sum of numbers: the nearest number with
  53 significant bits, ties to even (no value here comes near the overflow threshold).\<close>

definition round_double :: "int \<Rightarrow> int" where
  "round_double v =
     (let a = nat \<bar>v\<bar>; k = floorlog 2 a - 53; q = a div 2 ^ k; r = a mod 2 ^ k; half = 2 ^ (k - 1);
          q' = (if k = 0 then q else if r > half \<or> (r = half \<and> odd q) then q + 1 else q)
      in sgn v * int (q' * 2 ^ k))"

definition MAX_SAFE_INTEGER :: int where
  "MAX_SAFE_INTEGER = 9007199254740991"

definition bigintToNumber :: "int \<Rightarrow> jsnum" where
  "bigintToNumber v = (if v > MAX_SAFE_INTEGER then MAX_SAFE_INTEGER else round_double v)"

text \<open>\<open>Date.now()\<close> is a parameter. \<open>nanos / 1e6\<close> is a quotient of a 32-bit integer, whose floor is
  exact.\<close>

definition timestampToMs :: "jsnum \<Rightarrow> Timestamp option \<Rightarrow> jsnum" where
  "timestampToMs date_now ts = (case ts of
     None \<Rightarrow> date_now
   | Some t \<Rightarrow> round_double (round_double (bigintToNumber (sint (ts_seconds t)) * 1000)
        + sint (ts_nanos t) div 1000000))"

subsection \<open>Enum mapping and frame decoding\<close>

definition mapMeetingState :: "int \<Rightarrow> MeetingState" where
  "mapMeetingState s =
     (if s = 1 then ActiveMeetingState
      else if s = 2 then HostReconnecting
      else if s = 3 then Ended
      else if s = 4 then EngineBusy
      else ActiveMeetingState)"

definition mapHintUrgency :: "int \<Rightarrow> HintUrgency" where
  "mapHintUrgency u =
     (if u = 1 then LowUrgency else if u = 3 then HighUrgency else if u = 4 then UrgentUrgency
      else NormalUrgency)"

text \<open>\<open>...(s ? {f: s} : {})\<close>: the field is present when the string is not empty.\<close>

definition if_nonempty :: "jsstring \<Rightarrow> jsstring option" where
  "if_nonempty s = (if s = [] then None else Some s)"

type_synonym decode_error = jsstring

definition decodeBinaryFrame ::
  "('buf \<Rightarrow> decode_error + ProtoViewerEvent) \<Rightarrow> jsnum \<Rightarrow> 'buf \<Rightarrow> decode_error + ViewerEvent option" where
  "decodeBinaryFrame fromBinary date_now buf = bind_result (fromBinary buf) (\<lambda>proto.
     let emittedAtMs = timestampToMs date_now (pv_emittedAt proto);
         sequence = bigintToNumber (uint (pv_sequence proto))
     in case pv_payload proto of
          PayloadTranscript t \<Rightarrow> Inr (Some (VTranscript
            \<lparr>te_sequence = sequence, te_emittedAtMs = emittedAtMs,
             te_segmentId = bigintToNumber (uint (pt_segmentId t)),
             te_speakerLabel = pt_speakerLabel t, te_text = pt_text t, te_isFinal = pt_isFinal t,
             te_isQuestion = pt_isQuestion t\<rparr>))
        | PayloadHint h \<Rightarrow> Inr (Some (VHint
            \<lparr>he_sequence = sequence, he_emittedAtMs = emittedAtMs,
             he_hintId = bigintToNumber (uint (ph_hintId h)), he_suggestion = ph_suggestion h,
             he_rationale = if_nonempty (ph_rationale h), he_urgency = mapHintUrgency (ph_urgency h)\<rparr>))
        | PayloadStateChange s \<Rightarrow> Inr (Some (VState
            \<lparr>se_sequence = sequence, se_emittedAtMs = emittedAtMs,
             se_state = mapMeetingState (ps_state s), se_reason = if_nonempty (ps_reason s)\<rparr>))
        | PayloadUnset \<Rightarrow> Inr None)"

subsection \<open>Number lemmas\<close>

lemma round_double_exact:
  assumes "\<bar>v\<bar> < 2 ^ 53"
  shows "round_double v = v"
proof -
  from assms have "nat \<bar>v\<bar> < 2 ^ 53" by (simp add: nat_less_iff)
  then have "floorlog 2 (nat \<bar>v\<bar>) - 53 = 0" by (simp add: floorlog_leI)
  then show ?thesis by (simp add: round_double_def Let_def sgn_mult_abs)
qed

lemma bigintToNumber_exact: "- MAX_SAFE_INTEGER \<le> v \<Longrightarrow> v \<le> MAX_SAFE_INTEGER \<Longrightarrow> bigintToNumber v = v"
  by (simp add: bigintToNumber_def MAX_SAFE_INTEGER_def round_double_exact)

lemma bigintToNumber_nonneg: "0 \<le> v \<Longrightarrow> bigintToNumber v = min v MAX_SAFE_INTEGER"
  by (simp add: bigintToNumber_def MAX_SAFE_INTEGER_def round_double_exact min_def)

subsection \<open>Properties\<close>

text \<open>Identifiers keep their identity: an unsigned 64-bit id becomes a safe integer, equal to
  the id itself up to \<open>Number.MAX_SAFE_INTEGER\<close> and that bound above it, so two ids are confused
  only when both are out of the safe range.\<close>

lemma id_conversion:
  fixes i j :: "64 word"
  shows "bigintToNumber (uint i) = min (uint i) MAX_SAFE_INTEGER
    \<and> (bigintToNumber (uint i) = bigintToNumber (uint j)
       \<longleftrightarrow> i = j \<or> MAX_SAFE_INTEGER \<le> uint i \<and> MAX_SAFE_INTEGER \<le> uint j)"
proof -
  have "bigintToNumber (uint w) = min (uint w) MAX_SAFE_INTEGER" for w :: "64 word"
    by (simp add: bigintToNumber_nonneg)
  then show ?thesis by (auto simp: min_def word_uint_eq_iff)
qed

definition valid_timestamp :: "Timestamp \<Rightarrow> bool" where
  "valid_timestamp t \<longleftrightarrow> -62135596800 \<le> sint (ts_seconds t) \<and> sint (ts_seconds t) \<le> 253402300799
     \<and> 0 \<le> sint (ts_nanos t) \<and> sint (ts_nanos t) \<le> 999999999"

lemma timestampToMs_valid:
  assumes "valid_timestamp t"
  shows "timestampToMs now (Some t) = sint (ts_seconds t) * 1000 + sint (ts_nanos t) div 1000000"
proof -
  let ?s = "sint (ts_seconds t)" and ?ms = "sint (ts_nanos t) div 1000000"
  have s: "-62135596800 \<le> ?s" "?s \<le> 253402300799" and ms: "0 \<le> ?ms" "?ms \<le> 999"
    using assms by (auto simp: valid_timestamp_def)
  from s have "bigintToNumber ?s = ?s"
    by (intro bigintToNumber_exact) (simp_all add: MAX_SAFE_INTEGER_def)
  moreover from s have "round_double (?s * 1000) = ?s * 1000"
    by (intro round_double_exact) simp
  moreover from s ms have "\<bar>?s * 1000 + ?ms\<bar> < 9007199254740992"
    by linarith
  then have "round_double (?s * 1000 + ?ms) = ?s * 1000 + ?ms"
    by (intro round_double_exact) simp
  ultimately show ?thesis by (simp add: timestampToMs_def)
qed

text \<open>Within the range protobuf documents for a timestamp (years 1 to 9999, nanoseconds below a
  second) the conversion is exact, so the milliseconds order events as their timestamps do.\<close>

lemma timestamp_exact:
  assumes "valid_timestamp t" and "valid_timestamp u"
  shows "timestampToMs now (Some t) = sint (ts_seconds t) * 1000 + sint (ts_nanos t) div 1000000
    \<and> (sint (ts_seconds t) * 1000000000 + sint (ts_nanos t)
         \<le> sint (ts_seconds u) * 1000000000 + sint (ts_nanos u)
       \<longrightarrow> timestampToMs now (Some t) \<le> timestampToMs now (Some u))"
proof -
  have "(s * 1000000000 + n) div 1000000 = s * 1000 + n div 1000000" for s n :: int
    by simp
  then show ?thesis
    using assms by (metis timestampToMs_valid zdiv_mono1 zero_less_numeral)
qed

lemma timestamp_exact_witness:
  "timestampToMs 0 (Some \<lparr>ts_seconds = 1776729600, ts_nanos = 123456789\<rparr>) = 1776729600123"
proof -
  let ?t = "\<lparr>ts_seconds = 1776729600, ts_nanos = 123456789\<rparr> :: Timestamp"
  have "valid_timestamp ?t" by (simp add: valid_timestamp_def)
  from timestamp_exact [OF this this, of 0] show ?thesis by simp
qed

text \<open>The numbers of an event and of the frame it came from.\<close>

fun event_emittedAtMs :: "ViewerEvent \<Rightarrow> jsnum" where
  "event_emittedAtMs (VTranscript t) = te_emittedAtMs t"
| "event_emittedAtMs (VHint h) = he_emittedAtMs h"
| "event_emittedAtMs (VState s) = se_emittedAtMs s"

fun event_id :: "ViewerEvent \<Rightarrow> jsnum option" where
  "event_id (VTranscript t) = Some (te_segmentId t)"
| "event_id (VHint h) = Some (he_hintId h)"
| "event_id (VState s) = None"

fun wire_id :: "ProtoPayload \<Rightarrow> 64 word option" where
  "wire_id (PayloadTranscript t) = Some (pt_segmentId t)"
| "wire_id (PayloadHint h) = Some (ph_hintId h)"
| "wire_id _ = None"

lemma timestampToMs_range:
  assumes "valid_timestamp t"
  shows "- 62135596800000 \<le> timestampToMs now (Some t)" "timestampToMs now (Some t) \<le> 253402300799999"
proof -
  have "0 \<le> sint (ts_nanos t) div 1000000" "sint (ts_nanos t) div 1000000 \<le> 999"
    using assms by (auto simp: valid_timestamp_def)
  then show "- 62135596800000 \<le> timestampToMs now (Some t)" "timestampToMs now (Some t) \<le> 253402300799999"
    using assms by (auto simp: timestampToMs_valid valid_timestamp_def)
qed

lemma decoded_frame:
  assumes "decodeBinaryFrame fromBinary now buf = Inr (Some ev)"
  obtains proto where "fromBinary buf = Inr proto"
    "event_sequence ev = bigintToNumber (uint (pv_sequence proto))"
    "event_id ev = map_option (\<lambda>i. bigintToNumber (uint i)) (wire_id (pv_payload proto))"
    "event_emittedAtMs ev = timestampToMs now (pv_emittedAt proto)"
proof (cases "fromBinary buf")
  case (Inr proto)
  with assms show ?thesis
    by (cases "pv_payload proto") (auto simp: decodeBinaryFrame_def Let_def intro: that [OF Inr])
qed (use assms in \<open>simp add: decodeBinaryFrame_def\<close>)

text \<open>C31. The numbers of a decoded frame are in range: its sequence number and its segment or hint id
  are the 64-bit numbers of the frame cut at \<open>Number.MAX_SAFE_INTEGER\<close>, never negative and never
  rounded; and its time, if the frame has a timestamp in the range protobuf documents, is the exact
  millisecond, within the range a JavaScript date can hold.\<close>

theorem decode_bounds:
  assumes "decodeBinaryFrame fromBinary now buf = Inr (Some ev)"
  shows "\<exists>proto. fromBinary buf = Inr proto
    \<and> event_sequence ev = min (uint (pv_sequence proto)) MAX_SAFE_INTEGER
    \<and> event_id ev = map_option (\<lambda>i. min (uint i) MAX_SAFE_INTEGER) (wire_id (pv_payload proto))
    \<and> 0 \<le> event_sequence ev \<and> pred_option (\<lambda>i. 0 \<le> i) (event_id ev)
    \<and> (\<forall>t. pv_emittedAt proto = Some t \<and> valid_timestamp t \<longrightarrow>
         event_emittedAtMs ev = (sint (ts_seconds t) * 1000000000 + sint (ts_nanos t)) div 1000000
         \<and> - 8640000000000000 \<le> event_emittedAtMs ev \<and> event_emittedAtMs ev \<le> 8640000000000000)"
proof -
  obtain proto where d: "fromBinary buf = Inr proto"
    "event_sequence ev = bigintToNumber (uint (pv_sequence proto))"
    "event_id ev = map_option (\<lambda>i. bigintToNumber (uint i)) (wire_id (pv_payload proto))"
    "event_emittedAtMs ev = timestampToMs now (pv_emittedAt proto)"
    using decoded_frame [OF assms] .
  have "(s * 1000000000 + n) div 1000000 = s * 1000 + n div 1000000" for s n :: int by simp
  then have "event_emittedAtMs ev = (sint (ts_seconds t) * 1000000000 + sint (ts_nanos t)) div 1000000
      \<and> - 8640000000000000 \<le> event_emittedAtMs ev \<and> event_emittedAtMs ev \<le> 8640000000000000"
    if "pv_emittedAt proto = Some t" "valid_timestamp t" for t
    using that timestampToMs_range [of t now] by (simp add: d(4) timestampToMs_valid)
  then show ?thesis
    by (intro exI [of _ proto]) (auto simp: d(1-3) bigintToNumber_nonneg MAX_SAFE_INTEGER_def option.pred_set)
qed

theorem decode_bounds_witness:
  "event_sequence (VState \<lparr>se_sequence = MAX_SAFE_INTEGER, se_emittedAtMs = 1776729600123, se_state = Ended, se_reason = None\<rparr>)
     = min (uint (18446744073709551615 :: 64 word)) MAX_SAFE_INTEGER"
proof -
  let ?proto = "\<lparr>pv_sequence = 18446744073709551615, pv_emittedAt = Some \<lparr>ts_seconds = 1776729600, ts_nanos = 123456789\<rparr>,
    pv_payload = PayloadStateChange \<lparr>ps_state = 3, ps_reason = []\<rparr>\<rparr>"
  let ?ev = "VState \<lparr>se_sequence = MAX_SAFE_INTEGER, se_emittedAtMs = 1776729600123, se_state = Ended, se_reason = None\<rparr>"
  have "valid_timestamp \<lparr>ts_seconds = 1776729600, ts_nanos = 123456789\<rparr>" by (simp add: valid_timestamp_def)
  then have "decodeBinaryFrame (\<lambda>_. Inr ?proto) 0 () = Inr (Some ?ev)"
    by (simp add: decodeBinaryFrame_def timestampToMs_valid mapMeetingState_def if_nonempty_def bigintToNumber_nonneg
        MAX_SAFE_INTEGER_def)
  from decode_bounds [OF this] show ?thesis by auto
qed

end
