(* ===== verification/Config.thy ===== *)
theory Config
  imports Js_String
begin

section \<open>Runtime configuration (lib/config.ts)\<close>

text \<open>
  \<open>normalize\<close> turns the served \<open>/config.json\<close>, with the build-time environment as fallback, into the
  \<open>AppConfig\<close> every module reads; \<open>loadConfig\<close> fetches it and \<open>getConfig\<close> hands out the cached value.
  The environment (\<open>import.meta.env\<close>) and the page's location are parameters. Absent and null fields
  are \<open>None\<close>: the code only reads them through \<open>??\<close> and truthiness tests, which do not tell the two
  apart.
\<close>

datatype DeployMode = LocalMode | CloudMode

record CognitoConfig =
  cc_authority :: jsstring
  cc_clientId :: jsstring
  cc_redirectUri :: jsstring
  cc_logoutUri :: "jsstring option"

record AppConfig =
  deployMode :: DeployMode
  gatewayEndpoint :: jsstring
  cognito :: "CognitoConfig option"

record RawCognito =
  raw_authority :: "jsstring option"
  raw_clientId :: "jsstring option"
  raw_redirectUri :: "jsstring option"
  raw_logoutUri :: "jsstring option"

record RawConfig =
  raw_deployMode :: "jsstring option"
  raw_gatewayEndpoint :: "jsstring option"
  raw_cognito :: "RawCognito option"

definition empty_cognito :: RawCognito where
  "empty_cognito = \<lparr>raw_authority = None, raw_clientId = None, raw_redirectUri = None, raw_logoutUri = None\<rparr>"

definition empty_raw :: RawConfig where
  "empty_raw = \<lparr>raw_deployMode = None, raw_gatewayEndpoint = None, raw_cognito = None\<rparr>"

text \<open>\<open>window.location\<close>, or \<open>None\<close> where there is no window.\<close>

record location =
  loc_protocol :: jsstring
  loc_hostname :: jsstring
  loc_port :: jsstring
  loc_origin :: jsstring

definition defaultGatewayEndpoint :: "location option \<Rightarrow> jsstring" where
  "defaultGatewayEndpoint win = (case win of
     None \<Rightarrow> lit ''http://localhost:8080''
   | Some l \<Rightarrow> loc_protocol l @ lit ''//'' @ loc_hostname l @ lit '':8080'')"

text \<open>\<open>import.meta.env\<close> maps a key to a string, or to something else or nothing (\<open>None\<close>).\<close>

type_synonym env = "string \<Rightarrow> jsstring option"

definition envStr :: "env \<Rightarrow> string \<Rightarrow> jsstring option" where
  "envStr e key = (case e key of Some v \<Rightarrow> if v \<noteq> [] then Some v else None | None \<Rightarrow> None)"

definition truthy :: "jsstring option \<Rightarrow> bool" where
  "truthy v \<longleftrightarrow> v \<noteq> None \<and> v \<noteq> Some []"

datatype config_error = MissingCognito | NotLoaded | RawNotObject

definition normalize :: "env \<Rightarrow> location option \<Rightarrow> RawConfig \<Rightarrow> config_error + AppConfig" where
  "normalize e win raw =
     (let mode = (if coalesce (coalesce (raw_deployMode raw) (envStr e ''VITE_AEGIS_DEPLOY_MODE''))
                       (Some (lit ''local'')) = Some (lit ''cloud'') then CloudMode else LocalMode);
          endpoint = (case coalesce (raw_gatewayEndpoint raw) (envStr e ''VITE_AEGIS_GATEWAY_ENDPOINT'') of
                        Some v \<Rightarrow> v | None \<Rightarrow> defaultGatewayEndpoint win)
      in if mode = CloudMode then
           let c = (case raw_cognito raw of Some c \<Rightarrow> c | None \<Rightarrow> empty_cognito);
               authority = coalesce (raw_authority c) (envStr e ''VITE_AEGIS_COGNITO_AUTHORITY'');
               clientId = coalesce (raw_clientId c) (envStr e ''VITE_AEGIS_COGNITO_CLIENT_ID'');
               redirectUri = coalesce (raw_redirectUri c) (envStr e ''VITE_AEGIS_COGNITO_REDIRECT_URI'');
               logoutUri = coalesce (raw_logoutUri c) (envStr e ''VITE_AEGIS_COGNITO_LOGOUT_URI'')
           in if \<not> truthy authority \<or> \<not> truthy clientId \<or> \<not> truthy redirectUri then Inl MissingCognito
              else Inr \<lparr>deployMode = mode, gatewayEndpoint = endpoint,
                     cognito = Some \<lparr>cc_authority = the authority, cc_clientId = the clientId,
                       cc_redirectUri = the redirectUri,
                       cc_logoutUri = (if truthy logoutUri then logoutUri else None)\<rparr>\<rparr>
         else Inr \<lparr>deployMode = mode, gatewayEndpoint = endpoint, cognito = None\<rparr>)"

text \<open>What \<open>fetch("/config.json")\<close> gives: a network failure, a status that is not OK, a body that is
  not JSON, a JSON \<open>null\<close>, or an object.\<close>

datatype fetch_result = FetchRejected | FetchNotOk | FetchBadJson | FetchNull | FetchOk RawConfig

text \<open>\<open>loadConfig\<close> returns the new cache, or the exception that leaves the cache as it was. A JSON
  \<open>null\<close> body passes the \<open>try\<close> and makes \<open>normalize\<close> throw on its first field access.\<close>

definition loadConfig ::
  "env \<Rightarrow> location option \<Rightarrow> fetch_result \<Rightarrow> AppConfig option \<Rightarrow> (config_error + AppConfig) \<times> AppConfig option" where
  "loadConfig e win fetched cached =
     (let result = (case fetched of
          FetchOk raw \<Rightarrow> normalize e win raw
        | FetchNull \<Rightarrow> Inl RawNotObject
        | _ \<Rightarrow> normalize e win empty_raw)
      in (result, case result of Inr cfg \<Rightarrow> Some cfg | Inl _ \<Rightarrow> cached))"

definition getConfig :: "AppConfig option \<Rightarrow> config_error + AppConfig" where
  "getConfig cached = (case cached of None \<Rightarrow> Inl NotLoaded | Some cfg \<Rightarrow> Inr cfg)"

subsection \<open>Properties\<close>

text \<open>A configuration the rest of the application can rely on: Cloud mode has usable Cognito settings
  and Local mode has none.\<close>

definition config_ok :: "AppConfig \<Rightarrow> bool" where
  "config_ok cfg \<longleftrightarrow> (deployMode cfg = CloudMode) = (cognito cfg \<noteq> None)
     \<and> (case cognito cfg of None \<Rightarrow> True
        | Some c \<Rightarrow> cc_authority c \<noteq> [] \<and> cc_clientId c \<noteq> [] \<and> cc_redirectUri c \<noteq> []
            \<and> cc_logoutUri c \<noteq> Some [])"

lemma truthy_Some: "truthy v \<longleftrightarrow> (\<exists>s. v = Some s \<and> s \<noteq> [])"
  by (cases v) (auto simp: truthy_def)

lemma normalize_ok: "normalize e win raw = Inr cfg \<Longrightarrow> config_ok cfg"
  by (auto simp: normalize_def Let_def config_ok_def truthy_Some split: if_splits)

text \<open>C38. Whatever \<open>/config.json\<close> and the environment hold, the configuration that \<open>loadConfig\<close>
  caches is well formed, and after a successful load \<open>getConfig\<close> returns exactly the loaded value;
  a failed load leaves the cache unchanged.\<close>

theorem loadConfig_ok:
  "case loadConfig e win fetched cached of
     (Inr cfg, cache) \<Rightarrow> config_ok cfg \<and> cache = Some cfg \<and> getConfig cache = Inr cfg
   | (Inl err, cache) \<Rightarrow> cache = cached \<and> (err = MissingCognito \<or> err = RawNotObject)"
proof -
  have err: "normalize e win raw = Inl err \<Longrightarrow> err = MissingCognito" for raw err
    by (auto simp: normalize_def Let_def split: if_splits)
  show ?thesis
    by (auto simp: loadConfig_def Let_def getConfig_def split: fetch_result.splits sum.splits
        dest: normalize_ok err)
qed

lemma local_not_cloud: "lit ''local'' \<noteq> lit ''cloud''"
  by (simp add: js_eval)

lemma envStr_Some: "s \<noteq> [] \<Longrightarrow> envStr e k = Some s \<longleftrightarrow> e k = Some s"
  by (auto simp: envStr_def split: option.splits)

lemma normalize_mode:
  "normalize e win raw = Inr cfg \<Longrightarrow> (deployMode cfg = CloudMode) =
     (coalesce (coalesce (raw_deployMode raw) (envStr e ''VITE_AEGIS_DEPLOY_MODE'')) (Some (lit ''local''))
      = Some (lit ''cloud''))"
  unfolding normalize_def Let_def by (auto split: if_split_asm)

lemma mode_precedence:
  "(coalesce (coalesce m (envStr e k)) (Some (lit ''local'')) = Some (lit ''cloud'')) =
     (case m of Some v \<Rightarrow> v = lit ''cloud'' | None \<Rightarrow> e k = Some (lit ''cloud''))"
  by (cases m; cases "envStr e k") (auto simp: local_not_cloud envStr_Some [symmetric])

text \<open>The fallback order of the deploy mode: the served value wins even when it is the empty
  string or unknown (both mean Local mode), the environment is asked only when nothing was served,
  and Local mode is the default; a network failure, an error status and an unparsable body all give
  the environment's configuration.\<close>

lemma deploy_mode_precedence:
  "(normalize e win raw = Inr cfg \<longrightarrow>
      (deployMode cfg = CloudMode) = (case raw_deployMode raw of
         Some m \<Rightarrow> m = lit ''cloud''
       | None \<Rightarrow> e ''VITE_AEGIS_DEPLOY_MODE'' = Some (lit ''cloud'')))
   \<and> list_all (\<lambda>f. loadConfig e win f cached = loadConfig e win (FetchOk empty_raw) cached)
       [FetchRejected, FetchNotOk, FetchBadJson]"
  by (simp add: normalize_mode mode_precedence loadConfig_def)

lemma deploy_mode_precedence_witness:
  "normalize (\<lambda>k. if k = ''VITE_AEGIS_DEPLOY_MODE'' then Some (lit ''cloud'') else None) None
     (empty_raw\<lparr>raw_deployMode := Some []\<rparr>)
   = Inr \<lparr>deployMode = LocalMode, gatewayEndpoint = lit ''http://localhost:8080'', cognito = None\<rparr>"
proof -
  let ?e = "\<lambda>k. if k = ''VITE_AEGIS_DEPLOY_MODE'' then Some (lit ''cloud'') else None"
  let ?r = "empty_raw\<lparr>raw_deployMode := Some []\<rparr>"
  have "deployMode cfg \<noteq> CloudMode" if "normalize ?e None ?r = Inr cfg" for cfg
    using deploy_mode_precedence [of ?e None ?r cfg undefined] that by (simp add: js_eval)
  moreover have "\<exists>cfg. normalize ?e None ?r = Inr cfg"
    by (simp add: normalize_def Let_def js_eval)
  ultimately show ?thesis
    by (auto simp: normalize_def Let_def empty_raw_def envStr_def defaultGatewayEndpoint_def js_eval
        split: if_splits)
qed

end
