(* ===== verification/Transcript_Stream.thy ===== *)
theory Transcript_Stream
  imports Viewer_Event Config
begin

section \<open>Transcript transports (providers/TranscriptStreamProvider)\<close>

text \<open>
  The two implementations of \<open>TranscriptStreamProvider\<close>: the Local-mode WebSocket transport and the
  Cloud-mode gRPC-Web stub, with the factory that picks one. A subscription is a machine whose steps
  are what the platform does (deliver a frame, close the socket, run a microtask) and the caller's
  \<open>unsubscribe\<close>; its log lists the callbacks made. The locale \<open>subscription\<close> states the contract both
  implementations share, and each is an interpretation of it.
\<close>

record JoinRequest =
  jr_sessionId :: jsstring
  jr_viewerToken :: jsstring

datatype callback = OnEvent ViewerEvent | OnError jsstring | OnClose jsstring

fun events_of :: "callback list \<Rightarrow> ViewerEvent list" where
  "events_of [] = []"
| "events_of (OnEvent e # cs) = e # events_of cs"
| "events_of (_ # cs) = events_of cs"

fun closes_of :: "callback list \<Rightarrow> jsstring list" where
  "closes_of [] = []"
| "closes_of (OnClose r # cs) = r # closes_of cs"
| "closes_of (_ # cs) = closes_of cs"

lemma events_of_append [simp]: "events_of (xs @ ys) = events_of xs @ events_of ys"
  by (induction xs rule: events_of.induct) auto

lemma closes_of_append [simp]: "closes_of (xs @ ys) = closes_of xs @ closes_of ys"
  by (induction xs rule: closes_of.induct) auto

subsection \<open>The contract of a subscription\<close>

text \<open>
  Relative to an invariant of the machine, unsubscribing ends the subscription; an ended
  subscription delivers no further event and no close notification whatever the platform does,
  ending it again changes nothing; and a subscription reports its close at most once.
\<close>

locale subscription = machine stp start ok
  for stp :: "'e \<Rightarrow> 's \<Rightarrow> 's" and start :: "'s \<Rightarrow> bool" and ok :: "'s \<Rightarrow> bool" +
  fixes unsub :: "'s \<Rightarrow> 's" and log :: "'s \<Rightarrow> callback list" and over :: "'s \<Rightarrow> bool"
  assumes ok_unsub: "ok s \<Longrightarrow> ok (unsub s)"
    and over_unsub: "ok s \<Longrightarrow> over (unsub s)"
    and unsub_over: "ok s \<Longrightarrow> over s \<Longrightarrow> unsub s = s"
    and over_step: "ok s \<Longrightarrow> over s \<Longrightarrow> over (stp e s)"
    and over_quiet: "ok s \<Longrightarrow> over s \<Longrightarrow>
      events_of (log (stp e s)) = events_of (log s) \<and> closes_of (log (stp e s)) = closes_of (log s)"
    and close_once: "ok s \<Longrightarrow> length (closes_of (log s)) \<le> 1"
begin

lemma over_run:
  "ok s \<Longrightarrow> over s \<Longrightarrow> over (run stp es s) \<and> events_of (log (run stp es s)) = events_of (log s)
    \<and> closes_of (log (run stp es s)) = closes_of (log s)"
  by (induction es arbitrary: s) (auto simp: over_step over_quiet step_inv)

lemma quiet_after_unsub:
  assumes "ok s"
  shows "events_of (log (run stp es (unsub s))) = events_of (log (unsub s))
    \<and> closes_of (log (run stp es (unsub s))) = closes_of (log (unsub s))
    \<and> unsub (run stp es (unsub s)) = run stp es (unsub s)"
  using over_run [OF ok_unsub over_unsub, OF assms assms] run_inv [OF ok_unsub [OF assms]]
  by (simp add: unsub_over)

lemma closes_bounded: "ok s \<Longrightarrow> length (closes_of (log (run stp es s))) \<le> 1"
  by (rule close_once [OF run_inv])

end

subsection \<open>WebSocket transport: the URL\<close>

record WebSocketConfig =
  ws_endpoint :: jsstring

text \<open>\<open>.replace(/^http/, "ws")\<close> and \<open>.replace(/\/$/, "")\<close>.\<close>

definition http_to_ws :: "jsstring \<Rightarrow> jsstring" where
  "http_to_ws s = (if take 4 s = lit ''http'' then lit ''ws'' @ drop 4 s else s)"

definition drop_final_slash :: "jsstring \<Rightarrow> jsstring" where
  "drop_final_slash s = (if s \<noteq> [] \<and> last s = 0x2F then butlast s else s)"

definition buildWebSocketUrl :: "WebSocketConfig \<Rightarrow> JoinRequest \<Rightarrow> uri_error + jsstring" where
  "buildWebSocketUrl cfg req =
     (let base = drop_final_slash (http_to_ws (ws_endpoint cfg)) in
      bind_result (encodeURIComponent (jr_sessionId req)) (\<lambda>sid.
      bind_result (encodeURIComponent (jr_viewerToken req)) (\<lambda>token.
      Inr (base @ lit ''/ws/viewer?session_id='' @ sid @ lit ''&token='' @ token))))"

text \<open>How the gateway reads the query back: split at the question mark, the ampersands and the
  equals signs, and decode each value.\<close>

fun split_on :: "'a \<Rightarrow> 'a list \<Rightarrow> 'a list list" where
  "split_on c [] = [[]]"
| "split_on c (x # xs) = (if x = c then [] # split_on c xs
     else case split_on c xs of [] \<Rightarrow> [[x]] | y # ys \<Rightarrow> (x # y) # ys)"

lemma split_on_absent: "c \<notin> set xs \<Longrightarrow> split_on c xs = [xs]"
  by (induction xs) auto

lemma split_on_append: "c \<notin> set xs \<Longrightarrow> split_on c (xs @ c # ys) = xs # split_on c ys"
  by (induction xs) auto

definition query_pair :: "jsstring \<Rightarrow> jsstring \<times> jsstring" where
  "query_pair s = (takeWhile (\<lambda>c. c \<noteq> 0x3D) s, decode_component (tl (dropWhile (\<lambda>c. c \<noteq> 0x3D) s)))"

definition query_params :: "jsstring \<Rightarrow> (jsstring \<times> jsstring) list" where
  "query_params url = map query_pair (split_on 0x26 (tl (dropWhile (\<lambda>c. c \<noteq> 0x3F) url)))"

lemma uri_safe_no_delim: "uri_safe c \<Longrightarrow> c \<noteq> 0x26 \<and> c \<noteq> 0x3D \<and> c \<noteq> 0x3F \<and> c \<noteq> 0x23 \<and> c \<noteq> 0x2F"
  by (auto simp: uri_safe_def uri_unreserved_def)

lemma query_pair_append:
  assumes "0x3D \<notin> set k" and "encodeURIComponent v = Inr u"
  shows "query_pair (k @ 0x3D # u) = (k, v)"
  using assms
  by (simp add: query_pair_def takeWhile_until dropWhile_until decode_encodeURIComponent)

lemma encoded_pair_no_amp:
  assumes "0x26 \<notin> set k" and "encodeURIComponent v = Inr u"
  shows "0x26 \<notin> set (k @ 0x3D # u)"
  using assms encodeURIComponent_safe [OF assms(2)] uri_safe_no_delim by fastforce

lemma query_params_two:
  assumes "0x3F \<notin> set base"
    and "0x3D \<notin> set k1" and "0x26 \<notin> set k1" and "0x3D \<notin> set k2" and "0x26 \<notin> set k2"
    and "encodeURIComponent v1 = Inr u1" and "encodeURIComponent v2 = Inr u2"
  shows "query_params (base @ 0x3F # (k1 @ 0x3D # u1) @ 0x26 # (k2 @ 0x3D # u2)) = [(k1, v1), (k2, v2)]"
proof -
  define a b where "a = k1 @ 0x3D # u1" and "b = k2 @ 0x3D # u2"
  have "0x26 \<notin> set a" "0x26 \<notin> set b"
    unfolding a_def b_def using assms encoded_pair_no_amp by blast+
  moreover have "query_pair a = (k1, v1)" "query_pair b = (k2, v2)"
    unfolding a_def b_def using assms query_pair_append by blast+
  ultimately have "query_params (base @ 0x3F # a @ 0x26 # b) = [(k1, v1), (k2, v2)]"
    using assms(1) by (simp add: query_params_def dropWhile_until split_on_append split_on_absent)
  then show ?thesis unfolding a_def b_def .
qed

lemma question_free_base: "0x3F \<notin> set e \<Longrightarrow> 0x3F \<notin> set (drop_final_slash (http_to_ws e))"
  by (auto simp: drop_final_slash_def http_to_ws_def js_eval dest: in_set_dropD in_set_butlastD)

subsection \<open>WebSocket transport: the subscription\<close>

datatype frame = BinaryFrame "8 word list" | TextFrame jsstring | OtherFrame

datatype ready_state = CONNECTING | OPEN | CLOSING | CLOSED

record ws_subscription =
  ws_closed :: bool
  ws_ready :: ready_state
  ws_url :: jsstring
  ws_close_calls :: "(nat \<times> jsstring) list"
  ws_log :: "callback list"

text \<open>\<open>new WebSocket(url)\<close> throws on a URL it cannot parse: \<open>reject\<close> gives the message, if any.\<close>

datatype subscribe_error = SubscribeURIError | SocketError jsstring

definition ws_subscribe ::
  "(jsstring \<Rightarrow> jsstring option) \<Rightarrow> WebSocketConfig \<Rightarrow> JoinRequest \<Rightarrow> subscribe_error + ws_subscription" where
  "ws_subscribe reject cfg request = (case buildWebSocketUrl cfg request of
     Inl _ \<Rightarrow> Inl SubscribeURIError
   | Inr url \<Rightarrow> (case reject url of
       Some msg \<Rightarrow> Inl (SocketError msg)
     | None \<Rightarrow> Inr \<lparr>ws_closed = False, ws_ready = CONNECTING, ws_url = url, ws_close_calls = [],
                    ws_log = []\<rparr>))"

definition emit :: "callback \<Rightarrow> ws_subscription \<Rightarrow> ws_subscription" where
  "emit c s = s\<lparr>ws_log := ws_log s @ [c]\<rparr>"

definition onmessage ::
  "(8 word list \<Rightarrow> decode_error + ProtoViewerEvent) \<Rightarrow> jsnum \<Rightarrow> frame \<Rightarrow> ws_subscription \<Rightarrow> ws_subscription" where
  "onmessage fromBinary date_now data s = (case data of
     BinaryFrame buf \<Rightarrow>
       (case decodeBinaryFrame fromBinary date_now buf of
          Inl err \<Rightarrow> emit (OnError (lit ''failed to decode ViewerEvent binary frame: '' @ err)) s
        | Inr None \<Rightarrow> s
        | Inr (Some event) \<Rightarrow> emit (OnEvent event) s)
   | TextFrame t \<Rightarrow>
       emit (OnError (lit ''unexpected text frame on Local-mode WS (expected binary ViewerEvent): ''
         @ take 80 t)) s
   | OtherFrame \<Rightarrow> s)"

definition onerror :: "ws_subscription \<Rightarrow> ws_subscription" where
  "onerror s = emit (OnError (lit ''WebSocket error (Local mode transport)'')) s"

definition onclose :: "int \<Rightarrow> jsstring \<Rightarrow> ws_subscription \<Rightarrow> ws_subscription" where
  "onclose code reason s =
     (if ws_closed s then s
      else emit (OnClose (lit ''ws closed code='' @ num_string code @ lit '' reason=''
             @ (if reason = [] then lit ''(none)'' else reason)))
           (s\<lparr>ws_closed := True\<rparr>))"

text \<open>\<open>ws.close(1000, ...)\<close>: a no-op on a closing or closed socket, otherwise the closing handshake
  starts (or, while connecting, the connection is failed).\<close>

definition socket_close :: "nat \<Rightarrow> jsstring \<Rightarrow> ws_subscription \<Rightarrow> ws_subscription" where
  "socket_close code reason s = s\<lparr>ws_close_calls := ws_close_calls s @ [(code, reason)],
     ws_ready := (if ws_ready s \<in> {CLOSING, CLOSED} then ws_ready s else CLOSING)\<rparr>"

definition ws_unsubscribe :: "ws_subscription \<Rightarrow> ws_subscription" where
  "ws_unsubscribe s =
     (if ws_closed s then s else socket_close 1000 (lit ''unsubscribed'') (s\<lparr>ws_closed := True\<rparr>))"

text \<open>What the platform does to the socket (WHATWG WebSockets): a message is fired only while the
  ready state is OPEN; when the connection is closed the state becomes CLOSED, an error event
  precedes the close event if the connection failed, and nothing follows.\<close>

datatype ws_event =
    WsOpened
  | WsMessage jsnum frame
  | WsClosed bool int jsstring
  | WsUnsubscribe

fun ws_step ::
  "(8 word list \<Rightarrow> decode_error + ProtoViewerEvent) \<Rightarrow> ws_event \<Rightarrow> ws_subscription \<Rightarrow> ws_subscription" where
  "ws_step fb WsOpened s = (if ws_ready s = CONNECTING then s\<lparr>ws_ready := OPEN\<rparr> else s)"
| "ws_step fb (WsMessage date_now data) s =
     (if ws_ready s = OPEN then onmessage fb date_now data s else s)"
| "ws_step fb (WsClosed failed code reason) s =
     (if ws_ready s = CLOSED then s
      else let s1 = s\<lparr>ws_ready := CLOSED\<rparr>; s2 = (if failed then onerror s1 else s1)
           in onclose code reason s2)"
| "ws_step fb WsUnsubscribe s = ws_unsubscribe s"

definition ws_ok :: "ws_subscription \<Rightarrow> bool" where
  "ws_ok s \<longleftrightarrow> (ws_closed s \<longrightarrow> ws_ready s \<in> {CLOSING, CLOSED})
     \<and> (\<not> ws_closed s \<longrightarrow> ws_ready s \<in> {CONNECTING, OPEN} \<and> ws_close_calls s = [])
     \<and> length (closes_of (ws_log s)) + length (ws_close_calls s) = (if ws_closed s then 1 else 0)"

lemmas ws_defs = emit_def onmessage_def onerror_def onclose_def socket_close_def ws_unsubscribe_def

lemma onmessage_frame:
  "ws_closed (onmessage fb t d s) = ws_closed s \<and> ws_ready (onmessage fb t d s) = ws_ready s
   \<and> ws_close_calls (onmessage fb t d s) = ws_close_calls s
   \<and> closes_of (ws_log (onmessage fb t d s)) = closes_of (ws_log s)"
  by (auto simp: onmessage_def emit_def split: frame.splits sum.splits option.splits)

lemma ws_step_ok: "ws_ok s \<Longrightarrow> ws_ok (ws_step fb e s)"
  by (cases e) (auto simp: ws_ok_def onmessage_frame ws_defs(1,3-6) Let_def split: if_splits)

lemma ws_unsubscribe_ok: "ws_ok s \<Longrightarrow> ws_ok (ws_unsubscribe s)"
  using ws_step_ok [of s undefined WsUnsubscribe] by simp

lemma ws_step_over:
  assumes "ws_ok s" and "ws_closed s"
  shows "ws_closed (ws_step fb e s) \<and> events_of (ws_log (ws_step fb e s)) = events_of (ws_log s)
    \<and> closes_of (ws_log (ws_step fb e s)) = closes_of (ws_log s)"
  using assms by (cases e) (auto simp: ws_ok_def ws_defs(1,3-6) Let_def)

definition ws_started :: "ws_subscription \<Rightarrow> bool" where
  "ws_started s \<longleftrightarrow> (\<exists>reject cfg request. ws_subscribe reject cfg request = Inr s)"

lemma ws_subscribe_Inr:
  "ws_subscribe reject cfg request = Inr s \<Longrightarrow>
   \<exists>url. buildWebSocketUrl cfg request = Inr url \<and> s = \<lparr>ws_closed = False, ws_ready = CONNECTING,
     ws_url = url, ws_close_calls = [], ws_log = []\<rparr>"
  by (cases "buildWebSocketUrl cfg request") (auto simp: ws_subscribe_def split: option.splits)

lemma ws_started_ok: "ws_started s \<Longrightarrow> ws_ok s"
  by (auto simp: ws_started_def ws_ok_def dest!: ws_subscribe_Inr)

interpretation websocket: subscription "ws_step fb" ws_started ws_ok ws_unsubscribe ws_log ws_closed for fb
proof unfold_locales
  fix s :: ws_subscription
  assume ok: "ws_ok s"
  show "ws_ok (ws_unsubscribe s)" by (rule ws_unsubscribe_ok [OF ok])
  show "ws_closed (ws_unsubscribe s)" by (simp add: ws_unsubscribe_def socket_close_def)
  show "length (closes_of (ws_log s)) \<le> 1" using ok by (auto simp: ws_ok_def split: if_splits)
qed (auto simp: ws_started_ok ws_step_ok ws_step_over ws_unsubscribe_def)

subsection \<open>gRPC-Web transport (the Cloud-mode stub)\<close>

record grpc_subscription =
  gw_endpoint :: jsstring
  gw_cancelled :: bool
  gw_microtask :: bool
  gw_log :: "callback list"

definition grpc_subscribe :: "jsstring \<Rightarrow> grpc_subscription" where
  "grpc_subscribe endpoint =
     \<lparr>gw_endpoint = endpoint, gw_cancelled = False, gw_microtask = True, gw_log = []\<rparr>"

definition grpc_stub_event :: "jsstring \<Rightarrow> jsnum \<Rightarrow> ViewerEvent" where
  "grpc_stub_event endpoint date_now = VState
     \<lparr>se_sequence = 0, se_emittedAtMs = date_now, se_state = HostReconnecting,
      se_reason = Some (lit ''stub transport (Cloud endpoint '' @ endpoint
        @ lit ''); Phase 2 wires the real gRPC-Web channel'')\<rparr>"

definition grpc_microtask :: "jsnum \<Rightarrow> grpc_subscription \<Rightarrow> grpc_subscription" where
  "grpc_microtask date_now s =
     (if gw_cancelled s then s
      else s\<lparr>gw_log := gw_log s @ [OnEvent (grpc_stub_event (gw_endpoint s) date_now)]\<rparr>)"

definition grpc_unsubscribe :: "grpc_subscription \<Rightarrow> grpc_subscription" where
  "grpc_unsubscribe s =
     (if gw_cancelled s then s
      else s\<lparr>gw_cancelled := True, gw_log := gw_log s @ [OnClose (lit ''unsubscribed'')]\<rparr>)"

text \<open>The queued microtask runs once.\<close>

datatype grpc_event = RunMicrotask jsnum | GrpcUnsubscribe

fun grpc_step :: "grpc_event \<Rightarrow> grpc_subscription \<Rightarrow> grpc_subscription" where
  "grpc_step (RunMicrotask date_now) s =
     (if gw_microtask s then grpc_microtask date_now (s\<lparr>gw_microtask := False\<rparr>) else s)"
| "grpc_step GrpcUnsubscribe s = grpc_unsubscribe s"

definition grpc_ok :: "grpc_subscription \<Rightarrow> bool" where
  "grpc_ok s \<longleftrightarrow> length (closes_of (gw_log s)) = (if gw_cancelled s then 1 else 0)
     \<and> length (events_of (gw_log s)) \<le> (if gw_microtask s then 0 else 1)"

interpretation grpc: subscription grpc_step "\<lambda>s. \<exists>endpoint. s = grpc_subscribe endpoint" grpc_ok
  grpc_unsubscribe gw_log gw_cancelled
proof unfold_locales
  fix s e
  assume "grpc_ok s"
  then show "grpc_ok (grpc_step e s)"
    by (cases e) (auto simp: grpc_ok_def grpc_microtask_def grpc_unsubscribe_def split: if_splits)
next
  fix s e
  assume "grpc_ok s" and "gw_cancelled s"
  then show "gw_cancelled (grpc_step e s)"
    by (cases e) (auto simp: grpc_microtask_def grpc_unsubscribe_def)
next
  fix s e
  assume "grpc_ok s" and "gw_cancelled s"
  then show "events_of (gw_log (grpc_step e s)) = events_of (gw_log s)
      \<and> closes_of (gw_log (grpc_step e s)) = closes_of (gw_log s)"
    by (cases e) (auto simp: grpc_microtask_def grpc_unsubscribe_def)
qed (auto simp: grpc_ok_def grpc_subscribe_def grpc_unsubscribe_def split: if_splits)

subsection \<open>Picking a transport\<close>

datatype TranscriptStreamProvider =
    GrpcWebTranscriptStreamProvider jsstring
  | WebSocketTranscriptStreamProvider WebSocketConfig

fun pickTranscriptStreamProvider :: "DeployMode \<Rightarrow> jsstring \<Rightarrow> TranscriptStreamProvider" where
  "pickTranscriptStreamProvider CloudMode endpoint = GrpcWebTranscriptStreamProvider endpoint"
| "pickTranscriptStreamProvider LocalMode endpoint = WebSocketTranscriptStreamProvider \<lparr>ws_endpoint = endpoint\<rparr>"

subsection \<open>Properties\<close>

text \<open>Both values encoded, the URL's query reads back as the two values.\<close>

lemma ws_url_params:
  assumes "0x3F \<notin> set (ws_endpoint cfg)" and sid: "encodeURIComponent (jr_sessionId req) = Inr sid"
    and tok: "encodeURIComponent (jr_viewerToken req) = Inr tok"
  shows "\<exists>url. buildWebSocketUrl cfg req = Inr url
    \<and> query_params url = [(lit ''session_id'', jr_sessionId req), (lit ''token'', jr_viewerToken req)]"
proof -
  let ?base = "drop_final_slash (http_to_ws (ws_endpoint cfg)) @ lit ''/ws/viewer''"
  let ?a = "lit ''session_id'' @ 0x3D # sid" and ?b = "lit ''token'' @ 0x3D # tok"
  have "buildWebSocketUrl cfg req = Inr (?base @ 0x3F # ?a @ 0x26 # ?b)"
    using sid tok by (simp add: buildWebSocketUrl_def Let_def js_eval)
  moreover have "0x3F \<notin> set ?base"
    using question_free_base [OF assms(1)] by (simp add: js_eval)
  moreover have "0x3D \<notin> set (lit ''session_id'')" "0x26 \<notin> set (lit ''session_id'')"
    "0x3D \<notin> set (lit ''token'')" "0x26 \<notin> set (lit ''token'')"
    by (simp_all add: js_eval)
  then have "0x3F \<notin> set ?base \<Longrightarrow> query_params (?base @ 0x3F # ?a @ 0x26 # ?b)
      = [(lit ''session_id'', jr_sessionId req), (lit ''token'', jr_viewerToken req)]"
    using sid tok by (rule query_params_two [rotated 1])
  ultimately show ?thesis by blast
qed

text \<open>C32. The WebSocket URL carries the session id and the token intact: for well-formed strings the
  URL exists, its query has exactly these two parameters, and reading it back yields the original
  values whatever characters they contain; a lone surrogate makes \<open>subscribe\<close> throw instead.\<close>

theorem ws_url_roundtrip:
  assumes "0x3F \<notin> set (ws_endpoint cfg)"
  shows "case buildWebSocketUrl cfg req of
      Inr url \<Rightarrow> well_formed (jr_sessionId req) \<and> well_formed (jr_viewerToken req)
        \<and> query_params url = [(lit ''session_id'', jr_sessionId req), (lit ''token'', jr_viewerToken req)]
    | Inl _ \<Rightarrow> \<not> well_formed (jr_sessionId req) \<or> \<not> well_formed (jr_viewerToken req)"
proof (cases "encodeURIComponent (jr_sessionId req)")
  case (Inl e)
  then have "\<not> well_formed (jr_sessionId req)"
    using encodeURIComponent_total_iff [of "jr_sessionId req"] by simp
  with Inl show ?thesis by (simp add: buildWebSocketUrl_def Let_def)
next
  case sid: (Inr sid)
  show ?thesis
  proof (cases "encodeURIComponent (jr_viewerToken req)")
    case (Inl e)
    then have "\<not> well_formed (jr_viewerToken req)"
      using encodeURIComponent_total_iff [of "jr_viewerToken req"] by simp
    with Inl sid show ?thesis by (simp add: buildWebSocketUrl_def Let_def)
  next
    case tok: (Inr tok)
    then have "well_formed (jr_sessionId req)" "well_formed (jr_viewerToken req)"
      using sid encodeURIComponent_total_iff by blast+
    with ws_url_params [OF assms sid tok] show ?thesis by auto
  qed
qed

theorem ws_url_roundtrip_witness:
  "query_params (projr (buildWebSocketUrl \<lparr>ws_endpoint = lit ''http://h:8080/''\<rparr>
      \<lparr>jr_sessionId = lit ''a&b'', jr_viewerToken = lit ''t=1''\<rparr>))
   = [(lit ''session_id'', lit ''a&b''), (lit ''token'', lit ''t=1'')]"
proof -
  let ?cfg = "\<lparr>ws_endpoint = lit ''http://h:8080/''\<rparr>"
  let ?req = "\<lparr>jr_sessionId = lit ''a&b'', jr_viewerToken = lit ''t=1''\<rparr>"
  have "0x3F \<notin> set (ws_endpoint ?cfg)" by (simp add: js_eval)
  moreover have "\<exists>url. buildWebSocketUrl ?cfg ?req = Inr url"
    by (simp add: buildWebSocketUrl_def Let_def encodeURIComponent_def is_low_def is_high_def js_eval)
  ultimately show ?thesis
    using ws_url_roundtrip [of ?cfg ?req] by auto
qed

text \<open>C24. A WebSocket subscription, after any history, goes silent when unsubscribed: whatever the
  socket still does, no further event and no close notification reaches the caller, and
  unsubscribing again changes nothing. Over the whole life the close is either reported once or
  requested once, never both and never twice.\<close>

theorem websocket_contract:
  fixes fb and es fs :: "ws_event list"
  assumes "ws_subscribe reject cfg request = Inr s0"
  defines "s \<equiv> run (ws_step fb) es s0"
  shows "events_of (ws_log (run (ws_step fb) fs (ws_unsubscribe s))) = events_of (ws_log s)
    \<and> closes_of (ws_log (run (ws_step fb) fs (ws_unsubscribe s))) = closes_of (ws_log s)
    \<and> ws_unsubscribe (run (ws_step fb) fs (ws_unsubscribe s)) = run (ws_step fb) fs (ws_unsubscribe s)
    \<and> length (closes_of (ws_log s)) + length (ws_close_calls s) = (if ws_closed s then 1 else 0)"
proof -
  have "ws_started s0" using assms(1) by (auto simp: ws_started_def)
  then have ok: "ws_ok s" unfolding s_def by (rule websocket.reach_inv)
  have "ws_log (ws_unsubscribe s) = ws_log s"
    by (simp add: ws_unsubscribe_def socket_close_def)
  with websocket.quiet_after_unsub [OF ok, of fb fs] ok show ?thesis
    by (simp add: ws_ok_def)
qed

definition a_frame_decoder :: "8 word list \<Rightarrow> decode_error + ProtoViewerEvent" where
  "a_frame_decoder buf = (if buf = [] then Inl (lit ''premature EOF'')
     else Inr \<lparr>pv_sequence = 1, pv_emittedAt = None, pv_payload = PayloadStateChange
       \<lparr>ps_state = 3, ps_reason = []\<rparr>\<rparr>)"

definition a_socket :: ws_subscription where
  "a_socket = \<lparr>ws_closed = False, ws_ready = CONNECTING, ws_url = lit ''ws://h/ws/viewer?session_id=s&token=t'',
     ws_close_calls = [], ws_log = []\<rparr>"

lemma a_socket_subscribed:
  "ws_subscribe (\<lambda>_. None) \<lparr>ws_endpoint = lit ''http://h''\<rparr>
     \<lparr>jr_sessionId = lit ''s'', jr_viewerToken = lit ''t''\<rparr> = Inr a_socket"
  by (simp add: ws_subscribe_def buildWebSocketUrl_def Let_def encodeURIComponent_def is_low_def
      is_high_def encode_codepoint_def uri_unreserved_def drop_final_slash_def http_to_ws_def
      a_socket_def js_eval)

theorem websocket_contract_witness:
  "events_of (ws_log (run (ws_step a_frame_decoder) [WsMessage 0 (BinaryFrame [1])] (ws_unsubscribe
     (run (ws_step a_frame_decoder) [WsOpened, WsMessage 7 (BinaryFrame [1])] a_socket))))
   = [VState \<lparr>se_sequence = 1, se_emittedAtMs = 7, se_state = Ended, se_reason = None\<rparr>]"
proof -
  let ?s = "run (ws_step a_frame_decoder) [WsOpened, WsMessage 7 (BinaryFrame [1])] a_socket"
  have "bigintToNumber 1 = 1" by (simp add: bigintToNumber_exact MAX_SAFE_INTEGER_def)
  then have "events_of (ws_log ?s) =
      [VState \<lparr>se_sequence = 1, se_emittedAtMs = 7, se_state = Ended, se_reason = None\<rparr>]"
    by (simp add: a_socket_def a_frame_decoder_def onmessage_def emit_def decodeBinaryFrame_def
        timestampToMs_def mapMeetingState_def if_nonempty_def)
  with websocket_contract [OF a_socket_subscribed, of a_frame_decoder "[WsMessage 0 (BinaryFrame [1])]"
      "[WsOpened, WsMessage 7 (BinaryFrame [1])]"] show ?thesis by simp
qed

text \<open>What one frame means to the caller.\<close>

definition frame_event ::
  "(8 word list \<Rightarrow> decode_error + ProtoViewerEvent) \<Rightarrow> jsnum \<times> frame \<Rightarrow> ViewerEvent list" where
  "frame_event fb td = (case snd td of
     BinaryFrame buf \<Rightarrow> (case decodeBinaryFrame fb (fst td) buf of Inr (Some e) \<Rightarrow> [e] | _ \<Rightarrow> [])
   | _ \<Rightarrow> [])"

lemma onmessage_events:
  "events_of (ws_log (onmessage fb t d s)) = events_of (ws_log s) @ frame_event fb (t, d)"
  by (auto simp: onmessage_def emit_def frame_event_def split: frame.splits sum.splits option.splits)

text \<open>The callbacks one platform event makes.\<close>

definition new_callbacks :: "(8 word list \<Rightarrow> decode_error + ProtoViewerEvent) \<Rightarrow> ws_event \<Rightarrow> ws_subscription \<Rightarrow> callback list" where
  "new_callbacks fb e w = drop (length (ws_log w)) (ws_log (ws_step fb e w))"

lemma ws_step_log: "\<exists>new. ws_log (ws_step fb e w) = ws_log w @ new"
  by (cases e)
    (auto simp: ws_defs Let_def split: frame.splits sum.splits option.splits)

lemma ws_step_new: "ws_log (ws_step fb e w) = ws_log w @ new_callbacks fb e w"
  using ws_step_log [of fb e w] by (auto simp: new_callbacks_def)

lemma new_events:
  "events_of (new_callbacks fb e w) = (case e of
     WsMessage now d \<Rightarrow> if ws_ready w = OPEN then frame_event fb (now, d) else [] | _ \<Rightarrow> [])"
proof -
  have "events_of (ws_log w) @ events_of (new_callbacks fb e w) = events_of (ws_log (ws_step fb e w))"
    by (simp add: ws_step_new)
  moreover have "events_of (ws_log (ws_step fb e w)) = events_of (ws_log w) @ (case e of
     WsMessage now d \<Rightarrow> if ws_ready w = OPEN then frame_event fb (now, d) else [] | _ \<Rightarrow> [])"
    by (cases e) (auto simp: onmessage_events ws_defs(1,3-6) Let_def)
  ultimately show ?thesis by simp
qed

text \<open>A socket that was given up delivers no message any more.\<close>

lemma closed_no_message:
  assumes "ws_ok w" and "ws_closed w"
  shows "ws_step fb (WsMessage now d) w = w" "new_callbacks fb (WsMessage now d) w = []"
  using assms by (auto simp: ws_ok_def new_callbacks_def)

text \<open>On an open socket every frame is handled on its own: the events delivered are exactly the
  frames that decode to a known payload, in arrival order, and neither a malformed frame, an unknown
  payload nor a stray text frame ends the subscription or holds back the frames behind it.\<close>

lemma websocket_delivery:
  fixes fb and frames :: "(jsnum \<times> frame) list"
  assumes "ws_ready s = OPEN"
  defines "s' \<equiv> run (ws_step fb) (map (\<lambda>(t, d). WsMessage t d) frames) s"
  shows "events_of (ws_log s') = events_of (ws_log s) @ concat (map (frame_event fb) frames)
    \<and> ws_ready s' = OPEN \<and> ws_closed s' = ws_closed s"
  using assms(1) unfolding s'_def
proof (induction frames arbitrary: s)
  case Nil
  then show ?case by simp
next
  case (Cons f frames)
  obtain t d where f: "f = (t, d)" by (cases f)
  from Cons.prems have "ws_ready (onmessage fb t d s) = OPEN" by (simp add: onmessage_frame)
  from Cons.IH [OF this] Cons.prems f show ?case
    by (simp add: onmessage_events onmessage_frame)
qed

lemma websocket_delivery_witness:
  "events_of (ws_log (run (ws_step a_frame_decoder)
      [WsMessage 5 (BinaryFrame []), WsMessage 6 (TextFrame (lit ''x'')), WsMessage 7 (BinaryFrame [1])]
      (a_socket\<lparr>ws_ready := OPEN\<rparr>)))
   = [VState \<lparr>se_sequence = 1, se_emittedAtMs = 7, se_state = Ended, se_reason = None\<rparr>]"
proof -
  let ?frames = "[(5, BinaryFrame []), (6, TextFrame (lit ''x'')), (7, BinaryFrame [1])]"
  have "bigintToNumber 1 = 1" by (simp add: bigintToNumber_exact MAX_SAFE_INTEGER_def)
  then have "concat (map (frame_event a_frame_decoder) ?frames) =
      [VState \<lparr>se_sequence = 1, se_emittedAtMs = 7, se_state = Ended, se_reason = None\<rparr>]"
    by (simp add: frame_event_def a_frame_decoder_def decodeBinaryFrame_def timestampToMs_def
        mapMeetingState_def if_nonempty_def)
  moreover have "ws_ready (a_socket\<lparr>ws_ready := OPEN\<rparr>) = OPEN" by simp
  ultimately show ?thesis
    using websocket_delivery [of "a_socket\<lparr>ws_ready := OPEN\<rparr>" a_frame_decoder ?frames]
    by (simp del: ws_step.simps add: a_socket_def)
qed

text \<open>The Cloud-mode stub keeps the same contract: it delivers at most one synthetic event, none
  once unsubscribed, and reports its close exactly when, and once, it is unsubscribed.\<close>

lemma grpc_contract:
  "let s = run grpc_step es (grpc_subscribe endpoint); u = run grpc_step fs (grpc_unsubscribe s)
   in length (events_of (gw_log s)) \<le> 1
      \<and> events_of (gw_log u) = events_of (gw_log s)
      \<and> length (closes_of (gw_log u)) = 1 \<and> grpc_unsubscribe u = u
      \<and> length (closes_of (gw_log s)) = (if gw_cancelled s then 1 else 0)"
proof -
  let ?s = "run grpc_step es (grpc_subscribe endpoint)"
  have ok: "grpc_ok ?s" by (rule grpc.reach_inv) blast
  have "events_of (gw_log (grpc_unsubscribe ?s)) = events_of (gw_log ?s)"
    by (simp add: grpc_unsubscribe_def)
  moreover have "grpc_ok (grpc_unsubscribe ?s)" and "gw_cancelled (grpc_unsubscribe ?s)"
    using grpc.ok_unsub [OF ok] grpc.over_unsub [OF ok] by simp_all
  ultimately show ?thesis
    using grpc.quiet_after_unsub [OF ok, of fs] ok
    by (auto simp: Let_def grpc_ok_def split: if_splits)
qed

end
