(* ===== verification/Auth.thy ===== *)
theory Auth
  imports Config
begin

section \<open>Authentication and the gateway client\<close>

text \<open>
  The module state of lib/gateway-client.ts and lib/auth.ts, the boot sequence of main.tsx, the shell
  that hands a principal to the pages (AuthProvider/AegisAuthShell.tsx), and the sign-in callback
  page. The OpenID client library is a parameter: its stored session and its events are the steps of
  a machine, and \<open>User.expired\<close>, a getter that reads the clock, is a function of the time.
\<close>

subsection \<open>Principals\<close>

datatype AuthMode = LocalAuth | CloudAuth

record AuthPrincipal =
  userId :: jsstring
  tenantId :: jsstring
  principal_mode :: AuthMode
  displayName :: "jsstring option"
  email :: "jsstring option"

text \<open>A claim of an ID token is a string or another JSON value.\<close>

datatype claim = StringClaim jsstring | OtherClaim

record User =
  profile_sub :: jsstring
  profile_claims :: "string \<Rightarrow> claim option"
  id_token :: "jsstring option"
  expires_at :: jsnum

type_synonym expiry = "jsnum \<Rightarrow> User \<Rightarrow> bool"

definition TENANT_CLAIM :: string where
  "TENANT_CLAIM = ''custom:tenant_id''"

definition userToPrincipal :: "User \<Rightarrow> AuthPrincipal" where
  "userToPrincipal user =
     (let tenant = (case profile_claims user TENANT_CLAIM of Some (StringClaim t) \<Rightarrow> t | _ \<Rightarrow> []);
          principal = \<lparr>userId = profile_sub user, tenantId = tenant, principal_mode = CloudAuth,
                       displayName = None, email = None\<rparr>
      in case profile_claims user ''name'' of
           Some (StringClaim (c # cs)) \<Rightarrow> principal\<lparr>displayName := Some (c # cs)\<rparr>
         | _ \<Rightarrow> (case profile_claims user ''email'' of
             Some (StringClaim (c # cs)) \<Rightarrow> principal\<lparr>email := Some (c # cs)\<rparr>
           | _ \<Rightarrow> principal))"

definition LOCAL_PRINCIPAL :: AuthPrincipal where
  "LOCAL_PRINCIPAL = \<lparr>userId = lit ''local'', tenantId = [], principal_mode = LocalAuth,
     displayName = Some (lit ''Local user''), email = None\<rparr>"

subsection \<open>Module state\<close>

record UserManagerSettings =
  um_authority :: jsstring
  um_client_id :: jsstring
  um_redirect_uri :: jsstring
  um_post_logout_redirect_uri :: "jsstring option"
  um_response_type :: jsstring
  um_scope :: jsstring
  um_automaticSilentRenew :: bool

definition buildCloudUserManager :: "CognitoConfig \<Rightarrow> UserManagerSettings" where
  "buildCloudUserManager c = \<lparr>um_authority = cc_authority c, um_client_id = cc_clientId c,
     um_redirect_uri = cc_redirectUri c,
     um_post_logout_redirect_uri = (if truthy (cc_logoutUri c) then cc_logoutUri c else None),
     um_response_type = lit ''code'', um_scope = lit ''openid profile email'',
     um_automaticSilentRenew = True\<rparr>"

text \<open>The one getter the program registers closes over the module variable \<open>cachedUser\<close>; it is
  represented by its name. \<open>am_hydrating\<close> says that the promise of \<open>getUser()\<close> is still pending.\<close>

datatype token_getter = IdTokenOfCachedUser

record auth_module =
  authTokenGetter :: "token_getter option"
  gateway_client :: "jsstring option"
  cloudUserManager :: "UserManagerSettings option"
  cachedUser :: "User option"
  am_hydrating :: bool

definition fresh_modules :: auth_module where
  "fresh_modules = \<lparr>authTokenGetter = None, gateway_client = None, cloudUserManager = None,
     cachedUser = None, am_hydrating = False\<rparr>"

definition setAuthTokenGetter :: "token_getter option \<Rightarrow> auth_module \<Rightarrow> auth_module" where
  "setAuthTokenGetter g s = s\<lparr>authTokenGetter := g\<rparr>"

definition initGatewayClient :: "AppConfig \<Rightarrow> auth_module \<Rightarrow> auth_module" where
  "initGatewayClient cfg s = s\<lparr>gateway_client := Some (gatewayEndpoint cfg)\<rparr>"

datatype client_error = ClientNotInitialised

definition getGatewayClient :: "auth_module \<Rightarrow> client_error + jsstring" where
  "getGatewayClient s = (case gateway_client s of None \<Rightarrow> Inl ClientNotInitialised | Some c \<Rightarrow> Inr c)"

definition initAuth :: "AppConfig \<Rightarrow> auth_module \<Rightarrow> auth_module" where
  "initAuth cfg s = (case (deployMode cfg, cognito cfg) of
     (CloudMode, Some c) \<Rightarrow>
       setAuthTokenGetter (Some IdTokenOfCachedUser)
         (s\<lparr>cloudUserManager := Some (buildCloudUserManager c), am_hydrating := True\<rparr>)
   | _ \<Rightarrow> setAuthTokenGetter None s)"

text \<open>The callback registered with \<open>setAuthTokenGetter\<close>, and the interceptor of the transport:
  the Authorization header it sets, if any.\<close>

fun call_getter :: "expiry \<Rightarrow> jsnum \<Rightarrow> token_getter \<Rightarrow> auth_module \<Rightarrow> jsstring option" where
  "call_getter expired now IdTokenOfCachedUser s = (case cachedUser s of
     None \<Rightarrow> None
   | Some u \<Rightarrow> if expired now u then None else id_token u)"

definition authorization :: "expiry \<Rightarrow> jsnum \<Rightarrow> auth_module \<Rightarrow> jsstring option" where
  "authorization expired now s =
     (let token = (case authTokenGetter s of None \<Rightarrow> None | Some g \<Rightarrow> call_getter expired now g s)
      in case token of
           Some t \<Rightarrow> if t \<noteq> [] then Some (lit ''Bearer '' @ t) else None
         | None \<Rightarrow> None)"

text \<open>What the library does later: the stored session is read, once; a user is loaded (sign-in or
  silent renewal), unloaded, or the access token expires. The handlers exist only once \<open>initAuth\<close> has
  built the user manager.\<close>

datatype auth_event =
    Hydrated jsnum "User option"
  | UserLoaded User
  | UserUnloaded
  | AccessTokenExpired

fun auth_handler :: "expiry \<Rightarrow> auth_event \<Rightarrow> auth_module \<Rightarrow> auth_module" where
  "auth_handler expired (Hydrated now u) s =
     (if am_hydrating s then
        s\<lparr>am_hydrating := False,
          cachedUser := (case u of Some v \<Rightarrow> if \<not> expired now v then Some v else None | None \<Rightarrow> None)\<rparr>
      else s)"
| "auth_handler expired (UserLoaded u) s = s\<lparr>cachedUser := Some u\<rparr>"
| "auth_handler expired UserUnloaded s = s\<lparr>cachedUser := None\<rparr>"
| "auth_handler expired AccessTokenExpired s = s\<lparr>cachedUser := None\<rparr>"

definition auth_step :: "expiry \<Rightarrow> auth_event \<Rightarrow> auth_module \<Rightarrow> auth_module" where
  "auth_step expired e s = (if cloudUserManager s = None then s else auth_handler expired e s)"

subsection \<open>Boot and shell\<close>

datatype boot_error = BootConfig config_error | RootMissing

definition bootstrap ::
  "env \<Rightarrow> location option \<Rightarrow> fetch_result \<Rightarrow> bool \<Rightarrow> (boot_error + unit) \<times> AppConfig option \<times> auth_module" where
  "bootstrap e win fetched has_root =
     (case loadConfig e win fetched None of
        (Inl err, cached) \<Rightarrow> (Inl (BootConfig err), cached, fresh_modules)
      | (Inr cfg, cached) \<Rightarrow>
          (let s = initAuth cfg (initGatewayClient cfg fresh_modules)
           in (if has_root then Inr () else Inl RootMissing, cached, s)))"

datatype shell = OidcShell UserManagerSettings | PlainShell

datatype shell_error = ShellConfig config_error | NoUserManager

definition AegisAuthShell :: "AppConfig option \<Rightarrow> auth_module \<Rightarrow> shell_error + shell" where
  "AegisAuthShell cached s = (case getConfig cached of
     Inl err \<Rightarrow> Inl (ShellConfig err)
   | Inr cfg \<Rightarrow>
       (if deployMode cfg = CloudMode then
          (case cloudUserManager s of None \<Rightarrow> Inl NoUserManager | Some m \<Rightarrow> Inr (OidcShell m))
        else Inr PlainShell))"

text \<open>What \<open>useOidcAuth()\<close> gives the adapter, and what \<open>useAegisAuth()\<close> gives the pages.\<close>

record oidc_state =
  isAuthenticated :: bool
  oidc_user :: "User option"
  isLoading :: bool

record AegisAuthContextValue =
  ctx_principal :: "AuthPrincipal option"
  ctx_loading :: bool

definition LOCAL_VALUE :: AegisAuthContextValue where
  "LOCAL_VALUE = \<lparr>ctx_principal = Some LOCAL_PRINCIPAL, ctx_loading = False\<rparr>"

definition CloudAegisAdapter :: "expiry \<Rightarrow> jsnum \<Rightarrow> oidc_state \<Rightarrow> AegisAuthContextValue" where
  "CloudAegisAdapter expired now oidc =
     \<lparr>ctx_principal = (case oidc_user oidc of
          Some u \<Rightarrow> if isAuthenticated oidc \<and> \<not> expired now u then Some (userToPrincipal u) else None
        | None \<Rightarrow> None),
      ctx_loading = isLoading oidc\<rparr>"

fun useAegisAuth :: "expiry \<Rightarrow> jsnum \<Rightarrow> oidc_state \<Rightarrow> shell \<Rightarrow> AegisAuthContextValue" where
  "useAegisAuth expired now oidc (OidcShell _) = CloudAegisAdapter expired now oidc"
| "useAegisAuth expired now oidc PlainShell = LOCAL_VALUE"

subsection \<open>The sign-in callback page\<close>

datatype CallbackState = Processing | Done | CallbackFailed jsstring

record callback_page =
  cb_state :: CallbackState
  cb_pending :: bool
  cb_cancelled :: bool
  cb_navigations :: "jsstring list"

text \<open>\<open>handleSignInCallback\<close>: nothing without a user manager, otherwise the library's code exchange,
  whose outcome is a parameter.\<close>

definition handleSignInCallback :: "jsstring + unit \<Rightarrow> auth_module \<Rightarrow> jsstring + unit" where
  "handleSignInCallback exchange s = (if cloudUserManager s = None then Inr () else exchange)"

definition mount_callback :: callback_page where
  "mount_callback = \<lparr>cb_state = Processing, cb_pending = True, cb_cancelled = False, cb_navigations = []\<rparr>"

datatype callback_event = CallbackSettled "jsstring + unit" | CallbackUnmounted

fun callback_step :: "callback_event \<Rightarrow> callback_page \<Rightarrow> callback_page" where
  "callback_step CallbackUnmounted p = p\<lparr>cb_cancelled := True\<rparr>"
| "callback_step (CallbackSettled outcome) p =
     (if \<not> cb_pending p then p
      else let p = p\<lparr>cb_pending := False\<rparr> in
        (case outcome of
           Inr _ \<Rightarrow> if cb_cancelled p then p
             else p\<lparr>cb_state := Done, cb_navigations := cb_navigations p @ [lit ''/host'']\<rparr>
         | Inl msg \<Rightarrow> if cb_cancelled p then p else p\<lparr>cb_state := CallbackFailed msg\<rparr>))"

text \<open>What the page renders: the heading, the notice of the state, and after a failure the link to the
  landing page.\<close>

record callback_view =
  cv_heading :: jsstring
  cv_notice :: jsstring
  cv_link :: "(jsstring \<times> jsstring) option"

fun AuthCallbackPage_view :: "CallbackState \<Rightarrow> callback_view" where
  "AuthCallbackPage_view state = \<lparr>cv_heading = lit ''Signing you in'' @ [0x2026],
     cv_notice = (case state of
        Processing \<Rightarrow> lit ''Exchanging authorization code with Cognito'' @ [0x2026]
      | Done \<Rightarrow> lit ''Done. Redirecting to host page'' @ [0x2026]
      | CallbackFailed message \<Rightarrow> lit ''Sign-in failed: '' @ message),
     cv_link = (case state of CallbackFailed _ \<Rightarrow> Some (lit ''/'', lit ''Back to landing'') | _ \<Rightarrow> None)\<rparr>"

subsection \<open>The state after boot\<close>

definition auth_ok :: "AppConfig \<Rightarrow> auth_module \<Rightarrow> bool" where
  "auth_ok cfg s \<longleftrightarrow> config_ok cfg \<and> gateway_client s = Some (gatewayEndpoint cfg)
     \<and> cloudUserManager s = map_option buildCloudUserManager (cognito cfg)
     \<and> authTokenGetter s = (if deployMode cfg = CloudMode then Some IdTokenOfCachedUser else None)
     \<and> (cloudUserManager s = None \<longrightarrow> cachedUser s = None)"

definition booted :: "AppConfig \<Rightarrow> auth_module \<Rightarrow> bool" where
  "booted cfg s \<longleftrightarrow> (\<exists>e win fetched. bootstrap e win fetched True = (Inr (), Some cfg, s))"

lemma loadConfig_Inr:
  "loadConfig e win fetched cached = (Inr cfg, cache) \<Longrightarrow> config_ok cfg \<and> cache = Some cfg"
  by (auto simp: loadConfig_def Let_def dest: normalize_ok split: sum.splits fetch_result.splits)

lemma bootstrap_ok:
  assumes "bootstrap e win fetched has_root = (Inr (), cached, s)"
  obtains cfg where "cached = Some cfg" "auth_ok cfg s" "cachedUser s = None"
proof -
  obtain r cache where load: "loadConfig e win fetched None = (r, cache)"
    by fastforce
  show ?thesis
  proof (cases r)
    case (Inl err)
    with load assms show ?thesis by (simp add: bootstrap_def)
  next
    case (Inr cfg)
    with load have cfg: "config_ok cfg" "cache = Some cfg" by (auto dest: loadConfig_Inr)
    from cfg(1) have "deployMode cfg = CloudMode \<longleftrightarrow> cognito cfg \<noteq> None"
      by (simp add: config_ok_def)
    then have "auth_ok cfg (initAuth cfg (initGatewayClient cfg fresh_modules))"
      using cfg(1) by (auto simp: auth_ok_def initAuth_def initGatewayClient_def setAuthTokenGetter_def
          fresh_modules_def split: DeployMode.split option.split)
    moreover have "cachedUser (initAuth cfg (initGatewayClient cfg fresh_modules)) = None"
      by (simp add: initAuth_def initGatewayClient_def setAuthTokenGetter_def fresh_modules_def
          split: DeployMode.split option.split)
    ultimately show ?thesis
      using that [of cfg] load Inr cfg(2) assms by (simp add: bootstrap_def Let_def split: if_splits)
  qed
qed

lemma auth_handler_frame [simp]:
  "gateway_client (auth_handler x e s) = gateway_client s"
  "cloudUserManager (auth_handler x e s) = cloudUserManager s"
  "authTokenGetter (auth_handler x e s) = authTokenGetter s"
  by (cases e; simp)+

interpretation auth: machine "auth_step expired" "booted cfg" "auth_ok cfg" for expired cfg
proof unfold_locales
  fix s
  assume "booted cfg s"
  then show "auth_ok cfg s" by (auto simp: booted_def elim: bootstrap_ok)
qed (auto simp: auth_ok_def auth_step_def)

text \<open>The user an event brings in, and the events that sign a user out.\<close>

fun event_user :: "expiry \<Rightarrow> auth_event \<Rightarrow> User option" where
  "event_user expired (Hydrated now (Some u)) = (if expired now u then None else Some u)"
| "event_user expired (UserLoaded u) = Some u"
| "event_user expired _ = None"

fun signs_out :: "auth_event \<Rightarrow> bool" where
  "signs_out UserUnloaded = True"
| "signs_out AccessTokenExpired = True"
| "signs_out _ = False"

lemma auth_step_cached:
  "auth_ok cfg s \<Longrightarrow> cachedUser (auth_step x e s) = Some u
   \<Longrightarrow> event_user x e = Some u \<or> cachedUser s = Some u \<and> \<not> signs_out e"
  by (cases "(x, e)" rule: event_user.cases)
    (auto simp: auth_step_def auth_ok_def split: if_splits option.splits)

lemma cached_user_origin:
  assumes "auth_ok cfg s" and "cachedUser s = None" and "cachedUser (run (auth_step x) es s) = Some u"
  shows "\<exists>pre ev post. es = pre @ ev # post \<and> event_user x ev = Some u
    \<and> list_all (\<lambda>e. \<not> signs_out e) post"
  by (rule auth.run_origin [where P = "\<lambda>s. cachedUser s = Some u", OF assms(1)])
    (use assms(2,3) in \<open>auto dest: auth_step_cached\<close>)

subsection \<open>Properties\<close>

text \<open>C36. A successful boot is consistent, and stays so whatever the identity library does afterwards:
  the configuration is cached and well formed, the gateway client exists and points at the configured
  endpoint, and the shell never throws: Cloud mode gets the user manager built from the Cognito
  settings, Local mode the plain tree.\<close>

theorem boot_consistent:
  "case bootstrap e win fetched has_root of
     (Inl _, _, _) \<Rightarrow> True
   | (Inr _, cached, s0) \<Rightarrow> (\<exists>cfg. cached = Some cfg \<and> config_ok cfg \<and>
       (let s = run (auth_step expired) es s0 in
          getGatewayClient s = Inr (gatewayEndpoint cfg)
        \<and> AegisAuthShell cached s = Inr (case cognito cfg of
            Some c \<Rightarrow> OidcShell (buildCloudUserManager c) | None \<Rightarrow> PlainShell)))"
proof -
  obtain r cached s0 where boot: "bootstrap e win fetched has_root = (r, cached, s0)"
    by (metis prod_cases3)
  show ?thesis
  proof (cases r)
    case (Inl err)
    with boot show ?thesis by simp
  next
    case (Inr x)
    with boot obtain cfg where cfg: "cached = Some cfg" "auth_ok cfg s0"
      by (metis bootstrap_ok old.unit.exhaust)
    have "auth_ok cfg (run (auth_step expired) es s0)" by (rule auth.run_inv [OF cfg(2)])
    then have "config_ok cfg
        \<and> getGatewayClient (run (auth_step expired) es s0) = Inr (gatewayEndpoint cfg)
        \<and> AegisAuthShell cached (run (auth_step expired) es s0) = Inr (case cognito cfg of
            Some c \<Rightarrow> OidcShell (buildCloudUserManager c) | None \<Rightarrow> PlainShell)"
      using cfg(1) by (auto simp: auth_ok_def getGatewayClient_def AegisAuthShell_def getConfig_def
          config_ok_def split: option.splits)
    with boot Inr cfg(1) show ?thesis by (simp add: Let_def)
  qed
qed

text \<open>C23. A bearer token leaves the browser only for a live Cloud session: if a request carries an
  Authorization header, the deployment is Cloud, the header is the non-empty ID token of a user that
  some earlier event brought in, that user has not been signed out since, and the session has not
  expired at the time of the request.\<close>

theorem authorization_sound:
  assumes "bootstrap e win fetched has_root = (Inr (), Some cfg, s0)"
    and "authorization expired now (run (auth_step expired) es s0) = Some header"
  shows "deployMode cfg = CloudMode \<and> (\<exists>pre ev post u token.
     es = pre @ ev # post \<and> event_user expired ev = Some u \<and> list_all (\<lambda>e. \<not> signs_out e) post
     \<and> \<not> expired now u \<and> id_token u = Some token \<and> token \<noteq> [] \<and> header = lit ''Bearer '' @ token)"
proof -
  let ?s = "run (auth_step expired) es s0"
  from assms(1) have s0: "auth_ok cfg s0" "cachedUser s0 = None"
    by (auto elim: bootstrap_ok)
  have "auth_ok cfg ?s" by (rule auth.run_inv [OF s0(1)])
  with assms(2) obtain u token where cloud: "deployMode cfg = CloudMode"
    and u: "cachedUser ?s = Some u" "\<not> expired now u" "id_token u = Some token" "token \<noteq> []"
      "header = lit ''Bearer '' @ token"
    by (auto simp: authorization_def auth_ok_def Let_def split: option.splits if_splits)
  from cached_user_origin [OF s0 u(1)] cloud u(2-) show ?thesis by blast
qed

definition a_cloud_config :: RawConfig where
  "a_cloud_config = \<lparr>raw_deployMode = Some (lit ''cloud''), raw_gatewayEndpoint = Some (lit ''https://g''),
     raw_cognito = Some \<lparr>raw_authority = Some (lit ''https://idp''), raw_clientId = Some (lit ''c''),
       raw_redirectUri = Some (lit ''https://g/auth/callback''), raw_logoutUri = None\<rparr>\<rparr>"

definition a_user :: User where
  "a_user = \<lparr>profile_sub = lit ''u1'', profile_claims = (\<lambda>_. None), id_token = Some (lit ''jwt''),
     expires_at = 100\<rparr>"

lemma a_cloud_boot:
  "\<exists>cfg s. bootstrap (\<lambda>_. None) None (FetchOk a_cloud_config) True = (Inr (), Some cfg, s)
     \<and> deployMode cfg = CloudMode \<and> cloudUserManager s \<noteq> None
     \<and> authTokenGetter s = Some IdTokenOfCachedUser"
  by (simp add: bootstrap_def loadConfig_def normalize_def a_cloud_config_def Let_def truthy_def
      initAuth_def setAuthTokenGetter_def js_eval)

theorem authorization_sound_witness:
  "\<exists>cfg s0. bootstrap (\<lambda>_. None) None (FetchOk a_cloud_config) True = (Inr (), Some cfg, s0)
     \<and> authorization (\<lambda>now u. expires_at u \<le> now) 50
         (run (auth_step (\<lambda>now u. expires_at u \<le> now)) [UserLoaded a_user] s0) = Some (lit ''Bearer jwt'')
     \<and> deployMode cfg = CloudMode"
proof -
  let ?x = "\<lambda>now u. expires_at u \<le> now"
  obtain cfg s0 where boot: "bootstrap (\<lambda>_. None) None (FetchOk a_cloud_config) True = (Inr (), Some cfg, s0)"
    and um: "cloudUserManager s0 \<noteq> None" "authTokenGetter s0 = Some IdTokenOfCachedUser"
    using a_cloud_boot by blast
  have sent: "authorization ?x 50 (run (auth_step ?x) [UserLoaded a_user] s0) = Some (lit ''Bearer jwt'')"
    using um by (auto simp: authorization_def auth_step_def a_user_def js_eval)
  with authorization_sound [OF boot sent] boot show ?thesis by blast
qed

text \<open>C37. The token is complete as well as sound: right after a user is loaded, a request in Cloud
  mode carries exactly that user's non-empty ID token until it expires, and in Local mode no request
  ever carries a header; after a sign-out or an expiry event no request does.\<close>

theorem authorization_exact:
  fixes expired :: expiry and es :: "auth_event list"
  assumes "bootstrap e win fetched has_root = (Inr (), Some cfg, s0)"
  defines "s \<equiv> run (auth_step expired) es s0"
  shows "authorization expired now (auth_step expired (UserLoaded u) s) =
      (case id_token u of
         Some token \<Rightarrow> if deployMode cfg = CloudMode \<and> \<not> expired now u \<and> token \<noteq> []
                      then Some (lit ''Bearer '' @ token) else None
       | None \<Rightarrow> None)
    \<and> authorization expired now (auth_step expired UserUnloaded s) = None
    \<and> authorization expired now (auth_step expired AccessTokenExpired s) = None
    \<and> (deployMode cfg = LocalMode \<longrightarrow> authorization expired now s = None)"
proof -
  from assms(1) have "auth_ok cfg s0" by (auto elim: bootstrap_ok)
  then have ok: "auth_ok cfg s" unfolding s_def by (rule auth.run_inv)
  then have mode: "cloudUserManager s \<noteq> None \<longleftrightarrow> deployMode cfg = CloudMode"
    by (auto simp: auth_ok_def config_ok_def)
  show ?thesis
  proof (cases "deployMode cfg = CloudMode")
    case True
    with ok mode show ?thesis
      by (auto simp: authorization_def auth_step_def auth_ok_def Let_def split: option.splits)
  next
    case False
    with ok mode show ?thesis
      by (auto simp: authorization_def auth_step_def auth_ok_def split: option.splits)
  qed
qed

theorem authorization_exact_witness:
  "\<exists>cfg s0. bootstrap (\<lambda>_. None) None (FetchOk a_cloud_config) True = (Inr (), Some cfg, s0)
     \<and> authorization (\<lambda>now u. expires_at u \<le> now) 99
         (auth_step (\<lambda>now u. expires_at u \<le> now) (UserLoaded a_user) s0) = Some (lit ''Bearer '' @ lit ''jwt'')"
proof -
  let ?x = "\<lambda>now u. expires_at u \<le> now"
  obtain cfg s0 where boot: "bootstrap (\<lambda>_. None) None (FetchOk a_cloud_config) True = (Inr (), Some cfg, s0)"
    and "deployMode cfg = CloudMode"
    using a_cloud_boot by blast
  with authorization_exact [OF boot, of ?x 99 a_user "[]"] show ?thesis
    by (auto simp: a_user_def)
qed

text \<open>The principal the pages see: in Local mode always the synthetic local one; in Cloud mode one
  exactly while the library reports an authenticated, unexpired user, whose id is the subject claim,
  whose tenant is the string-valued tenant claim or empty, and which carries a display name or an
  email but never both.\<close>

lemma principal_spec:
  "useAegisAuth expired now oidc PlainShell = \<lparr>ctx_principal = Some LOCAL_PRINCIPAL, ctx_loading = False\<rparr>
   \<and> (ctx_principal (useAegisAuth expired now oidc (OidcShell m)) \<noteq> None \<longleftrightarrow>
        isAuthenticated oidc \<and> (\<exists>u. oidc_user oidc = Some u \<and> \<not> expired now u))
   \<and> (case ctx_principal (useAegisAuth expired now oidc (OidcShell m)) of None \<Rightarrow> True
      | Some p \<Rightarrow> userId p = profile_sub (the (oidc_user oidc)) \<and> principal_mode p = CloudAuth
          \<and> tenantId p = (case profile_claims (the (oidc_user oidc)) TENANT_CLAIM of
              Some (StringClaim t) \<Rightarrow> t | _ \<Rightarrow> [])
          \<and> (displayName p = None \<or> email p = None)
          \<and> displayName p \<noteq> Some [] \<and> email p \<noteq> Some [])"
proof -
  have shape: "userId (userToPrincipal u) = profile_sub u \<and> principal_mode (userToPrincipal u) = CloudAuth
      \<and> tenantId (userToPrincipal u) = (case profile_claims u TENANT_CLAIM of
              Some (StringClaim t) \<Rightarrow> t | _ \<Rightarrow> [])
      \<and> (displayName (userToPrincipal u) = None \<or> email (userToPrincipal u) = None)
      \<and> displayName (userToPrincipal u) \<noteq> Some [] \<and> email (userToPrincipal u) \<noteq> Some []" for u
    by (auto simp: userToPrincipal_def Let_def split: option.split claim.split list.split)
  show ?thesis
    by (auto simp: LOCAL_VALUE_def CloudAegisAdapter_def shape split: option.splits)
qed

definition callback_ok :: "callback_page \<Rightarrow> bool" where
  "callback_ok p \<longleftrightarrow> cb_navigations p = (if cb_state p = Done then [lit ''/host''] else [])
     \<and> (cb_pending p \<longrightarrow> cb_state p = Processing)"

interpretation callback_page: machine callback_step "\<lambda>p. p = mount_callback" callback_ok
proof unfold_locales
  fix p :: callback_page and e
  assume "callback_ok p"
  then show "callback_ok (callback_step e p)"
    by (cases e) (auto simp: callback_ok_def Let_def split: sum.splits)
qed (simp add: callback_ok_def mount_callback_def)

lemma callback_cancelled:
  "cb_cancelled p \<Longrightarrow> cb_state (run callback_step es p) = cb_state p
     \<and> cb_navigations (run callback_step es p) = cb_navigations p"
proof (induction es arbitrary: p)
  case Nil
  then show ?case by simp
next
  case (Cons e es)
  then have "cb_cancelled (callback_step e p) \<and> cb_state (callback_step e p) = cb_state p
      \<and> cb_navigations (callback_step e p) = cb_navigations p"
    by (cases e) (auto simp: Let_def split: sum.splits)
  with Cons.IH [of "callback_step e p"] show ?case by simp
qed

text \<open>The callback page navigates to the host page at most once, exactly when the exchange
  succeeded while the page was mounted; an unmounted page never changes or navigates; without a user
  manager (Local mode) the exchange is skipped and counts as success.\<close>

lemma callback_navigates_once:
  "(let p = run callback_step es mount_callback in
      cb_navigations p = (if cb_state p = Done then [lit ''/host''] else [])
    \<and> (let q = run callback_step fs (callback_step CallbackUnmounted p)
       in cb_state q = cb_state p \<and> cb_navigations q = cb_navigations p))
   \<and> cb_state (callback_step (CallbackSettled (handleSignInCallback exchange fresh_modules)) mount_callback)
       = Done"
proof -
  have "callback_ok (run callback_step es mount_callback)"
    by (rule callback_page.reach_inv) simp
  moreover have "cb_cancelled (callback_step CallbackUnmounted p)" for p by simp
  ultimately show ?thesis
    by (simp add: Let_def callback_ok_def callback_cancelled)
      (simp add: mount_callback_def handleSignInCallback_def fresh_modules_def)
qed

text \<open>A page that has settled while mounted either has left for the host page or offers the way back to the
  landing page, and never both.\<close>

lemma callback_one_way_out:
  assumes "\<not> cb_cancelled p" and "cb_pending p" and "callback_ok p"
  shows "(cb_navigations (callback_step (CallbackSettled r) p) = [])
    = (cv_link (AuthCallbackPage_view (cb_state (callback_step (CallbackSettled r) p))) \<noteq> None)"
  using assms by (cases r) (auto simp: callback_ok_def split: if_splits)

end
