(* ===== verification/Hint_Styling.thy ===== *)
theory Hint_Styling
  imports Viewer_Event
begin

section \<open>Hint urgency: wire values and styling (lib/hintStyling.ts)\<close>

text \<open>
  \<open>toProtoUrgency\<close> turns the frontend's urgency into the wire enum the host sends, the inverse
  direction of \<open>mapHintUrgency\<close>; \<open>hintStyleForUrgency\<close> gives the surface treatment. The inline CSS
  object is the list of its properties.
\<close>

datatype HintProminence = Inline | Banner

datatype css = CssText jsstring | CssNumber int

record HintStyleSpec =
  prominence :: HintProminence
  style :: "(string \<times> css) list"
  hint_label :: "jsstring option"

fun toProtoUrgency :: "HintUrgency \<Rightarrow> int" where
  "toProtoUrgency LowUrgency = 1"
| "toProtoUrgency NormalUrgency = 2"
| "toProtoUrgency HighUrgency = 3"
| "toProtoUrgency UrgentUrgency = 4"

fun hintStyleForUrgency :: "HintUrgency \<Rightarrow> HintStyleSpec" where
  "hintStyleForUrgency LowUrgency =
     \<lparr>prominence = Inline,
      style = [(''padding'', CssText (lit ''0.5rem 0.75rem'')), (''background'', CssText (lit ''#f6f6f6'')),
        (''border'', CssText (lit ''1px solid #e0e0e0'')), (''borderRadius'', CssText (lit ''4px'')),
        (''color'', CssText (lit ''#555'')), (''fontSize'', CssText (lit ''0.9rem''))],
      hint_label = None\<rparr>"
| "hintStyleForUrgency NormalUrgency =
     \<lparr>prominence = Inline,
      style = [(''padding'', CssText (lit ''0.75rem 1rem'')), (''background'', CssText (lit ''#e8f4fd'')),
        (''border'', CssText (lit ''1px solid #bce0f5'')), (''borderRadius'', CssText (lit ''4px'')),
        (''color'', CssText (lit ''#1f4e79''))],
      hint_label = None\<rparr>"
| "hintStyleForUrgency HighUrgency =
     \<lparr>prominence = Banner,
      style = [(''padding'', CssText (lit ''0.75rem 1rem'')), (''background'', CssText (lit ''#fff3cd'')),
        (''border'', CssText (lit ''1px solid #ffc107'')), (''borderLeft'', CssText (lit ''4px solid #ffc107'')),
        (''borderRadius'', CssText (lit ''4px'')), (''color'', CssText (lit ''#5a4300'')),
        (''fontWeight'', CssNumber 500)],
      hint_label = Some (lit ''HIGH'')\<rparr>"
| "hintStyleForUrgency UrgentUrgency =
     \<lparr>prominence = Banner,
      style = [(''padding'', CssText (lit ''0.75rem 1rem'')), (''background'', CssText (lit ''#f8d7da'')),
        (''border'', CssText (lit ''1px solid #dc3545'')), (''borderLeft'', CssText (lit ''4px solid #dc3545'')),
        (''borderRadius'', CssText (lit ''4px'')), (''color'', CssText (lit ''#58151c'')),
        (''fontWeight'', CssNumber 600)],
      hint_label = Some (lit ''URGENT'')\<rparr>"

subsection \<open>The order of the tiers\<close>

text \<open>Urgencies are ordered as their wire values are, and a banner is more prominent than an inline
  hint.\<close>

instantiation HintUrgency :: linorder
begin

definition less_eq_HintUrgency :: "HintUrgency \<Rightarrow> HintUrgency \<Rightarrow> bool" where
  "u \<le> v \<longleftrightarrow> toProtoUrgency u \<le> toProtoUrgency v"

definition less_HintUrgency :: "HintUrgency \<Rightarrow> HintUrgency \<Rightarrow> bool" where
  "u < v \<longleftrightarrow> toProtoUrgency u < toProtoUrgency v"

instance
proof
  fix u v :: HintUrgency
  assume "u \<le> v" and "v \<le> u"
  then show "u = v" by (cases u; cases v) (simp_all add: less_eq_HintUrgency_def)
qed (auto simp: less_eq_HintUrgency_def less_HintUrgency_def)

end

instantiation HintProminence :: linorder
begin

definition less_eq_HintProminence :: "HintProminence \<Rightarrow> HintProminence \<Rightarrow> bool" where
  "p \<le> q \<longleftrightarrow> p = Inline \<or> q = Banner"

definition less_HintProminence :: "HintProminence \<Rightarrow> HintProminence \<Rightarrow> bool" where
  "p < q \<longleftrightarrow> p = Inline \<and> q = Banner"

instance
proof
  fix p q :: HintProminence
  show "p \<le> q \<or> q \<le> p" and "(p < q) = (p \<le> q \<and> \<not> q \<le> p)"
    by (cases p; cases q; simp add: less_eq_HintProminence_def less_HintProminence_def)+
qed (use HintProminence.exhaust in \<open>auto simp: less_eq_HintProminence_def\<close>)

end

text \<open>A more urgent hint is never shown less prominently, and the decoded urgencies of the wire are
  ordered as the wire values that name a tier.\<close>

lemma prominence_mono: "mono (\<lambda>u. prominence (hintStyleForUrgency u))"
proof (rule monoI)
  fix u v :: HintUrgency
  assume "u \<le> v"
  then show "prominence (hintStyleForUrgency u) \<le> prominence (hintStyleForUrgency v)"
    by (cases u; cases v) (simp_all add: less_eq_HintUrgency_def less_eq_HintProminence_def)
qed

lemma mapHintUrgency_mono: "mono_on {1..4} mapHintUrgency"
proof (rule mono_onI)
  fix w x :: int
  assume "w \<in> {1..4}" "x \<in> {1..4}" "w \<le> x"
  then have "w \<in> {1, 2, 3, 4}" "x \<in> {1, 2, 3, 4}" "w \<le> x" by auto
  then show "mapHintUrgency w \<le> mapHintUrgency x"
    by (auto simp: mapHintUrgency_def HINT_URGENCY_def less_eq_HintUrgency_def)
qed

subsection \<open>Properties\<close>

text \<open>An urgency survives the trip to the gateway and back: what the host sends is a value of the
  wire enum that decodes to the same urgency, and every wire value the frontend does not know, the
  unspecified one included, is treated as normal.\<close>

lemma urgency_roundtrip:
  "mapHintUrgency (toProtoUrgency u) = u
   \<and> map_of HINT_URGENCY (toProtoUrgency u) \<in> {Some ''LOW'', Some ''NORMAL'', Some ''HIGH'', Some ''URGENT''}
   \<and> toProtoUrgency (mapHintUrgency w) = (if w \<in> {1, 3, 4} then w else 2)"
  by (cases u) (auto simp: mapHintUrgency_def HINT_URGENCY_def)

text \<open>The four urgencies are told apart: the style is injective (no two tiers share a
  background), exactly the two loud tiers are banners, and exactly the banners carry a label.\<close>

lemma hint_style_tiers:
  "(hintStyleForUrgency u = hintStyleForUrgency v \<longleftrightarrow> u = v)
   \<and> (map_of (style (hintStyleForUrgency u)) ''background'' = map_of (style (hintStyleForUrgency v)) ''background''
        \<longleftrightarrow> u = v)
   \<and> (prominence (hintStyleForUrgency u) = Banner \<longleftrightarrow> u = HighUrgency \<or> u = UrgentUrgency)
   \<and> (hint_label (hintStyleForUrgency u) \<noteq> None \<longleftrightarrow> prominence (hintStyleForUrgency u) = Banner)"
  by (cases u; cases v) (simp_all add: js_eval)

end
