(* ===== verification/Audio_Capture.thy ===== *)
theory Audio_Capture
  imports Js_String
begin

section \<open>Audio capture (providers/AudioCaptureProvider)\<close>

text \<open>
  \<open>WebAudioCaptureProvider\<close> over an explicit store of the browser's media objects: device tracks
  (live until stopped), streams (mutable lists of tracks), audio contexts, and the two kinds of
  capture session with their captured \<open>stopped\<close> variable. What the platform answers to
  \<open>getUserMedia\<close>, \<open>getDisplayMedia\<close> and the construction of the mixing graph is a parameter. The
  synthetic track of a mixing destination is part of its context and not a device track.
\<close>

datatype CaptureMode = Microphone | BrowserTab | MicrophoneAndTab

datatype CaptureErrorCode =
  PermissionDenied | UserCancelled | NoAudioTrack | UnsupportedBrowser | Internal

text \<open>The thrown values: a DOMException by name and message, the program's CaptureError, another
  Error, or a value that is no Error.\<close>

datatype js_error =
    DOMException string jsstring
  | CaptureError CaptureErrorCode jsstring
  | OtherError jsstring
  | NonError jsstring

record AudioConstraints =
  ac_echoCancellation :: "bool option"
  ac_noiseSuppression :: "bool option"
  ac_autoGainControl :: "bool option"

record CaptureRequest =
  cr_mode :: CaptureMode
  cr_audioConstraints :: "AudioConstraints option"

record MediaTrackConstraints =
  mc_echoCancellation :: bool
  mc_noiseSuppression :: bool
  mc_autoGainControl :: bool
  mc_channelCount :: nat

definition audioConstraintsFromRequest :: "CaptureRequest \<Rightarrow> MediaTrackConstraints" where
  "audioConstraintsFromRequest req =
     (let audio = (case cr_audioConstraints req of Some a \<Rightarrow> a
        | None \<Rightarrow> \<lparr>ac_echoCancellation = None, ac_noiseSuppression = None, ac_autoGainControl = None\<rparr>);
        dflt = (\<lambda>v. case v of Some b \<Rightarrow> b | None \<Rightarrow> True)
      in \<lparr>mc_echoCancellation = dflt (ac_echoCancellation audio),
          mc_noiseSuppression = dflt (ac_noiseSuppression audio),
          mc_autoGainControl = dflt (ac_autoGainControl audio), mc_channelCount = 1\<rparr>)"

definition translateGetMediaError :: "js_error \<Rightarrow> js_error" where
  "translateGetMediaError err = (case err of
     DOMException name msg \<Rightarrow>
       (if name \<in> {''NotAllowedError'', ''SecurityError''} then CaptureError PermissionDenied msg
        else if name \<in> {''AbortError'', ''NotReadableError''} then CaptureError UserCancelled msg
        else CaptureError Internal (lit name @ lit '': '' @ msg))
   | CaptureError _ msg \<Rightarrow> CaptureError Internal msg
   | OtherError msg \<Rightarrow> CaptureError Internal msg
   | NonError v \<Rightarrow> CaptureError Internal v)"

subsection \<open>The store\<close>

datatype track_kind = AudioTrack | VideoTrack

record track =
  tk_kind :: track_kind
  tk_live :: bool

record single_session =
  ss_stream :: nat
  ss_mode :: CaptureMode
  ss_stopped :: bool

record mixed_session =
  ms_ctx :: nat
  ms_mic :: nat
  ms_tab :: nat
  ms_stopped :: bool

record world =
  w_tracks :: "track list"
  w_streams :: "nat list list"
  w_ctx_open :: "bool list"
  w_singles :: "single_session list"
  w_mixes :: "mixed_session list"

datatype CaptureSession = SingleSession nat | MixedSession nat

definition empty_world :: world where
  "empty_world = \<lparr>w_tracks = [], w_streams = [], w_ctx_open = [], w_singles = [], w_mixes = []\<rparr>"

definition new_stream :: "track_kind list \<Rightarrow> world \<Rightarrow> nat \<times> world" where
  "new_stream kinds w =
     (length (w_streams w),
      w\<lparr>w_tracks := w_tracks w @ map (\<lambda>k. \<lparr>tk_kind = k, tk_live = True\<rparr>) kinds,
        w_streams := w_streams w @ [[length (w_tracks w)..<length (w_tracks w) + length kinds]]\<rparr>)"

definition track_stop :: "nat \<Rightarrow> world \<Rightarrow> world" where
  "track_stop i w = w\<lparr>w_tracks := (w_tracks w)[i := (w_tracks w ! i)\<lparr>tk_live := False\<rparr>]\<rparr>"

definition removeTrack :: "nat \<Rightarrow> nat \<Rightarrow> world \<Rightarrow> world" where
  "removeTrack sid i w = w\<lparr>w_streams := (w_streams w)[sid := filter (\<lambda>j. j \<noteq> i) (w_streams w ! sid)]\<rparr>"

definition getTracks :: "nat \<Rightarrow> world \<Rightarrow> nat list" where
  "getTracks sid w = w_streams w ! sid"

definition tracks_of_kind :: "track_kind \<Rightarrow> nat \<Rightarrow> world \<Rightarrow> nat list" where
  "tracks_of_kind k sid w = filter (\<lambda>i. tk_kind (w_tracks w ! i) = k) (getTracks sid w)"

definition stop_tracks :: "nat list \<Rightarrow> world \<Rightarrow> world" where
  "stop_tracks ids w = foldl (\<lambda>w i. track_stop i w) w ids"

subsection \<open>Sessions\<close>

definition sessionFromSingleStream :: "nat \<Rightarrow> CaptureMode \<Rightarrow> world \<Rightarrow> nat \<times> world" where
  "sessionFromSingleStream sid mode w =
     (length (w_singles w),
      w\<lparr>w_singles := w_singles w @ [\<lparr>ss_stream = sid, ss_mode = mode, ss_stopped = False\<rparr>]\<rparr>)"

definition stop_single :: "nat \<Rightarrow> world \<Rightarrow> world" where
  "stop_single i w = (let s = w_singles w ! i in
     if ss_stopped s then w
     else stop_tracks (getTracks (ss_stream s) w) (w\<lparr>w_singles := (w_singles w)[i := s\<lparr>ss_stopped := True\<rparr>]\<rparr>))"

text \<open>The errors of the three \<open>disconnect\<close> calls and of \<open>close\<close> are swallowed by the source, each on
  its own, and both inner sessions are stopped whatever happens.\<close>

definition stop_mixed :: "nat \<Rightarrow> world \<Rightarrow> world" where
  "stop_mixed i w = (let s = w_mixes w ! i in
     if ms_stopped s then w
     else let w = w\<lparr>w_mixes := (w_mixes w)[i := s\<lparr>ms_stopped := True\<rparr>]\<rparr>;
              w = w\<lparr>w_ctx_open := (w_ctx_open w)[ms_ctx s := False]\<rparr>
          in stop_single (ms_tab s) (stop_single (ms_mic s) w))"

fun stop :: "CaptureSession \<Rightarrow> world \<Rightarrow> world" where
  "stop (SingleSession i) w = stop_single i w"
| "stop (MixedSession i) w = stop_mixed i w"

subsection \<open>Starting\<close>

text \<open>The platform: which media calls exist, and how each answers, either the kinds of the tracks of
  the stream it resolves to or the rejection. \<open>pl_graph\<close> is the failure of building the mixing
  graph, if any: before the context exists (\<open>False\<close>) or after (\<open>True\<close>).\<close>

record platform =
  pl_hasGetUserMedia :: bool
  pl_hasGetDisplayMedia :: bool
  pl_hasAudioContext :: bool
  pl_getUserMedia :: "MediaTrackConstraints \<Rightarrow> js_error + track_kind list"
  pl_getDisplayMedia :: "js_error + track_kind list"
  pl_graph :: "(bool \<times> js_error) option"

definition startMicrophone :: "platform \<Rightarrow> CaptureRequest \<Rightarrow> world \<Rightarrow> (js_error + nat) \<times> world" where
  "startMicrophone pl req w = (case pl_getUserMedia pl (audioConstraintsFromRequest req) of
     Inl e \<Rightarrow> (Inl (translateGetMediaError e), w)
   | Inr kinds \<Rightarrow>
       (let (sid, w) = new_stream kinds w;
            (i, w) = sessionFromSingleStream sid Microphone w
        in (Inr i, w)))"

definition drop_video :: "nat \<Rightarrow> world \<Rightarrow> world" where
  "drop_video sid w =
     foldl (\<lambda>w i. removeTrack sid i (track_stop i w)) w (tracks_of_kind VideoTrack sid w)"

definition no_audio_message :: jsstring where
  "no_audio_message =
     lit ''No audio track captured. Did you check \"Share tab audio\" in the tab picker?''"

definition startBrowserTab :: "platform \<Rightarrow> world \<Rightarrow> (js_error + nat) \<times> world" where
  "startBrowserTab pl w =
     (if \<not> pl_hasGetDisplayMedia pl then
        (Inl (CaptureError UnsupportedBrowser
           (lit ''getDisplayMedia not available; MVP supports Chrome/Edge only'')), w)
      else case pl_getDisplayMedia pl of
        Inl e \<Rightarrow> (Inl (translateGetMediaError e), w)
      | Inr kinds \<Rightarrow>
          (let (sid, w) = new_stream kinds w; w = drop_video sid w
           in if length (tracks_of_kind AudioTrack sid w) = 0
              then (Inl (translateGetMediaError (CaptureError NoAudioTrack no_audio_message)),
                    stop_tracks (getTracks sid w) w)
              else let (i, w) = sessionFromSingleStream sid BrowserTab w in (Inr i, w)))"

definition startMicrophoneAndTab ::
  "platform \<Rightarrow> CaptureRequest \<Rightarrow> world \<Rightarrow> (js_error + nat) \<times> world" where
  "startMicrophoneAndTab pl req w = (case startMicrophone pl req w of
     (Inl e, w) \<Rightarrow> (Inl e, w)
   | (Inr mic, w) \<Rightarrow> (case startBrowserTab pl w of
       (Inl e, w) \<Rightarrow> (Inl e, stop_single mic w)
     | (Inr tab, w) \<Rightarrow> (case pl_graph pl of
         Some (False, e) \<Rightarrow> (Inl e, w)
       | Some (True, e) \<Rightarrow> (Inl e, w\<lparr>w_ctx_open := w_ctx_open w @ [True]\<rparr>)
       | None \<Rightarrow>
           (Inr (length (w_mixes w)),
            w\<lparr>w_ctx_open := w_ctx_open w @ [True],
              w_mixes := w_mixes w @ [\<lparr>ms_ctx = length (w_ctx_open w), ms_mic = mic, ms_tab = tab,
                ms_stopped = False\<rparr>]\<rparr>))))"

definition session_of :: "(nat \<Rightarrow> CaptureSession) \<Rightarrow> (js_error + nat) \<times> world \<Rightarrow> (js_error + CaptureSession) \<times> world" where
  "session_of mk r = (case r of (Inl e, w) \<Rightarrow> (Inl e, w) | (Inr i, w) \<Rightarrow> (Inr (mk i), w))"

definition start :: "platform \<Rightarrow> CaptureRequest \<Rightarrow> world \<Rightarrow> (js_error + CaptureSession) \<times> world" where
  "start pl req w = (case cr_mode req of
     Microphone \<Rightarrow> session_of SingleSession (startMicrophone pl req w)
   | BrowserTab \<Rightarrow> session_of SingleSession (startBrowserTab pl w)
   | MicrophoneAndTab \<Rightarrow> session_of MixedSession (startMicrophoneAndTab pl req w))"

definition isSupported :: "platform \<Rightarrow> CaptureMode \<Rightarrow> bool" where
  "isSupported pl mode = (case mode of
     Microphone \<Rightarrow> pl_hasGetUserMedia pl
   | BrowserTab \<Rightarrow> pl_hasGetDisplayMedia pl
   | MicrophoneAndTab \<Rightarrow> pl_hasGetUserMedia pl \<and> pl_hasGetDisplayMedia pl \<and> pl_hasAudioContext pl)"

subsection \<open>What is held\<close>

definition live :: "world \<Rightarrow> nat set" where
  "live w = {i. i < length (w_tracks w) \<and> tk_live (w_tracks w ! i)}"

definition open_ctxs :: "world \<Rightarrow> nat set" where
  "open_ctxs w = {c. c < length (w_ctx_open w) \<and> w_ctx_open w ! c}"

lemma live_bound: "i \<in> live w \<Longrightarrow> i < length (w_tracks w)"
  by (simp add: live_def)

lemma track_stop_frame [simp]:
  "w_streams (track_stop i w) = w_streams w" "w_ctx_open (track_stop i w) = w_ctx_open w"
  "w_singles (track_stop i w) = w_singles w" "w_mixes (track_stop i w) = w_mixes w"
  "length (w_tracks (track_stop i w)) = length (w_tracks w)"
  by (simp_all add: track_stop_def)

lemma kind_track_stop [simp]: "tk_kind (w_tracks (track_stop i w) ! j) = tk_kind (w_tracks w ! j)"
  by (cases "i < length (w_tracks w)") (auto simp: track_stop_def nth_list_update list_update_beyond)

lemma live_track_stop [simp]: "live (track_stop i w) = live w - {i}"
  by (cases "i < length (w_tracks w)")
    (auto simp: live_def track_stop_def nth_list_update list_update_beyond split: if_splits)

lemma stop_tracks_frame [simp]:
  "w_streams (stop_tracks ids w) = w_streams w" "w_ctx_open (stop_tracks ids w) = w_ctx_open w"
  "w_singles (stop_tracks ids w) = w_singles w" "w_mixes (stop_tracks ids w) = w_mixes w"
  "length (w_tracks (stop_tracks ids w)) = length (w_tracks w)"
  "tk_kind (w_tracks (stop_tracks ids w) ! j) = tk_kind (w_tracks w ! j)"
  by (induction ids arbitrary: w) (simp_all add: stop_tracks_def)

lemma live_stop_tracks [simp]: "live (stop_tracks ids w) = live w - set ids"
  by (induction ids arbitrary: w) (auto simp: stop_tracks_def)

lemma live_frame [simp]:
  "live (w\<lparr>w_singles := x\<rparr>) = live w" "live (w\<lparr>w_mixes := y\<rparr>) = live w"
  "live (w\<lparr>w_ctx_open := z\<rparr>) = live w"
  by (simp_all add: live_def)

lemma open_ctxs_close:
  "open_ctxs (w\<lparr>w_ctx_open := (w_ctx_open w)[c := False]\<rparr>) = open_ctxs w - {c}"
  by (cases "c < length (w_ctx_open w)")
    (auto simp: open_ctxs_def nth_list_update list_update_beyond split: if_splits)

lemma new_stream_props:
  assumes "new_stream kinds w = (sid, v)"
  shows "sid = length (w_streams w)" "w_streams v = w_streams w @ [[length (w_tracks w)..<length (w_tracks v)]]"
    "length (w_tracks v) = length (w_tracks w) + length kinds"
    "live v = live w \<union> {length (w_tracks w)..<length (w_tracks v)}"
    "w_ctx_open v = w_ctx_open w" "w_singles v = w_singles w" "w_mixes v = w_mixes w"
    "i < length (w_tracks w) \<Longrightarrow> w_tracks v ! i = w_tracks w ! i"
  using assms by (auto simp: new_stream_def live_def nth_append split: if_splits)

subsection \<open>Dropping the video tracks\<close>

lemma remove_stop_fold:
  fixes ids :: "nat list"
  assumes "sid < length (w_streams w)"
  defines "v \<equiv> foldl (\<lambda>w i. removeTrack sid i (track_stop i w)) w ids"
  shows "live v = live w - set ids"
    and "w_streams v = (w_streams w)[sid := filter (\<lambda>j. j \<notin> set ids) (w_streams w ! sid)]"
    and "length (w_tracks v) = length (w_tracks w)" and "w_ctx_open v = w_ctx_open w"
    and "w_singles v = w_singles w" and "w_mixes v = w_mixes w"
    and "tk_kind (w_tracks v ! j) = tk_kind (w_tracks w ! j)"
proof -
  have live: "live (removeTrack sid i u) = live u" for i u by (simp add: removeTrack_def live_def)
  show "live v = live w - set ids"
    unfolding v_def by (induction ids rule: rev_induct) (auto simp: live)
  show "w_streams v = (w_streams w)[sid := filter (\<lambda>j. j \<notin> set ids) (w_streams w ! sid)]"
    unfolding v_def
  proof (induction ids rule: rev_induct)
    case Nil
    show ?case by simp
  next
    case (snoc i ids)
    have "filter (\<lambda>j. j \<notin> set ids \<and> j \<noteq> i) xs = filter (\<lambda>j. j \<noteq> i \<and> j \<notin> set ids) xs" for xs
      by (rule filter_cong) auto
    then show ?case using snoc assms(1) by (simp add: removeTrack_def)
  qed
  show "length (w_tracks v) = length (w_tracks w)" and "w_ctx_open v = w_ctx_open w"
    and "w_singles v = w_singles w" and "w_mixes v = w_mixes w"
    and "tk_kind (w_tracks v ! j) = tk_kind (w_tracks w ! j)"
    unfolding v_def by (induction ids rule: rev_induct; simp add: removeTrack_def)+
qed

lemma drop_video_props:
  assumes "sid < length (w_streams w)"
  shows "live (drop_video sid w) = live w - set (tracks_of_kind VideoTrack sid w)"
    "getTracks sid (drop_video sid w) = tracks_of_kind AudioTrack sid w"
    "tracks_of_kind AudioTrack sid (drop_video sid w) = tracks_of_kind AudioTrack sid w"
    "length (w_tracks (drop_video sid w)) = length (w_tracks w)"
    "w_ctx_open (drop_video sid w) = w_ctx_open w" "w_singles (drop_video sid w) = w_singles w"
    "w_mixes (drop_video sid w) = w_mixes w"
    "tk_kind (w_tracks (drop_video sid w) ! j) = tk_kind (w_tracks w ! j)"
    "length (w_streams (drop_video sid w)) = length (w_streams w)"
    "k \<noteq> sid \<Longrightarrow> w_streams (drop_video sid w) ! k = w_streams w ! k"
proof -
  note f = remove_stop_fold [OF assms, of "tracks_of_kind VideoTrack sid w"]
  have "k \<noteq> VideoTrack \<longleftrightarrow> k = AudioTrack" for k by (cases k) simp_all
  then have "filter (\<lambda>j. j \<notin> set (tracks_of_kind VideoTrack sid w)) (w_streams w ! sid)
      = tracks_of_kind AudioTrack sid w"
    unfolding tracks_of_kind_def getTracks_def by (intro filter_cong) auto
  then show tr: "getTracks sid (drop_video sid w) = tracks_of_kind AudioTrack sid w"
    using assms by (simp add: getTracks_def drop_video_def f(2))
  show kinds: "tk_kind (w_tracks (drop_video sid w) ! j) = tk_kind (w_tracks w ! j)" for j
    by (simp add: drop_video_def f)
  show "tracks_of_kind AudioTrack sid (drop_video sid w) = tracks_of_kind AudioTrack sid w"
    by (simp add: tracks_of_kind_def tr [unfolded tracks_of_kind_def] kinds)
qed (simp_all add: drop_video_def remove_stop_fold [OF assms])

subsection \<open>The contract of a session\<close>

text \<open>
  What \<open>CaptureSession.stop\<close> promises (types.ts): stopping ends the session, releases every device
  track it holds and no other, and a second stop changes nothing. Both kinds of session are
  interpretations.
\<close>

locale capture_session =
  fixes halt :: "world \<Rightarrow> world" and holds :: "world \<Rightarrow> nat set"
    and over :: "world \<Rightarrow> bool" and valid :: "world \<Rightarrow> bool"
  assumes valid_halt: "valid w \<Longrightarrow> valid (halt w)"
    and over_halt: "valid w \<Longrightarrow> over (halt w)"
    and halt_over: "valid w \<Longrightarrow> over w \<Longrightarrow> halt w = w"
    and live_halt: "valid w \<Longrightarrow> \<not> over w \<Longrightarrow> live (halt w) = live w - holds w"
begin

lemma halt_halt: "valid w \<Longrightarrow> halt (halt w) = halt w"
  by (simp add: halt_over over_halt valid_halt)

lemma halt_releases: "valid w \<Longrightarrow> \<not> over w \<Longrightarrow> live w \<subseteq> base \<union> holds w \<Longrightarrow> base \<inter> holds w = {}
    \<Longrightarrow> base \<subseteq> live w \<Longrightarrow> live (halt w) = base"
  by (auto simp: live_halt)

end

definition single_holds :: "nat \<Rightarrow> world \<Rightarrow> nat set" where
  "single_holds i w = set (getTracks (ss_stream (w_singles w ! i)) w)"

lemma stop_single_frame [simp]:
  "w_streams (stop_single i w) = w_streams w" "w_ctx_open (stop_single i w) = w_ctx_open w"
  "w_mixes (stop_single i w) = w_mixes w" "length (w_singles (stop_single i w)) = length (w_singles w)"
  "ss_stream (w_singles (stop_single i w) ! j) = ss_stream (w_singles w ! j)"
  "j \<noteq> i \<Longrightarrow> w_singles (stop_single i w) ! j = w_singles w ! j"
proof -
  show "ss_stream (w_singles (stop_single i w) ! j) = ss_stream (w_singles w ! j)"
    by (cases "i < length (w_singles w)")
      (auto simp: stop_single_def Let_def nth_list_update list_update_beyond)
qed (simp_all add: stop_single_def Let_def)

lemma live_stop_single:
  "\<not> ss_stopped (w_singles w ! i) \<Longrightarrow> live (stop_single i w) = live w - single_holds i w"
  by (simp add: stop_single_def Let_def single_holds_def)

interpretation single: capture_session "stop_single i" "single_holds i"
  "\<lambda>w. ss_stopped (w_singles w ! i)" "\<lambda>w. i < length (w_singles w)" for i
proof unfold_locales
  fix w
  show "i < length (w_singles w) \<Longrightarrow> ss_stopped (w_singles (stop_single i w) ! i)"
    by (simp add: stop_single_def Let_def)
  show "ss_stopped (w_singles w ! i) \<Longrightarrow> stop_single i w = w"
    by (simp add: stop_single_def Let_def)
qed (simp_all add: live_stop_single)

definition mixed_holds :: "nat \<Rightarrow> world \<Rightarrow> nat set" where
  "mixed_holds i w = single_holds (ms_mic (w_mixes w ! i)) w \<union> single_holds (ms_tab (w_mixes w ! i)) w"

definition mixed_valid :: "nat \<Rightarrow> world \<Rightarrow> bool" where
  "mixed_valid i w \<longleftrightarrow> i < length (w_mixes w) \<and> ms_mic (w_mixes w ! i) \<noteq> ms_tab (w_mixes w ! i)
     \<and> (\<not> ms_stopped (w_mixes w ! i) \<longrightarrow> \<not> ss_stopped (w_singles w ! ms_mic (w_mixes w ! i))
          \<and> \<not> ss_stopped (w_singles w ! ms_tab (w_mixes w ! i)))"

lemma stop_mixed_ctx:
  "\<not> ms_stopped (w_mixes w ! i) \<Longrightarrow> open_ctxs (stop_mixed i w) = open_ctxs w - {ms_ctx (w_mixes w ! i)}"
  by (subst open_ctxs_close [symmetric]) (simp add: stop_mixed_def Let_def open_ctxs_def)

lemma live_stop_mixed:
  assumes "mixed_valid i w" and "\<not> ms_stopped (w_mixes w ! i)"
  shows "live (stop_mixed i w) = live w - mixed_holds i w"
proof -
  define m where "m = w_mixes w ! i"
  define u where "u = w\<lparr>w_mixes := (w_mixes w)[i := m\<lparr>ms_stopped := True\<rparr>],
    w_ctx_open := (w_ctx_open w)[ms_ctx m := False]\<rparr>"
  have u: "w_singles u = w_singles w" "live u = live w" "single_holds j u = single_holds j w" for j
    by (simp_all add: u_def live_def single_holds_def getTracks_def)
  have ne: "ms_tab m \<noteq> ms_mic m" and open_mic: "\<not> ss_stopped (w_singles u ! ms_mic m)"
    and open_tab: "\<not> ss_stopped (w_singles (stop_single (ms_mic m) u) ! ms_tab m)"
    using assms by (auto simp: mixed_valid_def m_def u)
  have "stop_mixed i w = stop_single (ms_tab m) (stop_single (ms_mic m) u)"
    using assms(2) by (simp add: stop_mixed_def Let_def m_def u_def)
  then have "live (stop_mixed i w)
      = live u - single_holds (ms_mic m) u - single_holds (ms_tab m) (stop_single (ms_mic m) u)"
    using open_mic open_tab by (simp add: live_stop_single)
  also have "single_holds (ms_tab m) (stop_single (ms_mic m) u) = single_holds (ms_tab m) u"
    by (simp add: single_holds_def getTracks_def)
  finally show ?thesis by (auto simp: u mixed_holds_def m_def)
qed

interpretation mixed: capture_session "stop_mixed i" "mixed_holds i"
  "\<lambda>w. ms_stopped (w_mixes w ! i)" "mixed_valid i" for i
proof unfold_locales
  fix w
  assume valid: "mixed_valid i w"
  then have mixes: "w_mixes (stop_mixed i w) ! i = (w_mixes w ! i)\<lparr>ms_stopped := True\<rparr>"
    by (auto simp: stop_mixed_def Let_def mixed_valid_def)
  then show "ms_stopped (w_mixes (stop_mixed i w) ! i)" by simp
  have "length (w_mixes (stop_mixed i w)) = length (w_mixes w)"
    by (simp add: stop_mixed_def Let_def)
  with mixes valid show "mixed_valid i (stop_mixed i w)" by (simp add: mixed_valid_def)
  show "ms_stopped (w_mixes w ! i) \<Longrightarrow> stop_mixed i w = w" by (simp add: stop_mixed_def Let_def)
qed (rule live_stop_mixed)

subsection \<open>What starting acquires\<close>

text \<open>A single-stream start leaves the store as it was but for one fresh stream of live device tracks
  and one fresh session on it.\<close>

definition acquires :: "nat \<Rightarrow> world \<Rightarrow> world \<Rightarrow> bool" where
  "acquires i w v \<longleftrightarrow> i = length (w_singles w)
     \<and> (\<exists>mode. w_singles v = w_singles w @ [\<lparr>ss_stream = length (w_streams w), ss_mode = mode, ss_stopped = False\<rparr>])
     \<and> (\<exists>ids. w_streams v = w_streams w @ [ids] \<and> live v = live w \<union> set ids
          \<and> set ids \<subseteq> {length (w_tracks w)..<length (w_tracks v)})
     \<and> length (w_tracks w) \<le> length (w_tracks v)
     \<and> w_ctx_open v = w_ctx_open w \<and> w_mixes v = w_mixes w"

lemma acquiresD:
  assumes "acquires i w v"
  shows "i < length (w_singles v)" "\<not> ss_stopped (w_singles v ! i)"
    "live v = live w \<union> single_holds i v" "live w \<inter> single_holds i v = {}"
    "open_ctxs v = open_ctxs w"
    "j < length (w_singles w) \<Longrightarrow> w_singles v ! j = w_singles w ! j"
    "k < length (w_streams w) \<Longrightarrow> w_streams v ! k = w_streams w ! k"
    "ss_stream (w_singles v ! i) < length (w_streams v)"
  using assms by (auto simp: acquires_def single_holds_def getTracks_def open_ctxs_def nth_append
      dest: live_bound) (fastforce dest: live_bound)

lemma startMicrophone_acquires:
  "startMicrophone pl req w = (Inr i, v) \<Longrightarrow> acquires i w v"
proof -
  assume st: "startMicrophone pl req w = (Inr i, v)"
  then obtain kinds where k: "pl_getUserMedia pl (audioConstraintsFromRequest req) = Inr kinds"
    by (auto simp: startMicrophone_def split: sum.splits)
  obtain sid u where u: "new_stream kinds w = (sid, u)" by fastforce
  note p = new_stream_props [OF u]
  from st k u have "i = length (w_singles u)" "v = snd (sessionFromSingleStream sid Microphone u)"
    by (simp_all add: startMicrophone_def sessionFromSingleStream_def)
  then show ?thesis
    using p by (auto simp: acquires_def sessionFromSingleStream_def live_def)
qed

text \<open>The stream of a shared tab after the video tracks are gone: its live tracks are the fresh audio
  tracks, and nothing else has become live.\<close>

lemma shared_tab_props:
  assumes "new_stream kinds w = (sid, u)"
  defines "v \<equiv> drop_video sid u"
  shows "sid = length (w_streams w)" "w_streams v = w_streams w @ [getTracks sid v]"
    "live v = live w \<union> set (getTracks sid v)" "getTracks sid v = tracks_of_kind AudioTrack sid v"
    "set (getTracks sid v) \<subseteq> {length (w_tracks w)..<length (w_tracks v)}"
    "length (w_tracks w) \<le> length (w_tracks v)" "w_ctx_open v = w_ctx_open w"
    "w_singles v = w_singles w" "w_mixes v = w_mixes w"
    "list_all (\<lambda>i. tk_kind (w_tracks v ! i) = AudioTrack) (getTracks sid v)"
proof -
  note p = new_stream_props [OF assms(1)]
  have sid: "sid < length (w_streams u)" using p by simp
  note d = drop_video_props [OF sid, folded v_def]
  have fresh: "getTracks sid u = [length (w_tracks w)..<length (w_tracks u)]"
    using p by (simp add: getTracks_def nth_append)
  have nv: "k = VideoTrack \<longleftrightarrow> k \<noteq> AudioTrack" for k by (cases k) simp_all
  have audio: "set (tracks_of_kind AudioTrack sid u) = {length (w_tracks w)..<length (w_tracks u)}
      - set (tracks_of_kind VideoTrack sid u)"
    unfolding tracks_of_kind_def fresh nv by auto
  have old: "live w \<inter> set (tracks_of_kind VideoTrack sid u) = {}"
    unfolding tracks_of_kind_def fresh by (auto dest: live_bound)
  show "sid = length (w_streams w)" by (rule p(1))
  show streams: "w_streams v = w_streams w @ [getTracks sid v]"
  proof (rule nth_equalityI)
    show len: "length (w_streams v) = length (w_streams w @ [getTracks sid v])" using d p by simp
    fix k
    assume "k < length (w_streams v)"
    then show "w_streams v ! k = (w_streams w @ [getTracks sid v]) ! k"
      using len d(10) p(1,2) by (cases "k = sid") (simp_all add: nth_append getTracks_def)
  qed
  show "live v = live w \<union> set (getTracks sid v)"
    unfolding d(1,2) p(4) audio using old by blast
  show "getTracks sid v = tracks_of_kind AudioTrack sid v" using d(2,3) by simp
  show "set (getTracks sid v) \<subseteq> {length (w_tracks w)..<length (w_tracks v)}"
    using d(2,4) fresh by (auto simp: tracks_of_kind_def)
  show "length (w_tracks w) \<le> length (w_tracks v)" using d p by simp
  show "w_ctx_open v = w_ctx_open w" "w_singles v = w_singles w" "w_mixes v = w_mixes w"
    using d p by simp_all
  show "list_all (\<lambda>i. tk_kind (w_tracks v ! i) = AudioTrack) (getTracks sid v)"
    using d(2,8) by (auto simp: list_all_iff tracks_of_kind_def)
qed

lemma startBrowserTab_acquires:
  assumes "startBrowserTab pl w = (Inr i, v)"
  shows "acquires i w v" "\<forall>j \<in> single_holds i v. tk_kind (w_tracks v ! j) = AudioTrack"
proof -
  obtain kinds where k: "pl_hasGetDisplayMedia pl" "pl_getDisplayMedia pl = Inr kinds"
    using assms by (auto simp: startBrowserTab_def split: sum.splits if_splits)
  obtain sid u where u: "new_stream kinds w = (sid, u)" by fastforce
  note t = shared_tab_props [OF u]
  from assms k u have v: "i = length (w_singles w)" "v = snd (sessionFromSingleStream sid BrowserTab (drop_video sid u))"
    using t(8) by (auto simp: startBrowserTab_def sessionFromSingleStream_def Let_def split: if_splits)
  with t show "acquires i w v"
    by (auto simp: acquires_def sessionFromSingleStream_def)
  show "\<forall>j \<in> single_holds i v. tk_kind (w_tracks v ! j) = AudioTrack"
    using v t(8,10) by (simp add: single_holds_def sessionFromSingleStream_def getTracks_def list_all_iff)
qed

lemma startBrowserTab_fails:
  assumes "startBrowserTab pl w = (Inl e, v)"
  shows "live v = live w" "w_ctx_open v = w_ctx_open w" "w_singles v = w_singles w"
    "k < length (w_streams w) \<Longrightarrow> w_streams v ! k = w_streams w ! k"
    "\<exists>code msg. e = CaptureError code msg \<and> code \<noteq> NoAudioTrack"
    "w_mixes v = w_mixes w" "length (w_streams w) \<le> length (w_streams v)"
proof -
  have code: "\<exists>code msg. translateGetMediaError x = CaptureError code msg \<and> code \<noteq> NoAudioTrack" for x
    by (cases x) (auto simp: translateGetMediaError_def)
  have "live v = live w \<and> w_ctx_open v = w_ctx_open w \<and> w_singles v = w_singles w
      \<and> (\<forall>k < length (w_streams w). w_streams v ! k = w_streams w ! k)
      \<and> (\<exists>code msg. e = CaptureError code msg \<and> code \<noteq> NoAudioTrack)
      \<and> w_mixes v = w_mixes w \<and> length (w_streams w) \<le> length (w_streams v)"
  proof (cases "\<exists>kinds. pl_hasGetDisplayMedia pl \<and> pl_getDisplayMedia pl = Inr kinds")
    case True
    then obtain kinds where k: "pl_hasGetDisplayMedia pl" "pl_getDisplayMedia pl = Inr kinds" by blast
    obtain sid u where u: "new_stream kinds w = (sid, u)" by fastforce
    note t = shared_tab_props [OF u]
    let ?d = "drop_video sid u"
    from assms k u have v: "v = stop_tracks (getTracks sid ?d) ?d"
      "e = translateGetMediaError (CaptureError NoAudioTrack no_audio_message)"
      by (auto simp: startBrowserTab_def Let_def sessionFromSingleStream_def split: if_splits)
    have "live v = live w" using t(3,5) v by (fastforce dest: live_bound)
    with t(2,7,8,9) v show ?thesis by (simp add: translateGetMediaError_def nth_append)
  next
    case False
    with assms code show ?thesis
      by (auto simp: startBrowserTab_def split: sum.splits if_splits)
  qed
  then show "live v = live w" "w_ctx_open v = w_ctx_open w" "w_singles v = w_singles w"
    "k < length (w_streams w) \<Longrightarrow> w_streams v ! k = w_streams w ! k"
    "\<exists>code msg. e = CaptureError code msg \<and> code \<noteq> NoAudioTrack"
    "w_mixes v = w_mixes w" "length (w_streams w) \<le> length (w_streams v)"
    by blast+
qed

lemma startMicrophone_fails:
  assumes "startMicrophone pl req w = (Inl e, v)"
  shows "v = w" "\<exists>code msg. e = CaptureError code msg \<and> code \<noteq> NoAudioTrack"
proof -
  have code: "\<exists>code msg. translateGetMediaError x = CaptureError code msg \<and> code \<noteq> NoAudioTrack" for x
    by (cases x) (auto simp: translateGetMediaError_def)
  with assms show "v = w" "\<exists>code msg. e = CaptureError code msg \<and> code \<noteq> NoAudioTrack"
    by (auto simp: startMicrophone_def new_stream_def sessionFromSingleStream_def split: sum.splits)
qed

lemma later_holds:
  assumes "acquires i w v" and "acquires j v u"
  shows "single_holds i u = single_holds i v" "\<not> ss_stopped (w_singles u ! i)" "i \<noteq> j"
    "live u = live w \<union> (single_holds i u \<union> single_holds j u)"
    "live w \<inter> (single_holds i u \<union> single_holds j u) = {}"
proof -
  note a = acquiresD [OF assms(1)] and b = acquiresD [OF assms(2)]
  show same: "single_holds i u = single_holds i v"
    by (simp add: single_holds_def getTracks_def b(6) [OF a(1)] b(7) [OF a(8)])
  show "\<not> ss_stopped (w_singles u ! i)" using a(2) by (simp add: b(6) [OF a(1)])
  have "j = length (w_singles v)" using assms(2) unfolding acquires_def by (elim conjE)
  with a(1) show "i \<noteq> j" by simp
  show "live u = live w \<union> (single_holds i u \<union> single_holds j u)" unfolding b(3) a(3) same by blast
  show "live w \<inter> (single_holds i u \<union> single_holds j u) = {}" using a(3,4) b(4) unfolding same by blast
qed

lemma mixed_start:
  assumes "startMicrophoneAndTab pl req w = (Inr i, v)"
  shows "mixed_valid i v" "\<not> ms_stopped (w_mixes v ! i)"
    "live v = live w \<union> mixed_holds i v" "live w \<inter> mixed_holds i v = {}"
    "open_ctxs v = insert (ms_ctx (w_mixes v ! i)) (open_ctxs w)" "ms_ctx (w_mixes v ! i) \<notin> open_ctxs w"
proof -
  obtain mic w1 where m: "startMicrophone pl req w = (Inr mic, w1)"
    using assms by (auto simp: startMicrophoneAndTab_def split: prod.splits sum.splits)
  with assms obtain tab w2 where t: "startBrowserTab pl w1 = (Inr tab, w2)"
    by (auto simp: startMicrophoneAndTab_def split: prod.splits sum.splits)
  let ?mix = "\<lparr>ms_ctx = length (w_ctx_open w2), ms_mic = mic, ms_tab = tab, ms_stopped = False\<rparr>"
  have v: "i = length (w_mixes w2)" "v = w2\<lparr>w_ctx_open := w_ctx_open w2 @ [True], w_mixes := w_mixes w2 @ [?mix]\<rparr>"
    using assms m t by (auto simp: startMicrophoneAndTab_def split: option.splits prod.splits bool.splits)
  note a = startMicrophone_acquires [OF m] and b = startBrowserTab_acquires(1) [OF t]
  note h = later_holds [OF a b] and bD = acquiresD [OF b]
  have mix: "w_mixes v ! i = ?mix" using v by simp
  have hold: "single_holds j v = single_holds j w2" for j
    by (simp add: v single_holds_def getTracks_def)
  show "mixed_valid i v" using h(2,3) bD(2) mix by (simp add: mixed_valid_def v)
  show "\<not> ms_stopped (w_mixes v ! i)" using mix by simp
  show "live v = live w \<union> mixed_holds i v" "live w \<inter> mixed_holds i v = {}"
    using h(4,5) mix by (simp_all add: mixed_holds_def hold) (simp_all add: v live_def)
  have "w_ctx_open w2 = w_ctx_open w" using a b by (simp add: acquires_def)
  then show "open_ctxs v = insert (ms_ctx (w_mixes v ! i)) (open_ctxs w)"
    "ms_ctx (w_mixes v ! i) \<notin> open_ctxs w"
    using mix by (auto simp: v open_ctxs_def nth_append)
qed

lemma mixed_start_fails:
  assumes "startMicrophoneAndTab pl req w = (Inl e, v)" and "pl_graph pl = None"
  shows "live v = live w" "open_ctxs v = open_ctxs w"
    "\<exists>code msg. e = CaptureError code msg \<and> code \<noteq> NoAudioTrack"
proof -
  have "live v = live w \<and> open_ctxs v = open_ctxs w
      \<and> (\<exists>code msg. e = CaptureError code msg \<and> code \<noteq> NoAudioTrack)"
  proof (cases "fst (startMicrophone pl req w)")
    case (Inl x)
    then obtain w1 where m: "startMicrophone pl req w = (Inl x, w1)" by (metis prod.collapse)
    with assms(1) have "v = w1" "e = x" by (simp_all add: startMicrophoneAndTab_def)
    with startMicrophone_fails [OF m] show ?thesis by simp
  next
    case (Inr mic)
    then obtain w1 where m: "startMicrophone pl req w = (Inr mic, w1)" by (metis prod.collapse)
    with assms obtain w2 where t: "startBrowserTab pl w1 = (Inl e, w2)" and v: "v = stop_single mic w2"
      by (auto simp: startMicrophoneAndTab_def split: prod.splits sum.splits)
    note a = acquiresD [OF startMicrophone_acquires [OF m]] and f = startBrowserTab_fails [OF t]
    have "single_holds mic w2 = single_holds mic w1"
      using a(8) f(3,4) by (simp add: single_holds_def getTracks_def)
    then have "live v = live w"
      using a(2-4) f(1,3) v by (simp add: live_stop_single) blast
    with a(5) f(2,5) v show ?thesis by (simp add: open_ctxs_def)
  qed
  then show "live v = live w" "open_ctxs v = open_ctxs w"
    "\<exists>code msg. e = CaptureError code msg \<and> code \<noteq> NoAudioTrack" by blast+
qed

subsection \<open>Properties\<close>

lemma session_of_cases:
  "session_of mk r = (Inr s, v) \<Longrightarrow> \<exists>i. r = (Inr i, v) \<and> s = mk i"
  "session_of mk r = (Inl e, v) \<Longrightarrow> r = (Inl e, v)"
  by (auto simp: session_of_def split: prod.splits sum.splits)

lemma single_stop_spec:
  assumes "acquires i w v"
  shows "live w \<subseteq> live v" "live (stop_single i v) = live w" "open_ctxs (stop_single i v) = open_ctxs w"
    "stop_single i (stop_single i v) = stop_single i v"
proof -
  note a = acquiresD [OF assms]
  show "live w \<subseteq> live v" using a(3) by blast
  show "live (stop_single i v) = live w"
    by (rule single.halt_releases [OF a(1,2)]) (use a(3,4) in blast)+
  show "open_ctxs (stop_single i v) = open_ctxs w" using a(5) by (simp add: open_ctxs_def)
  show "stop_single i (stop_single i v) = stop_single i v" by (rule single.halt_halt [OF a(1)])
qed

lemma mixed_stop_spec:
  assumes "startMicrophoneAndTab pl req w = (Inr i, v)"
  shows "live w \<subseteq> live v" "live (stop_mixed i v) = live w" "open_ctxs (stop_mixed i v) = open_ctxs w"
    "stop_mixed i (stop_mixed i v) = stop_mixed i v"
proof -
  note m = mixed_start [OF assms]
  show "live w \<subseteq> live v" using m(3) by blast
  show "live (stop_mixed i v) = live w"
    by (rule mixed.halt_releases [OF m(1,2)]) (use m(3,4) in blast)+
  show "open_ctxs (stop_mixed i v) = open_ctxs w" using m(5,6) stop_mixed_ctx [OF m(2)] by simp
  show "stop_mixed i (stop_mixed i v) = stop_mixed i v" by (rule mixed.halt_halt [OF m(1)])
qed

lemma start_stop_spec:
  assumes "start pl req w = (Inr s, v)"
  shows "live w \<subseteq> live v" "live (stop s v) = live w" "open_ctxs (stop s v) = open_ctxs w"
    "stop s (stop s v) = stop s v"
proof -
  have "live w \<subseteq> live v \<and> live (stop s v) = live w \<and> open_ctxs (stop s v) = open_ctxs w
      \<and> stop s (stop s v) = stop s v"
  proof (cases "cr_mode req")
    case Microphone
    with assms obtain i where "startMicrophone pl req w = (Inr i, v)" "s = SingleSession i"
      by (auto simp: start_def dest: session_of_cases)
    then show ?thesis by (simp add: single_stop_spec [OF startMicrophone_acquires])
  next
    case BrowserTab
    with assms obtain i where "startBrowserTab pl w = (Inr i, v)" "s = SingleSession i"
      by (auto simp: start_def dest: session_of_cases)
    then show ?thesis by (simp add: single_stop_spec [OF startBrowserTab_acquires(1)])
  next
    case MicrophoneAndTab
    with assms obtain i where "startMicrophoneAndTab pl req w = (Inr i, v)" "s = MixedSession i"
      by (auto simp: start_def dest: session_of_cases)
    then show ?thesis by (simp add: mixed_stop_spec)
  qed
  then show "live w \<subseteq> live v" "live (stop s v) = live w" "open_ctxs (stop s v) = open_ctxs w"
    "stop s (stop s v) = stop s v" by blast+
qed

lemma start_fails:
  assumes "start pl req w = (Inl e, v)" and "pl_graph pl = None"
  shows "live v = live w" "open_ctxs v = open_ctxs w"
    "\<exists>code msg. e = CaptureError code msg \<and> code \<noteq> NoAudioTrack"
proof -
  have "live v = live w \<and> open_ctxs v = open_ctxs w
      \<and> (\<exists>code msg. e = CaptureError code msg \<and> code \<noteq> NoAudioTrack)"
  proof (cases "cr_mode req")
    case Microphone
    with assms(1) have "startMicrophone pl req w = (Inl e, v)"
      by (auto simp: start_def dest: session_of_cases)
    from startMicrophone_fails [OF this] show ?thesis by blast
  next
    case BrowserTab
    with assms(1) have "startBrowserTab pl w = (Inl e, v)"
      by (auto simp: start_def dest: session_of_cases)
    from startBrowserTab_fails [OF this] show ?thesis by (simp add: open_ctxs_def)
  next
    case MicrophoneAndTab
    with assms(1) have "startMicrophoneAndTab pl req w = (Inl e, v)"
      by (auto simp: start_def dest: session_of_cases)
    from mixed_start_fails [OF this assms(2)] show ?thesis by blast
  qed
  then show "live v = live w" "open_ctxs v = open_ctxs w"
    "\<exists>code msg. e = CaptureError code msg \<and> code \<noteq> NoAudioTrack" by blast+
qed

text \<open>C15. Stopping releases everything, in every mode: after a successful start, stopping the session
  leaves live exactly the device tracks that were live before, closes exactly the audio context the
  session opened, and a second stop changes nothing.\<close>

theorem capture_stop_releases:
  "case start pl req w of
     (Inl _, _) \<Rightarrow> True
   | (Inr s, v) \<Rightarrow> live w \<subseteq> live v \<and> live (stop s v) = live w
       \<and> open_ctxs (stop s v) = open_ctxs w \<and> stop s (stop s v) = stop s v"
  by (auto simp: start_stop_spec split: prod.split sum.split dest: subsetD [OF start_stop_spec(1)])

text \<open>C30. A failed start holds nothing: unless the mixing graph itself cannot be built, a rejected
  start leaves exactly the device tracks and audio contexts that were open before (the microphone is
  released again when the tab picker fails), and the rejection is a \<open>CaptureError\<close>.\<close>

theorem capture_failure_releases:
  assumes "pl_graph pl = None"
  shows "case start pl req w of
     (Inr _, _) \<Rightarrow> True
   | (Inl e, v) \<Rightarrow> live v = live w \<and> open_ctxs v = open_ctxs w \<and> (\<exists>code msg. e = CaptureError code msg)"
  using start_fails [OF _ assms, of req w] by (auto split: prod.split sum.split)

definition a_platform :: platform where
  "a_platform = \<lparr>pl_hasGetUserMedia = True, pl_hasGetDisplayMedia = True, pl_hasAudioContext = True,
     pl_getUserMedia = (\<lambda>_. Inr [AudioTrack]), pl_getDisplayMedia = Inr [VideoTrack], pl_graph = None\<rparr>"

definition a_request :: "CaptureMode \<Rightarrow> CaptureRequest" where
  "a_request m = \<lparr>cr_mode = m, cr_audioConstraints = None\<rparr>"

theorem capture_failure_releases_witness:
  "\<exists>e v. start a_platform (a_request MicrophoneAndTab) empty_world = (Inl e, v) \<and> live v = {}"
proof -
  have "pl_graph a_platform = None" by (simp add: a_platform_def)
  moreover obtain e v where st: "start a_platform (a_request MicrophoneAndTab) empty_world = (Inl e, v)"
    by (simp add: start_def session_of_def startMicrophoneAndTab_def startMicrophone_def
        startBrowserTab_def a_platform_def a_request_def new_stream_def sessionFromSingleStream_def
        empty_world_def drop_video_def tracks_of_kind_def getTracks_def removeTrack_def track_stop_def
        Let_def)
  moreover have "live empty_world = {}" by (simp add: live_def empty_world_def)
  ultimately show ?thesis
    using capture_failure_releases [of a_platform empty_world "a_request MicrophoneAndTab"] by simp
qed

text \<open>What the source relies on when it passes \<open>video: false\<close>: the stream has no video track.\<close>

definition mic_audio_only :: "platform \<Rightarrow> bool" where
  "mic_audio_only pl \<longleftrightarrow> (\<forall>c kinds. pl_getUserMedia pl c = Inr kinds \<longrightarrow> VideoTrack \<notin> set kinds)"

lemma startMicrophone_audio:
  assumes "mic_audio_only pl"
    and "startMicrophone pl req w = (Inr i, u)" and "j \<in> live u" and "j \<notin> live w"
  shows "tk_kind (w_tracks u ! j) = AudioTrack"
proof -
  from assms(2) obtain kinds where k: "pl_getUserMedia pl (audioConstraintsFromRequest req) = Inr kinds"
    and u: "w_tracks u = w_tracks w @ map (\<lambda>k. \<lparr>tk_kind = k, tk_live = True\<rparr>) kinds"
    by (auto simp: startMicrophone_def new_stream_def sessionFromSingleStream_def split: sum.splits)
  have j: "\<not> j < length (w_tracks w)" "j - length (w_tracks w) < length kinds"
    using assms(3,4) u by (auto simp: live_def nth_append split: if_splits)
  with assms(1) k have "kinds ! (j - length (w_tracks w)) \<noteq> VideoTrack"
    by (metis mic_audio_only_def nth_mem)
  with j u show ?thesis by (cases "kinds ! (j - length (w_tracks w))") (simp_all add: nth_append)
qed

lemma startBrowserTab_kinds:
  assumes "startBrowserTab pl w = (Inr i, v)" and "j \<in> live v"
  shows "tk_kind (w_tracks v ! j) = AudioTrack \<or> j \<in> live w \<and> tk_kind (w_tracks v ! j) = tk_kind (w_tracks w ! j)"
proof (cases "j \<in> live w")
  case False
  note a = startBrowserTab_acquires [OF assms(1)]
  from False assms(2) acquiresD(3) [OF a(1)] have "j \<in> single_holds i v" by blast
  with a(2) show ?thesis by blast
next
  case True
  obtain kinds sid x where k: "new_stream kinds w = (sid, x)"
    and "w_tracks v = w_tracks (drop_video sid x)"
    using assms(1) by (auto simp: startBrowserTab_def sessionFromSingleStream_def Let_def
        split: sum.splits if_splits prod.splits)
  then have "tk_kind (w_tracks v ! j) = tk_kind (w_tracks w ! j)"
    using new_stream_props [OF k] drop_video_props(8) [of sid x j] live_bound [OF True] by simp
  with True show ?thesis by blast
qed

text \<open>C29. Screen contents are never kept: provided the platform honours \<open>video: false\<close> for the
  microphone, every device track a successful start leaves live, beyond those live before, is an audio
  track.\<close>

theorem no_video_held:
  assumes "mic_audio_only pl"
    and "start pl req w = (Inr s, v)" and "j \<in> live v" and "j \<notin> live w"
  shows "tk_kind (w_tracks v ! j) = AudioTrack"
proof (cases "cr_mode req")
  case Microphone
  with assms(2) obtain i where "startMicrophone pl req w = (Inr i, v)"
    by (auto simp: start_def dest: session_of_cases)
  from startMicrophone_audio [OF assms(1) this assms(3,4)] show ?thesis by blast
next
  case BrowserTab
  with assms(2) obtain i where "startBrowserTab pl w = (Inr i, v)"
    by (auto simp: start_def dest: session_of_cases)
  from startBrowserTab_kinds [OF this assms(3)] assms(4) show ?thesis by blast
next
  case MicrophoneAndTab
  with assms(2) obtain i where "startMicrophoneAndTab pl req w = (Inr i, v)"
    by (auto simp: start_def dest: session_of_cases)
  then obtain mi w1 ti w2 where st: "startMicrophone pl req w = (Inr mi, w1)"
    "startBrowserTab pl w1 = (Inr ti, w2)" and v: "w_tracks v = w_tracks w2"
    by (auto simp: startMicrophoneAndTab_def split: prod.splits sum.splits option.splits bool.splits)
  from assms(3) v have "j \<in> live w2" by (simp add: live_def)
  from startBrowserTab_kinds [OF st(2) this] startMicrophone_audio [OF assms(1) st(1) _ assms(4)] v
  show ?thesis by auto
qed

theorem no_video_held_witness:
  "\<exists>s v. start (a_platform\<lparr>pl_getDisplayMedia := Inr [VideoTrack, AudioTrack]\<rparr>) (a_request BrowserTab) empty_world
      = (Inr s, v) \<and> 1 \<in> live v \<and> tk_kind (w_tracks v ! 1) = AudioTrack"
proof -
  let ?pl = "a_platform\<lparr>pl_getDisplayMedia := Inr [VideoTrack, AudioTrack]\<rparr>"
  let ?tracks = "[\<lparr>tk_kind = VideoTrack, tk_live = False\<rparr>, \<lparr>tk_kind = AudioTrack, tk_live = True\<rparr>]"
  obtain s v where st: "start ?pl (a_request BrowserTab) empty_world = (Inr s, v)"
    and tracks: "w_tracks v = ?tracks"
    by (simp add: start_def session_of_def startBrowserTab_def a_platform_def a_request_def new_stream_def
        sessionFromSingleStream_def empty_world_def drop_video_def tracks_of_kind_def getTracks_def
        removeTrack_def track_stop_def Let_def upt_rec)
  have mic: "mic_audio_only ?pl" by (simp add: mic_audio_only_def a_platform_def)
  have "1 \<in> live v" using tracks by (simp add: live_def)
  moreover have "1 \<notin> live empty_world" by (simp add: live_def empty_world_def)
  ultimately show ?thesis using no_video_held [OF mic st] st by blast
qed

text \<open>The dedicated error for a tab shared without its audio never reaches the caller: it is
  thrown inside the \<open>try\<close> block whose handler turns every \<open>Error\<close> into the internal code, so such a
  share is reported as an internal failure, and no platform makes \<open>start\<close> reject with the code
  \<open>no-audio-track\<close>, in any mode.\<close>

lemma no_audio_track_masked:
  assumes "pl_graph pl = None"
  shows "(case start pl req w of (Inl (CaptureError code _), _) \<Rightarrow> code \<noteq> NoAudioTrack | _ \<Rightarrow> True)
    \<and> fst (start (a_platform\<lparr>pl_getDisplayMedia := Inr [VideoTrack]\<rparr>) (a_request BrowserTab) w)
        = Inl (CaptureError Internal no_audio_message)"
proof -
  have "code \<noteq> NoAudioTrack" if "start pl req w = (Inl (CaptureError code msg), v)" for code msg v
    using start_fails(3) [OF that assms] by simp
  then have "case start pl req w of (Inl (CaptureError code _), _) \<Rightarrow> code \<noteq> NoAudioTrack | _ \<Rightarrow> True"
    by (auto split: prod.split sum.split js_error.split)
  moreover have "tracks_of_kind AudioTrack sid (drop_video sid u) = []"
    if "new_stream [VideoTrack] w = (sid, u)" for sid u
  proof -
    have "sid < length (w_streams u)" using that by (auto simp: new_stream_def)
    from drop_video_props(3) [OF this] that show ?thesis
      by (auto simp: new_stream_def tracks_of_kind_def getTracks_def nth_append)
  qed
  then have "fst (startBrowserTab (a_platform\<lparr>pl_getDisplayMedia := Inr [VideoTrack]\<rparr>) w)
      = Inl (CaptureError Internal no_audio_message)"
    by (auto simp: startBrowserTab_def a_platform_def translateGetMediaError_def Let_def split: prod.split)
  then have "fst (start (a_platform\<lparr>pl_getDisplayMedia := Inr [VideoTrack]\<rparr>) (a_request BrowserTab) w)
      = Inl (CaptureError Internal no_audio_message)"
    by (auto simp: start_def a_request_def session_of_def split: prod.splits)
  ultimately show ?thesis by blast
qed

lemma no_audio_track_masked_witness:
  "fst (start a_platform (a_request BrowserTab) empty_world) = Inl (CaptureError Internal no_audio_message)"
proof -
  have "a_platform\<lparr>pl_getDisplayMedia := Inr [VideoTrack]\<rparr> = a_platform" "pl_graph a_platform = None"
    by (simp_all add: a_platform_def)
  with no_audio_track_masked [of a_platform "a_request BrowserTab" empty_world] show ?thesis by simp
qed

text \<open>When both sources are granted but the mixing graph cannot be built, the rejection leaves the
  microphone and the tab capture live: no session is returned that could stop them, unlike the failure
  of the tab picker, which is rolled back.\<close>

lemma graph_failure_leaks:
  assumes "startMicrophone pl req w = (Inr mic, w1)" and "startBrowserTab pl w1 = (Inr tab, w2)"
    and "pl_graph pl = Some (constructed, e)" and "cr_mode req = MicrophoneAndTab"
  shows "\<exists>v. start pl req w = (Inl e, v) \<and> live v = live w \<union> (single_holds mic w2 \<union> single_holds tab w2)
    \<and> live w \<inter> (single_holds mic w2 \<union> single_holds tab w2) = {}"
proof -
  note h = later_holds [OF startMicrophone_acquires [OF assms(1)] startBrowserTab_acquires(1) [OF assms(2)]]
  have "\<exists>v. start pl req w = (Inl e, v) \<and> live v = live w2"
    using assms by (cases constructed) (simp_all add: start_def startMicrophoneAndTab_def session_of_def)
  with h(4,5) show ?thesis by auto
qed

lemma graph_failure_leaks_witness:
  "\<exists>v. start (a_platform\<lparr>pl_getDisplayMedia := Inr [VideoTrack, AudioTrack],
        pl_graph := Some (False, DOMException ''NotSupportedError'' [])\<rparr>)
      (a_request MicrophoneAndTab) empty_world = (Inl (DOMException ''NotSupportedError'' []), v)"
proof -
  let ?pl = "a_platform\<lparr>pl_getDisplayMedia := Inr [VideoTrack, AudioTrack],
        pl_graph := Some (False, DOMException ''NotSupportedError'' [])\<rparr>"
  let ?req = "a_request MicrophoneAndTab"
  obtain mic w1 where m: "startMicrophone ?pl ?req empty_world = (Inr mic, w1)"
    by (simp add: startMicrophone_def a_platform_def new_stream_def sessionFromSingleStream_def)
  obtain tab w2 where t: "startBrowserTab ?pl w1 = (Inr tab, w2)"
  proof (cases "startBrowserTab ?pl w1")
    case (Pair r v)
    obtain sid u where u: "new_stream [VideoTrack, AudioTrack] w1 = (sid, u)" by fastforce
    have "sid < length (w_streams u)" using u by (auto simp: new_stream_def)
    from drop_video_props(3) [OF this] u have "tracks_of_kind AudioTrack sid (drop_video sid u) \<noteq> []"
      by (auto simp: new_stream_def tracks_of_kind_def getTracks_def nth_append)
    with Pair u that show ?thesis
      by (auto simp: startBrowserTab_def a_platform_def Let_def sessionFromSingleStream_def)
  qed
  have "pl_graph ?pl = Some (False, DOMException ''NotSupportedError'' [])" "cr_mode ?req = MicrophoneAndTab"
    by (simp_all add: a_platform_def a_request_def)
  from graph_failure_leaks [OF m t this] show ?thesis by blast
qed

end
