(* ===== verification/Host_Reducer.thy ===== *)
theory Host_Reducer
  imports Auth Hint_Styling Transcript_Stream Audio_Capture
begin

section \<open>The host page's reducer (pages/Host/HostPage.tsx)\<close>

text \<open>
  The state machine behind the host page: \<open>HostState\<close>, \<open>Action\<close> and \<open>reducer\<close>, with the conversion of
  stream events into actions and the values the render computes from the state. The three handles of
  a running meeting are the capture session of \<open>Audio_Capture\<close> and references to the peer connection
  and the subscription.
\<close>

type_synonym handle = nat

definition DEFAULT_RAG_ID :: jsstring where
  "DEFAULT_RAG_ID = []"

definition TRANSCRIPT_TAIL :: nat where
  "TRANSCRIPT_TAIL = 5"

definition HINT_PANEL_SIZE :: nat where
  "HINT_PANEL_SIZE = 5"

definition CURATED_SPEAKER_LABELS :: "jsstring list" where
  "CURATED_SPEAKER_LABELS = [lit ''Host'', lit ''Client'', lit ''Colleague'', lit ''Guest'',
     lit ''Speaker_0'', lit ''Speaker_1'', lit ''Speaker_2'', lit ''Speaker_3'', lit ''Unknown'']"

record TranscriptLine =
  tl_id :: jsstring
  tl_text :: jsstring
  tl_isFinal :: bool
  tl_speaker :: jsstring

record HintEntry =
  hintId :: jsnum
  suggestion :: jsstring
  rationale :: "jsstring option"
  urgency :: HintUrgency
  receivedAt :: jsnum

text \<open>The payload of \<open>MEETING_STARTED\<close> is \<open>ActiveMeeting\<close> less the fields the reducer fills in.\<close>

record StartedMeeting =
  sessionId :: jsstring
  viewerToken :: jsstring
  capture :: CaptureSession
  peer :: handle
  subscription :: handle

record ActiveMeeting = StartedMeeting +
  title :: jsstring
  transcript :: "TranscriptLine list"
  hints :: "HintEntry list"
  showTranscriptPanel :: bool
  speakerOverrides :: "jsstring \<rightharpoonup> jsstring"

record ReadyForm =
  rf_principal :: AuthPrincipal
  rf_ragId :: jsstring
  rf_title :: jsstring
  rf_showTranscriptPanel :: bool

record CreatingForm =
  cf_principal :: AuthPrincipal
  cf_title :: jsstring
  cf_showTranscriptPanel :: bool

datatype HostState =
    LoadingAuth
  | SignedOut
  | Ready ReadyForm
  | Creating CreatingForm
  | ActiveHost AuthPrincipal ActiveMeeting
  | EndingHost AuthPrincipal ActiveMeeting
  | HostError "AuthPrincipal option" jsstring

datatype form_field = RagIdField | TitleField

datatype Action =
    AUTH_RESOLVED "AuthPrincipal option"
  | FORM_FIELD_CHANGED form_field jsstring
  | TRANSCRIPT_PANEL_TOGGLED bool
  | CREATE_REQUESTED
  | MEETING_STARTED StartedMeeting
  | TRANSCRIPT_LINE TranscriptLine
  | HINT_RECEIVED HintEntry
  | SPEAKER_LABEL_ASSIGNED jsstring jsstring
  | END_REQUESTED
  | MEETING_ENDED
  | ERROR_RAISED jsstring
  | ERROR_CLEARED

definition fresh_form :: "AuthPrincipal \<Rightarrow> jsstring \<Rightarrow> HostState" where
  "fresh_form p ragId = Ready \<lparr>rf_principal = p, rf_ragId = ragId, rf_title = [], rf_showTranscriptPanel = False\<rparr>"

text \<open>\<open>"principal" in state ? state.principal : null\<close>.\<close>

fun state_principal :: "HostState \<Rightarrow> AuthPrincipal option" where
  "state_principal (Ready f) = Some (rf_principal f)"
| "state_principal (Creating f) = Some (cf_principal f)"
| "state_principal (ActiveHost p _) = Some p"
| "state_principal (EndingHost p _) = Some p"
| "state_principal (HostError p _) = p"
| "state_principal _ = None"

text \<open>\<open>line.id.split(":")[0]\<close>.\<close>

abbreviation numericId :: "TranscriptLine \<Rightarrow> jsstring" where
  "numericId l \<equiv> before_colon (tl_id l)"

definition start_meeting :: "CreatingForm \<Rightarrow> StartedMeeting \<Rightarrow> ActiveMeeting" where
  "start_meeting f m = \<lparr>sessionId = sessionId m, viewerToken = viewerToken m, capture = capture m,
     peer = peer m, subscription = subscription m, title = cf_title f, transcript = [], hints = [],
     showTranscriptPanel = cf_showTranscriptPanel f, speakerOverrides = Map.empty\<rparr>"

fun reducer :: "HostState \<Rightarrow> Action \<Rightarrow> HostState" where
  "reducer state (AUTH_RESOLVED who) = (case who of
     None \<Rightarrow> SignedOut
   | Some p \<Rightarrow> fresh_form p DEFAULT_RAG_ID)"
| "reducer state (FORM_FIELD_CHANGED field value) = (case state of
     Ready f \<Rightarrow> (case field of
         RagIdField \<Rightarrow> Ready (f\<lparr>rf_ragId := value\<rparr>)
       | TitleField \<Rightarrow> Ready (f\<lparr>rf_title := value\<rparr>))
   | _ \<Rightarrow> state)"
| "reducer state (TRANSCRIPT_PANEL_TOGGLED value) = (case state of
     Ready f \<Rightarrow> Ready (f\<lparr>rf_showTranscriptPanel := value\<rparr>)
   | _ \<Rightarrow> state)"
| "reducer state CREATE_REQUESTED = (case state of
     Ready f \<Rightarrow> Creating \<lparr>cf_principal = rf_principal f, cf_title = rf_title f,
       cf_showTranscriptPanel = rf_showTranscriptPanel f\<rparr>
   | _ \<Rightarrow> state)"
| "reducer state (MEETING_STARTED m) = (case state of
     Creating f \<Rightarrow> ActiveHost (cf_principal f) (start_meeting f m)
   | _ \<Rightarrow> state)"
| "reducer state (HINT_RECEIVED hint) = (case state of
     ActiveHost p m \<Rightarrow>
       ActiveHost p (m\<lparr>hints := slice_last HINT_PANEL_SIZE (upsert hintId hint (hints m))\<rparr>)
   | _ \<Rightarrow> state)"
| "reducer state (TRANSCRIPT_LINE line) = (case state of
     ActiveHost p m \<Rightarrow>
       ActiveHost p (m\<lparr>transcript := upsert numericId line (transcript m)\<rparr>)
   | _ \<Rightarrow> state)"
| "reducer state (SPEAKER_LABEL_ASSIGNED originalLabel curatedLabel) = (case state of
     ActiveHost p m \<Rightarrow>
       (if curatedLabel \<noteq> [] \<and> curatedLabel \<notin> set CURATED_SPEAKER_LABELS then state
        else ActiveHost p (m\<lparr>speakerOverrides :=
          (if curatedLabel = [] then (speakerOverrides m)(originalLabel := None)
           else (speakerOverrides m)(originalLabel \<mapsto> curatedLabel))\<rparr>))
   | _ \<Rightarrow> state)"
| "reducer state END_REQUESTED = (case state of
     ActiveHost p m \<Rightarrow> EndingHost p m
   | _ \<Rightarrow> state)"
| "reducer state MEETING_ENDED =
     (let who = (case state of
          ActiveHost p _ \<Rightarrow> Some p | EndingHost p _ \<Rightarrow> Some p
        | Ready f \<Rightarrow> Some (rf_principal f) | Creating f \<Rightarrow> Some (cf_principal f)
        | _ \<Rightarrow> None)
      in case who of None \<Rightarrow> SignedOut | Some p \<Rightarrow> fresh_form p [])"
| "reducer state (ERROR_RAISED message) = HostError (state_principal state) message"
| "reducer state ERROR_CLEARED = (case state of
     HostError None _ \<Rightarrow> SignedOut
   | HostError (Some p) _ \<Rightarrow> fresh_form p []
   | _ \<Rightarrow> state)"

text \<open>\<open>transcriptLineFromEvent\<close>, and the \<open>onEvent\<close> callback of the host's own subscription: the
  actions it dispatches. The generated message always carries a speaker label, so the \<open>??\<close> default
  of the source is never taken.\<close>

definition line_of :: "TranscriptEvent \<Rightarrow> TranscriptLine" where
  "line_of t = \<lparr>tl_id = num_string (te_segmentId t) @ lit '':'' @
       (if te_isFinal t then lit ''final'' else lit ''interim''),
     tl_text = te_text t, tl_isFinal = te_isFinal t, tl_speaker = te_speakerLabel t\<rparr>"

fun transcriptLineFromEvent :: "ViewerEvent \<Rightarrow> TranscriptLine option" where
  "transcriptLineFromEvent (VTranscript t) = Some (line_of t)"
| "transcriptLineFromEvent _ = None"

definition hint_entry :: "jsnum \<Rightarrow> HintEvent \<Rightarrow> HintEntry" where
  "hint_entry date_now h = \<lparr>hintId = he_hintId h, suggestion = he_suggestion h,
     rationale = he_rationale h, urgency = he_urgency h, receivedAt = date_now\<rparr>"

fun onEvent :: "jsnum \<Rightarrow> ViewerEvent \<Rightarrow> Action list" where
  "onEvent date_now (VTranscript t) =
     (case transcriptLineFromEvent (VTranscript t) of Some l \<Rightarrow> [TRANSCRIPT_LINE l] | None \<Rightarrow> [])"
| "onEvent date_now (VHint h) = [HINT_RECEIVED (hint_entry date_now h)]"
| "onEvent date_now (VState s) = []"

subsection \<open>What the render shows\<close>

definition shown_lines :: "ActiveMeeting \<Rightarrow> (jsstring \<times> TranscriptLine) list" where
  "shown_lines m = (if \<not> showTranscriptPanel m then []
     else map (\<lambda>l. (case speakerOverrides m (tl_speaker l) of Some d \<Rightarrow> d | None \<Rightarrow> tl_speaker l, l))
       (drop (length (transcript m) - TRANSCRIPT_TAIL) (transcript m)))"

definition HintPanel :: "HintEntry list \<Rightarrow> (HintStyleSpec \<times> HintEntry) list" where
  "HintPanel hs = map (\<lambda>h. (hintStyleForUrgency (urgency h), h)) (rev hs)"

definition SpeakerLabelPanel ::
  "TranscriptLine list \<Rightarrow> (jsstring \<rightharpoonup> jsstring) \<Rightarrow> (jsstring \<times> jsstring) list option" where
  "SpeakerLabelPanel ls overrides =
     (let labels = distinct_loop [] (map tl_speaker ls)
      in if labels = [] then None
         else Some (map (\<lambda>l. (l, case overrides l of Some d \<Rightarrow> d | None \<Rightarrow> [])) labels))"

subsection \<open>Lemmas on the machine\<close>

abbreviation dispatch :: "Action \<Rightarrow> HostState \<Rightarrow> HostState" where
  "dispatch a s \<equiv> reducer s a"

fun meeting_of :: "HostState \<Rightarrow> ActiveMeeting option" where
  "meeting_of (ActiveHost _ m) = Some m"
| "meeting_of (EndingHost _ m) = Some m"
| "meeting_of _ = None"

lemma meeting_of_fresh_form [simp]: "meeting_of (fresh_form p r) = None"
  by (simp add: fresh_form_def)

definition meeting_ok :: "ActiveMeeting \<Rightarrow> bool" where
  "meeting_ok m \<longleftrightarrow> length (hints m) \<le> HINT_PANEL_SIZE \<and> distinct (map hintId (hints m))
     \<and> distinct (map numericId (transcript m))
     \<and> ran (speakerOverrides m) \<subseteq> set CURATED_SPEAKER_LABELS"

definition host_ok :: "HostState \<Rightarrow> bool" where
  "host_ok s \<longleftrightarrow> pred_option meeting_ok (meeting_of s)"

lemma host_ok_simps [simp]:
  "host_ok (ActiveHost p m) = meeting_ok m" "host_ok (EndingHost p m) = meeting_ok m"
  "host_ok (Ready f)" "host_ok (Creating c)" "host_ok (HostError q msg)" "host_ok SignedOut"
  "host_ok LoadingAuth" "host_ok (fresh_form p r)"
  by (simp_all add: host_ok_def)

lemma meeting_ok_start [simp]: "meeting_ok (start_meeting f m)"
  by (simp add: meeting_ok_def start_meeting_def)

lemma meeting_ok_hint:
  "meeting_ok m \<Longrightarrow> meeting_ok (m\<lparr>hints := slice_last HINT_PANEL_SIZE (upsert hintId h (hints m))\<rparr>)"
  by (simp add: meeting_ok_def distinct_map_slice_last distinct_upsert)

lemma meeting_ok_line:
  "meeting_ok m \<Longrightarrow> meeting_ok (m\<lparr>transcript := upsert numericId l (transcript m)\<rparr>)"
  by (simp add: meeting_ok_def distinct_upsert)

lemma meeting_ok_label:
  "meeting_ok m \<Longrightarrow> new \<in> set CURATED_SPEAKER_LABELS
     \<Longrightarrow> meeting_ok (m\<lparr>speakerOverrides := (speakerOverrides m)(old \<mapsto> new)\<rparr>)"
  by (auto simp: meeting_ok_def ran_def)

lemma meeting_ok_unlabel:
  "meeting_ok m \<Longrightarrow> meeting_ok (m\<lparr>speakerOverrides := (speakerOverrides m)(old := None)\<rparr>)"
  by (auto simp: meeting_ok_def ran_def)

lemmas meeting_ok_intros = meeting_ok_hint meeting_ok_line meeting_ok_label meeting_ok_unlabel

interpretation host: machine dispatch "\<lambda>s. s = LoadingAuth" host_ok
proof unfold_locales
  fix s a
  assume "host_ok s"
  then show "host_ok (dispatch a s)"
    by (cases a; cases s)
      (auto simp: Let_def intro: meeting_ok_intros split: option.splits form_field.splits)
qed simp

subsection \<open>Invariant\<close>

lemma shown_lines_labels:
  assumes "ran (speakerOverrides m) \<subseteq> set CURATED_SPEAKER_LABELS"
  shows "list_all (\<lambda>(shown, l). shown = tl_speaker l \<or> shown \<in> set CURATED_SPEAKER_LABELS) (shown_lines m)"
  using assms by (auto simp: shown_lines_def list_all_iff ran_def split: option.splits)

text \<open>C9. After any sequence of actions, in any order, a meeting the page holds is well formed: at most
  five hints with distinct ids, one transcript line per segment, speaker overrides only from the
  curated list; and of the at most five lines on screen each is labelled with the detected label or a
  curated one, never with other text.\<close>

theorem host_invariant:
  "case meeting_of (run dispatch acts LoadingAuth) of
     None \<Rightarrow> True
   | Some m \<Rightarrow> length (hints m) \<le> 5 \<and> distinct (map hintId (hints m))
       \<and> distinct (map numericId (transcript m))
       \<and> ran (speakerOverrides m) \<subseteq> set CURATED_SPEAKER_LABELS
       \<and> length (shown_lines m) \<le> 5
       \<and> list_all (\<lambda>(shown, l). shown = tl_speaker l \<or> shown \<in> set CURATED_SPEAKER_LABELS) (shown_lines m)"
proof -
  have "host_ok (run dispatch acts LoadingAuth)" by (rule host.reach_inv) simp
  then show ?thesis
    by (auto simp: host_ok_def meeting_ok_def HINT_PANEL_SIZE_def shown_lines_labels
        split: option.splits)
      (auto simp: shown_lines_def TRANSCRIPT_TAIL_def)
qed

subsection \<open>A meeting as the history of its stream\<close>

text \<open>The events of the host's subscription, in arrival order, and what they leave in the meeting.\<close>

fun transcripts :: "(jsnum \<times> ViewerEvent) list \<Rightarrow> TranscriptEvent list" where
  "transcripts [] = []"
| "transcripts ((_, VTranscript t) # es) = t # transcripts es"
| "transcripts (_ # es) = transcripts es"

fun hint_entries :: "(jsnum \<times> ViewerEvent) list \<Rightarrow> HintEntry list" where
  "hint_entries [] = []"
| "hint_entries ((now, VHint h) # es) = hint_entry now h # hint_entries es"
| "hint_entries (_ # es) = hint_entries es"

definition stream_actions :: "(jsnum \<times> ViewerEvent) list \<Rightarrow> Action list" where
  "stream_actions es = concat (map (\<lambda>(now, e). onEvent now e) es)"

lemma stream_fold:
  "run dispatch (stream_actions es) (ActiveHost p m) =
     ActiveHost p (m\<lparr>
       hints := foldl (\<lambda>hs h. slice_last HINT_PANEL_SIZE (upsert hintId h hs)) (hints m) (hint_entries es),
       transcript := foldl (\<lambda>ls t. upsert numericId (line_of t) ls) (transcript m) (transcripts es)\<rparr>)"
proof (induction es arbitrary: m)
  case Nil
  then show ?case by (simp add: stream_actions_def)
next
  case (Cons e es)
  obtain now ev where e: "e = (now, ev)" by (cases e)
  have "run dispatch (stream_actions (e # es)) (ActiveHost p m)
      = run dispatch (stream_actions es) (run dispatch (onEvent now ev) (ActiveHost p m))"
    by (simp add: stream_actions_def e)
  with Cons.IH show ?case by (cases ev) (simp_all add: e)
qed

lemma numericId_line_of: "numericId (line_of t) = num_string (te_segmentId t)"
  using before_colon_append [OF num_string_no_colon] by (simp add: line_of_def js_eval)

lemma foldl_upsert_lines:
  "foldl (\<lambda>ls t. upsert numericId (line_of t) ls) [] ts = map line_of (keep_last te_segmentId ts)"
proof -
  have "foldl (\<lambda>ls t. upsert numericId (line_of t) ls) [] ts
      = foldl (\<lambda>ls l. upsert numericId l ls) [] (map line_of ts)"
    by (simp add: foldl_map)
  also have "\<dots> = map line_of (keep_last (numericId \<circ> line_of) ts)"
    by (simp add: foldl_upsert keep_last_map)
  also have "keep_last (numericId \<circ> line_of) ts = keep_last te_segmentId ts"
    by (rule keep_last_cong) (simp add: numericId_line_of num_string_inj)
  finally show ?thesis .
qed

text \<open>C10. The host's transcript refines the stream: from the start of a meeting, whatever events
  arrive, the transcript is, for every segment id, the last version received, in the order of these
  last arrivals, and the hint shelf is the last five of the hints deduplicated by id the same way.
  State changes leave no trace.\<close>

theorem meeting_refines_stream:
  "run dispatch (MEETING_STARTED started # stream_actions es) (Creating f) =
     ActiveHost (cf_principal f) ((start_meeting f started)\<lparr>
       hints := slice_last 5 (keep_last hintId (hint_entries es)),
       transcript := map line_of (keep_last te_segmentId (transcripts es))\<rparr>)"
  using foldl_upsert_window [of 4 hintId "hint_entries es"]
  by (simp add: stream_fold foldl_upsert_lines HINT_PANEL_SIZE_def start_meeting_def)

subsection \<open>Where a meeting and its settings come from\<close>

text \<open>The actions that always leave a meeting or a filled-in form behind.\<close>

fun leaves :: "Action \<Rightarrow> bool" where
  "leaves (AUTH_RESOLVED _) = True"
| "leaves MEETING_ENDED = True"
| "leaves (ERROR_RAISED _) = True"
| "leaves _ = False"

fun panel_on :: "HostState \<Rightarrow> bool" where
  "panel_on (Ready f) = rf_showTranscriptPanel f"
| "panel_on (Creating f) = cf_showTranscriptPanel f"
| "panel_on (ActiveHost _ m) = showTranscriptPanel m"
| "panel_on (EndingHost _ m) = showTranscriptPanel m"
| "panel_on _ = False"

lemma panel_on_step:
  "panel_on (dispatch a s) \<Longrightarrow> a = TRANSCRIPT_PANEL_TOGGLED True \<or> panel_on s \<and> \<not> leaves a"
  by (cases a; cases s)
    (auto simp: fresh_form_def start_meeting_def Let_def split: option.splits form_field.splits if_splits)

lemma meeting_step:
  "meeting_of (dispatch a s) = Some m' \<Longrightarrow>
     a = MEETING_STARTED (StartedMeeting.truncate m') \<or>
     (\<exists>m. meeting_of s = Some m \<and> StartedMeeting.truncate m = StartedMeeting.truncate m') \<and> \<not> leaves a"
  by (cases a; cases s)
    (auto simp: start_meeting_def Let_def StartedMeeting.defs split: option.splits form_field.splits if_splits)

text \<open>C28. The transcript is on screen only by the host's explicit choice for this very meeting: if the
  panel is on, the history has a toggle to on, and since that toggle no meeting has ended, no error
  was raised and the identity was not resolved anew; so the choice is never the default and never
  carries over from an earlier meeting.\<close>

theorem panel_consent:
  assumes "panel_on (run dispatch acts LoadingAuth)"
  shows "\<exists>pre post. acts = pre @ TRANSCRIPT_PANEL_TOGGLED True # post \<and> list_all (\<lambda>a. \<not> leaves a) post"
proof -
  have "\<exists>pre a post. acts = pre @ a # post \<and> a = TRANSCRIPT_PANEL_TOGGLED True
      \<and> list_all (\<lambda>a. \<not> leaves a) post"
    using assms panel_on_step by (intro host.run_origin [where s = LoadingAuth and P = panel_on]) auto
  then show ?thesis by blast
qed

definition a_meeting :: StartedMeeting where
  "a_meeting = \<lparr>sessionId = lit ''s'', viewerToken = lit ''t'', capture = SingleSession 1, peer = 2, subscription = 3\<rparr>"

definition a_form :: CreatingForm where
  "a_form = \<lparr>cf_principal = LOCAL_PRINCIPAL, cf_title = [], cf_showTranscriptPanel = False\<rparr>"

theorem panel_consent_witness:
  "\<exists>pre post. [AUTH_RESOLVED (Some LOCAL_PRINCIPAL), TRANSCRIPT_PANEL_TOGGLED True, CREATE_REQUESTED,
      MEETING_STARTED a_meeting] = pre @ TRANSCRIPT_PANEL_TOGGLED True # post
     \<and> list_all (\<lambda>a. \<not> leaves a) post"
  by (rule panel_consent) (simp add: fresh_form_def start_meeting_def)

text \<open>The handles of a held meeting are the ones it was started with: whenever the page holds a
  meeting, its session, token, capture, peer and subscription are those of a \<open>MEETING_STARTED\<close> of the
  history, after which the meeting was never left; so ending it releases what starting it acquired.\<close>

lemma meeting_provenance:
  assumes "meeting_of (run dispatch acts LoadingAuth) = Some m"
  shows "\<exists>pre post. acts = pre @ MEETING_STARTED (StartedMeeting.truncate m) # post
    \<and> list_all (\<lambda>a. \<not> leaves a) post"
proof -
  let ?P = "\<lambda>s. \<exists>n. meeting_of s = Some n \<and> StartedMeeting.truncate n = StartedMeeting.truncate m"
  have "\<exists>pre a post. acts = pre @ a # post \<and> a = MEETING_STARTED (StartedMeeting.truncate m)
      \<and> list_all (\<lambda>a. \<not> leaves a) post"
    using assms meeting_step by (intro host.run_origin [where s = LoadingAuth and P = ?P]) fastforce+
  then show ?thesis by blast
qed

lemma meeting_provenance_witness:
  "\<exists>m pre post. meeting_of (run dispatch [AUTH_RESOLVED (Some LOCAL_PRINCIPAL), CREATE_REQUESTED,
      MEETING_STARTED a_meeting, END_REQUESTED] LoadingAuth) = Some m \<and>
     [AUTH_RESOLVED (Some LOCAL_PRINCIPAL), CREATE_REQUESTED, MEETING_STARTED a_meeting, END_REQUESTED]
       = pre @ MEETING_STARTED (StartedMeeting.truncate m) # post \<and> list_all (\<lambda>a. \<not> leaves a) post"
proof -
  let ?acts = "[AUTH_RESOLVED (Some LOCAL_PRINCIPAL), CREATE_REQUESTED, MEETING_STARTED a_meeting, END_REQUESTED]"
  obtain m where m: "meeting_of (run dispatch ?acts LoadingAuth) = Some m"
    by (simp add: fresh_form_def)
  from meeting_provenance [OF m] m show ?thesis by blast
qed

text \<open>Hints are identified by their id alone, although the engine and the gateway number theirs
  independently, both from one: when a staff hint and a retrieved hint carry the same number, the
  later one silently removes the earlier one from the shelf, whatever the two say.\<close>

lemma hint_id_collision:
  assumes "he_hintId retrieved = he_hintId staff"
  shows "run dispatch (stream_actions [(t, VHint retrieved), (u, VHint staff)])
      (ActiveHost p (start_meeting f started))
    = ActiveHost p ((start_meeting f started)\<lparr>hints := [hint_entry u staff]\<rparr>)"
  using assms
  by (simp add: stream_actions_def upsert_def start_meeting_def HINT_PANEL_SIZE_def slice_last_short
      hint_entry_def)

lemma hint_id_collision_witness:
  "run dispatch (stream_actions
       [(5, VHint \<lparr>he_sequence = 1, he_emittedAtMs = 4, he_hintId = 1, he_suggestion = lit ''Q4 is 12%'',
           he_rationale = None, he_urgency = NormalUrgency\<rparr>),
        (9, VHint \<lparr>he_sequence = 2, he_emittedAtMs = 8, he_hintId = 1, he_suggestion = lit ''stop'',
           he_rationale = None, he_urgency = UrgentUrgency\<rparr>)])
     (ActiveHost LOCAL_PRINCIPAL (start_meeting a_form a_meeting))
   = ActiveHost LOCAL_PRINCIPAL ((start_meeting a_form a_meeting)\<lparr>hints :=
       [\<lparr>hintId = 1, suggestion = lit ''stop'', rationale = None, urgency = UrgentUrgency, receivedAt = 9\<rparr>]\<rparr>)"
  by (subst hint_id_collision) (simp_all add: hint_entry_def)

text \<open>The label panel offers every detected speaker exactly once, and the hint panel shows the
  newest hint first without losing or inventing one.\<close>

lemma panels_complete:
  "(case SpeakerLabelPanel ls overrides of
      None \<Rightarrow> ls = []
    | Some rows \<Rightarrow> distinct (map fst rows) \<and> set (map fst rows) = tl_speaker ` set ls
        \<and> list_all (\<lambda>(l, current). current = (case overrides l of Some d \<Rightarrow> d | None \<Rightarrow> [])) rows)
   \<and> map snd (HintPanel hs) = rev hs
   \<and> list_all (\<lambda>(spec, h). spec = hintStyleForUrgency (urgency h)) (HintPanel hs)"
proof -
  have "distinct (distinct_loop [] (map tl_speaker ls))" by (rule distinct_distinct_loop) simp
  then show ?thesis
    by (auto simp: SpeakerLabelPanel_def Let_def HintPanel_def distinct_loop_Nil_iff list_all_iff
        comp_def)
qed

end
