(* ===== verification/Gateway_Messages.thy ===== *)
theory Gateway_Messages
  imports Viewer_Event
begin

section \<open>The gateway service (gen/proto/aegis/v1/aegis_pb.ts)\<close>

text \<open>
  The request and response messages of the \<open>Gateway\<close> service that the frontend calls, as the
  generated client declares them. An optional message field is an option, a 64-bit integer a word. The gateway
  itself is code of another language: how it answers a request is a parameter of the components that
  call it.
\<close>

subsection \<open>Messages\<close>

record EngineInfo =
  ei_model :: jsstring
  ei_backend :: jsstring
  ei_version :: jsstring

record CreateMeetingRequest =
  cmq_ragId :: jsstring
  cmq_title :: jsstring
  cmq_languageHints :: "jsstring list"
  cmq_allowedViewerAccountIds :: "jsstring list"

record CreateMeetingResponse =
  cmr_sessionId :: jsstring
  cmr_viewerJoinToken :: jsstring
  cmr_tokenExpiresAt :: "Timestamp option"
  cmr_sessionExpiresAt :: "Timestamp option"
  cmr_engine :: "EngineInfo option"

record NegotiateWebRTCRequest =
  nwq_sessionId :: jsstring
  nwq_offerSdp :: jsstring

record NegotiateWebRTCResponse =
  nwr_answerSdp :: jsstring

record JoinAsViewerRequest =
  javq_sessionId :: jsstring
  javq_viewerToken :: jsstring

record EndMeetingRequest =
  emq_sessionId :: jsstring

text \<open>The well-known \<open>Duration\<close> has the fields of a \<open>Timestamp\<close>.\<close>

record EndMeetingResponse =
  emr_duration :: "Timestamp option"
  emr_finalSegmentCount :: "64 word"
  emr_hintCount :: "64 word"

record SendOfficerHintRequest =
  oh_sessionId :: jsstring
  oh_viewerToken :: jsstring
  oh_suggestion :: jsstring
  oh_rationale :: jsstring
  oh_urgency :: int

record SendOfficerHintResponse =
  ohr_hintId :: "64 word"

record ListCorporaRequest =
  lcq_tenantId :: jsstring

record CorpusInfo =
  corpus_id :: jsstring
  corpus_label :: jsstring

record ListCorporaResponse =
  lcr_corpora :: "CorpusInfo list"

end
