(* ===== verification/Host_Meeting.thy ===== *)
theory Host_Meeting
  imports Host_Reducer Gateway_Messages
begin

section \<open>Running a meeting (pages/Host/HostPage.tsx, effects and handlers)\<close>

text \<open>
  The asynchronous handlers of the host page over the resources they acquire: device tracks and audio
  contexts (the store of \<open>Audio_Capture\<close>), peer connections, subscriptions, and the sessions the
  gateway holds for this client, seen through the calls made. Each awaited call of the platform or of
  the gateway is a parameter that says how it settles; actions other parts of the page dispatch while
  \<open>startMeeting\<close> waits are a parameter too. Also here: the effect that reports the resolved identity
  to the reducer.
\<close>

subsection \<open>Waiting for ICE\<close>

datatype ice_state = IceNew | IceGathering | IceComplete

text \<open>The state on entry, then the states seen by the listener; the result says whether the promise
  resolves, and after how many events the listener is gone.\<close>

fun on_ice_change :: "ice_state list \<Rightarrow> bool" where
  "on_ice_change [] = False"
| "on_ice_change (s # ss) = (if s = IceComplete then True else on_ice_change ss)"

definition waitForIceGatheringComplete :: "ice_state \<Rightarrow> ice_state list \<Rightarrow> bool" where
  "waitForIceGatheringComplete now events = (if now = IceComplete then True else on_ice_change events)"

lemma wait_ice_iff: "waitForIceGatheringComplete now events \<longleftrightarrow> IceComplete \<in> set (now # events)"
proof -
  have "on_ice_change events \<longleftrightarrow> IceComplete \<in> set events"
    by (induction events) auto
  then show ?thesis by (auto simp: waitForIceGatheringComplete_def)
qed

subsection \<open>Resources\<close>

text \<open>What the gateway has done for this client, by the request it served: a session created, its media
  negotiated, the session ended. A call that fails leaves no entry.\<close>

datatype server_event =
    SessionCreated CreateMeetingRequest CreateMeetingResponse
  | SessionNegotiated NegotiateWebRTCRequest
  | SessionEnded EndMeetingRequest

datatype cleanup = Unsubscribe handle | ClosePeer handle | StopCapture CaptureSession | EndRpc jsstring

record runtime =
  rt_media :: world
  rt_peers :: "bool list"
  rt_subs :: "bool list"
  rt_server :: "server_event list"
  rt_cleanup :: "cleanup list"
  rt_state :: HostState

definition dispatch_rt :: "Action \<Rightarrow> runtime \<Rightarrow> runtime" where
  "dispatch_rt a rt = rt\<lparr>rt_state := reducer (rt_state rt) a\<rparr>"

definition unsubscribe_rt :: "handle \<Rightarrow> runtime \<Rightarrow> runtime" where
  "unsubscribe_rt i rt = rt\<lparr>rt_subs := (rt_subs rt)[i := False]\<rparr>"

definition close_peer :: "handle \<Rightarrow> runtime \<Rightarrow> runtime" where
  "close_peer i rt = rt\<lparr>rt_peers := (rt_peers rt)[i := False]\<rparr>"

definition stop_capture :: "CaptureSession \<Rightarrow> runtime \<Rightarrow> runtime" where
  "stop_capture s rt = rt\<lparr>rt_media := stop s (rt_media rt)\<rparr>"

definition served :: "server_event \<Rightarrow> runtime \<Rightarrow> runtime" where
  "served c rt = rt\<lparr>rt_server := rt_server rt @ [c]\<rparr>"

text \<open>How every awaited call settles; the calls of the gateway answer the request they get.\<close>

record meeting_env =
  env_platform :: platform
  env_config :: AppConfig
  env_createMeeting :: "CreateMeetingRequest \<Rightarrow> js_error + CreateMeetingResponse"
  env_newPeer :: "js_error option"
  env_addTransceiver :: "js_error option"
  env_offer :: "js_error option"
  env_ice :: "ice_state \<times> ice_state list"
  env_localDescription :: "jsstring option"
  env_negotiate :: "NegotiateWebRTCRequest \<Rightarrow> js_error + NegotiateWebRTCResponse"
  env_setRemote :: "js_error option"
  env_socket :: "jsstring \<Rightarrow> jsstring option"
  env_meanwhile :: "Action list"

record attempt =
  at_capture :: "CaptureSession option"
  at_peer :: "handle option"
  at_subscription :: "handle option"

datatype outcome = Started StartedMeeting | Threw js_error | Waiting

text \<open>The audio tracks of a session's stream; the stream of a mixing destination always has one.\<close>

fun audio_track_count :: "CaptureSession \<Rightarrow> world \<Rightarrow> nat" where
  "audio_track_count (SingleSession i) w = length (tracks_of_kind AudioTrack (ss_stream (w_singles w ! i)) w)"
| "audio_track_count (MixedSession i) w = 1"

text \<open>\<open>streamProvider.subscribe\<close> of the picked transport: only the WebSocket one can throw.\<close>

definition subscribe_throws :: "meeting_env \<Rightarrow> JoinRequest \<Rightarrow> js_error option" where
  "subscribe_throws env req =
     (case pickTranscriptStreamProvider (deployMode (env_config env)) (gatewayEndpoint (env_config env)) of
        GrpcWebTranscriptStreamProvider _ \<Rightarrow> None
      | WebSocketTranscriptStreamProvider cfg \<Rightarrow> (case ws_subscribe (env_socket env) cfg req of
          Inl SubscribeURIError \<Rightarrow> Some (OtherError (lit ''URI malformed''))
        | Inl (SocketError msg) \<Rightarrow> Some (DOMException ''SyntaxError'' msg)
        | Inr _ \<Rightarrow> None))"

text \<open>The requests the page builds.\<close>

definition create_request :: "jsstring \<Rightarrow> jsstring \<Rightarrow> CreateMeetingRequest" where
  "create_request ragId ttl = \<lparr>cmq_ragId = ragId, cmq_title = ttl, cmq_languageHints = [],
     cmq_allowedViewerAccountIds = []\<rparr>"

definition negotiate_request :: "CreateMeetingResponse \<Rightarrow> jsstring \<Rightarrow> NegotiateWebRTCRequest" where
  "negotiate_request session sdp = \<lparr>nwq_sessionId = cmr_sessionId session, nwq_offerSdp = sdp\<rparr>"

definition join_request :: "CreateMeetingResponse \<Rightarrow> JoinRequest" where
  "join_request session = \<lparr>jr_sessionId = cmr_sessionId session, jr_viewerToken = cmr_viewerJoinToken session\<rparr>"

definition end_request :: "'a StartedMeeting_scheme \<Rightarrow> EndMeetingRequest" where
  "end_request m = \<lparr>emq_sessionId = sessionId m\<rparr>"

text \<open>Steps 3 to 5 of the \<open>try\<close> block, once the peer connection exists.\<close>

definition negotiate_steps ::
  "meeting_env \<Rightarrow> CaptureSession \<Rightarrow> CreateMeetingResponse \<Rightarrow> handle \<Rightarrow> attempt \<Rightarrow> runtime \<Rightarrow> outcome \<times> attempt \<times> runtime" where
  "negotiate_steps env cap session p got rt =
     (case env_addTransceiver env of Some e \<Rightarrow> (Threw e, got, rt) | None \<Rightarrow>
     (case env_offer env of Some e \<Rightarrow> (Threw e, got, rt) | None \<Rightarrow>
     (if \<not> waitForIceGatheringComplete (fst (env_ice env)) (snd (env_ice env)) then (Waiting, got, rt) else
     (case env_localDescription env of
        None \<Rightarrow> (Threw (OtherError (lit ''peer.localDescription unexpectedly null'')), got, rt)
      | Some sdp \<Rightarrow>
     (case env_negotiate env (negotiate_request session sdp) of Inl e \<Rightarrow> (Threw e, got, rt) | Inr answer \<Rightarrow>
     (let rt = served (SessionNegotiated (negotiate_request session sdp)) rt in
     (case env_setRemote env of Some e \<Rightarrow> (Threw e, got, rt) | None \<Rightarrow>
     (case subscribe_throws env (join_request session) of
        Some e \<Rightarrow> (Threw e, got, rt)
      | None \<Rightarrow>
     (let sub = length (rt_subs rt); rt = rt\<lparr>rt_subs := rt_subs rt @ [True]\<rparr>
      in (Started \<lparr>sessionId = cmr_sessionId session, viewerToken = cmr_viewerJoinToken session,
            capture = cap, peer = p, subscription = sub\<rparr>,
          got\<lparr>at_subscription := Some sub\<rparr>, rt))))))))))"

definition start_steps ::
  "meeting_env \<Rightarrow> jsstring \<Rightarrow> jsstring \<Rightarrow> CaptureMode \<Rightarrow> runtime \<Rightarrow> outcome \<times> attempt \<times> runtime" where
  "start_steps env ragId ttl mode rt =
     (let got = \<lparr>at_capture = None, at_peer = None, at_subscription = None\<rparr>;
          (r, media) = start (env_platform env) \<lparr>cr_mode = mode, cr_audioConstraints = None\<rparr> (rt_media rt);
          rt = rt\<lparr>rt_media := media\<rparr>
      in case r of Inl e \<Rightarrow> (Threw e, got, rt) | Inr cap \<Rightarrow>
     (let got = got\<lparr>at_capture := Some cap\<rparr>
      in if audio_track_count cap media = 0
         then (Threw (OtherError (lit ''captured stream has no audio track'')), got, rt) else
     (case env_createMeeting env (create_request ragId ttl) of Inl e \<Rightarrow> (Threw e, got, rt) | Inr session \<Rightarrow>
     (let rt = served (SessionCreated (create_request ragId ttl) session) rt
      in case env_newPeer env of Some e \<Rightarrow> (Threw e, got, rt) | None \<Rightarrow>
     (let p = length (rt_peers rt); rt = rt\<lparr>rt_peers := rt_peers rt @ [True]\<rparr>
      in negotiate_steps env cap session p (got\<lparr>at_peer := Some p\<rparr>) rt)))))"

definition rollback :: "attempt \<Rightarrow> runtime \<Rightarrow> runtime" where
  "rollback got rt =
     (let rt = (case at_subscription got of Some s \<Rightarrow> unsubscribe_rt s rt | None \<Rightarrow> rt);
          rt = (case at_peer got of Some p \<Rightarrow> close_peer p rt | None \<Rightarrow> rt)
      in case at_capture got of Some c \<Rightarrow> stop_capture c rt | None \<Rightarrow> rt)"

fun code_text :: "CaptureErrorCode \<Rightarrow> jsstring" where
  "code_text PermissionDenied = lit ''permission-denied''"
| "code_text UserCancelled = lit ''user-cancelled''"
| "code_text NoAudioTrack = lit ''no-audio-track''"
| "code_text UnsupportedBrowser = lit ''unsupported-browser''"
| "code_text Internal = lit ''internal''"

fun error_message :: "js_error \<Rightarrow> jsstring" where
  "error_message (CaptureError code msg) = lit ''Capture: ['' @ code_text code @ lit ''] '' @ msg"
| "error_message (DOMException _ msg) = msg"
| "error_message (OtherError msg) = msg"
| "error_message (NonError v) = v"

definition startMeeting ::
  "meeting_env \<Rightarrow> jsstring \<Rightarrow> jsstring \<Rightarrow> CaptureMode \<Rightarrow> runtime \<Rightarrow> runtime" where
  "startMeeting env ragId ttl mode rt =
     (let rt = dispatch_rt CREATE_REQUESTED rt;
          (r, got, rt) = start_steps env ragId ttl mode rt;
          rt = run dispatch_rt (env_meanwhile env) rt
      in case r of
           Started m \<Rightarrow> dispatch_rt (MEETING_STARTED m) rt
         | Threw e \<Rightarrow> dispatch_rt (ERROR_RAISED (error_message e)) (rollback got rt)
         | Waiting \<Rightarrow> rt)"

text \<open>\<open>endMeeting\<close>: which of its four steps throw or reject is a parameter; a step that fails has no
  effect on its resource, the worst case.\<close>

record end_faults =
  fault_unsubscribe :: bool
  fault_close :: bool
  fault_stop :: bool
  fault_rpc :: bool

definition attempt_step :: "bool \<Rightarrow> cleanup \<Rightarrow> (runtime \<Rightarrow> runtime) \<Rightarrow> runtime \<Rightarrow> runtime" where
  "attempt_step fault c f rt =
     (let rt = rt\<lparr>rt_cleanup := rt_cleanup rt @ [c]\<rparr> in if fault then rt else f rt)"

definition endMeeting :: "end_faults \<Rightarrow> ActiveMeeting \<Rightarrow> runtime \<Rightarrow> runtime" where
  "endMeeting faults m rt =
     (let rt = dispatch_rt END_REQUESTED rt;
          rt = attempt_step (fault_unsubscribe faults) (Unsubscribe (subscription m)) (unsubscribe_rt (subscription m)) rt;
          rt = attempt_step (fault_close faults) (ClosePeer (peer m)) (close_peer (peer m)) rt;
          rt = attempt_step (fault_stop faults) (StopCapture (capture m)) (stop_capture (capture m)) rt;
          rt = attempt_step (fault_rpc faults) (EndRpc (sessionId m)) (served (SessionEnded (end_request m))) rt
      in dispatch_rt MEETING_ENDED rt)"

subsection \<open>What a start leaves behind\<close>

lemma dispatch_rt_frame [simp]:
  "rt_media (dispatch_rt a rt) = rt_media rt" "rt_peers (dispatch_rt a rt) = rt_peers rt"
  "rt_subs (dispatch_rt a rt) = rt_subs rt" "rt_server (dispatch_rt a rt) = rt_server rt"
  "rt_cleanup (dispatch_rt a rt) = rt_cleanup rt"
  "rt_state (dispatch_rt a rt) = reducer (rt_state rt) a"
  by (simp_all add: dispatch_rt_def)

lemma run_dispatch_rt [simp]:
  "rt_media (run dispatch_rt as rt) = rt_media rt" "rt_peers (run dispatch_rt as rt) = rt_peers rt"
  "rt_subs (run dispatch_rt as rt) = rt_subs rt" "rt_server (run dispatch_rt as rt) = rt_server rt"
  "rt_state (run dispatch_rt as rt) = run dispatch as (rt_state rt)"
  by (induction as arbitrary: rt) simp_all

text \<open>The resources after the steps, by outcome: a started meeting names exactly the fresh handles, and
  every acquired handle is in the attempt record that the rollback reads.\<close>

definition started_by :: "meeting_env \<Rightarrow> jsstring \<Rightarrow> jsstring \<Rightarrow> CaptureMode \<Rightarrow> runtime \<Rightarrow> StartedMeeting \<Rightarrow> runtime \<Rightarrow> bool" where
  "started_by env ragId ttl mode rt m rt' \<longleftrightarrow>
     start (env_platform env) \<lparr>cr_mode = mode, cr_audioConstraints = None\<rparr> (rt_media rt) = (Inr (capture m), rt_media rt')
     \<and> peer m = length (rt_peers rt) \<and> rt_peers rt' = rt_peers rt @ [True]
     \<and> subscription m = length (rt_subs rt) \<and> rt_subs rt' = rt_subs rt @ [True]
     \<and> (\<exists>session. env_createMeeting env (create_request ragId ttl) = Inr session
          \<and> sessionId m = cmr_sessionId session \<and> viewerToken m = cmr_viewerJoinToken session)"

definition failed_by :: "meeting_env \<Rightarrow> CaptureMode \<Rightarrow> runtime \<Rightarrow> attempt \<Rightarrow> runtime \<Rightarrow> bool" where
  "failed_by env mode rt got rt' \<longleftrightarrow>
     (case start (env_platform env) \<lparr>cr_mode = mode, cr_audioConstraints = None\<rparr> (rt_media rt) of
        (Inl _, media) \<Rightarrow> at_capture got = None \<and> rt_media rt' = media
      | (Inr c, media) \<Rightarrow> at_capture got = Some c \<and> rt_media rt' = media)
     \<and> rt_peers rt' = rt_peers rt @ (if at_peer got = None then [] else [True])
     \<and> (at_peer got = None \<or> at_peer got = Some (length (rt_peers rt)))
     \<and> at_subscription got = None \<and> rt_subs rt' = rt_subs rt"

lemma negotiate_steps_spec:
  assumes "negotiate_steps env cap session p got rt = (r, got', rt')"
  shows "rt_media rt' = rt_media rt \<and> rt_peers rt' = rt_peers rt \<and> rt_state rt' = rt_state rt
    \<and> (\<exists>evs. rt_server rt' = rt_server rt @ evs \<and> list_all (\<lambda>e. \<exists>sdp. e = SessionNegotiated (negotiate_request session sdp)) evs)
    \<and> (case r of
         Started m \<Rightarrow> rt_subs rt' = rt_subs rt @ [True]
           \<and> m = \<lparr>sessionId = cmr_sessionId session, viewerToken = cmr_viewerJoinToken session,
                  capture = cap, peer = p, subscription = length (rt_subs rt)\<rparr>
       | _ \<Rightarrow> rt_subs rt' = rt_subs rt \<and> got' = got)"
  using assms
  by (auto simp: negotiate_steps_def Let_def served_def split: option.splits sum.splits if_splits)

lemma start_steps_spec:
  assumes "start_steps env ragId ttl mode rt = (r, got, rt')"
  shows "rt_state rt' = rt_state rt
    \<and> (case r of Started m \<Rightarrow> started_by env ragId ttl mode rt m rt' | Threw e \<Rightarrow> failed_by env mode rt got rt' | Waiting \<Rightarrow> True)
    \<and> (\<exists>evs. rt_server rt' = rt_server rt @ evs \<and> list_all (\<lambda>e. \<forall>r. e \<noteq> SessionEnded r) evs
      \<and> (at_peer got \<noteq> None \<longrightarrow> (\<exists>session. SessionCreated (create_request ragId ttl) session \<in> set evs)))"
proof -
  obtain x media where st: "start (env_platform env) \<lparr>cr_mode = mode, cr_audioConstraints = None\<rparr> (rt_media rt) = (x, media)"
    by fastforce
  show ?thesis
  proof (cases "\<exists>c session. x = Inr c \<and> audio_track_count c media \<noteq> 0 \<and> env_createMeeting env (create_request ragId ttl) = Inr session
      \<and> env_newPeer env = None")
    case False
    with assms st show ?thesis
      by (auto simp: start_steps_def Let_def failed_by_def served_def split: sum.splits if_splits option.splits)
  next
    case True
    then obtain c session where c: "x = Inr c" "audio_track_count c media \<noteq> 0"
      "env_createMeeting env (create_request ragId ttl) = Inr session" "env_newPeer env = None" by blast
    define got0 where "got0 = \<lparr>at_capture = Some c, at_peer = Some (length (rt_peers rt)), at_subscription = None\<rparr>"
    define rt0 where "rt0 = rt\<lparr>rt_media := media,
      rt_server := rt_server rt @ [SessionCreated (create_request ragId ttl) session], rt_peers := rt_peers rt @ [True]\<rparr>"
    have n: "negotiate_steps env c session (length (rt_peers rt)) got0 rt0 = (r, got, rt')"
      using assms st c by (simp add: start_steps_def Let_def served_def got0_def rt0_def)
    from negotiate_steps_spec [OF n] obtain evs where evs: "rt_server rt' = rt_server rt0 @ evs"
      "list_all (\<lambda>e. \<exists>sdp. e = SessionNegotiated (negotiate_request session sdp)) evs" by blast
    let ?evs = "SessionCreated (create_request ragId ttl) session # evs"
    have "rt_server rt' = rt_server rt @ ?evs" using evs(1) by (simp add: rt0_def)
    moreover have "list_all (\<lambda>e. \<forall>r. e \<noteq> SessionEnded r) ?evs" using evs(2) by (auto simp: list_all_iff)
    moreover have "SessionCreated (create_request ragId ttl) session \<in> set ?evs" by simp
    ultimately have srv: "\<exists>evs. rt_server rt' = rt_server rt @ evs \<and> list_all (\<lambda>e. \<forall>r. e \<noteq> SessionEnded r) evs
      \<and> (at_peer got \<noteq> None \<longrightarrow> (\<exists>session. SessionCreated (create_request ragId ttl) session \<in> set evs))" by blast
    from negotiate_steps_spec [OF n] c(1,3) st srv show ?thesis
      by (auto simp: started_by_def failed_by_def rt0_def got0_def split: outcome.splits)
  qed
qed

lemma rollback_frame [simp]:
  "rt_server (rollback got rt) = rt_server rt" "rt_state (rollback got rt) = rt_state rt"
  by (simp_all add: rollback_def Let_def unsubscribe_rt_def close_peer_def stop_capture_def split: option.splits)

lemma rollback_releases:
  assumes "failed_by env mode rt got rt'" and "pl_graph (env_platform env) = None"
  shows "live (rt_media (rollback got rt')) = live (rt_media rt)"
    "open_ctxs (rt_media (rollback got rt')) = open_ctxs (rt_media rt)"
    "filter (\<lambda>open. open) (rt_peers (rollback got rt')) = filter (\<lambda>open. open) (rt_peers rt)"
    "rt_subs (rollback got rt') = rt_subs rt"
proof -
  obtain x media where st: "start (env_platform env) \<lparr>cr_mode = mode, cr_audioConstraints = None\<rparr> (rt_media rt) = (x, media)"
    by fastforce
  have media: "rt_media (rollback got rt') =
      (case at_capture got of Some c \<Rightarrow> stop c (rt_media rt') | None \<Rightarrow> rt_media rt')"
    by (simp add: rollback_def Let_def unsubscribe_rt_def close_peer_def stop_capture_def split: option.splits)
  show "live (rt_media (rollback got rt')) = live (rt_media rt)"
    "open_ctxs (rt_media (rollback got rt')) = open_ctxs (rt_media rt)"
    using assms st start_fails [OF _ assms(2)] start_stop_spec
    by (auto simp: media failed_by_def split: sum.splits)
  show "filter (\<lambda>open. open) (rt_peers (rollback got rt')) = filter (\<lambda>open. open) (rt_peers rt)"
    "rt_subs (rollback got rt') = rt_subs rt"
    using assms(1) by (auto simp: failed_by_def rollback_def Let_def unsubscribe_rt_def close_peer_def
        stop_capture_def split: option.splits)
qed

subsection \<open>Properties of starting and ending\<close>


definition an_env :: meeting_env where
  "an_env = \<lparr>env_platform = a_platform\<lparr>pl_getDisplayMedia := Inr [VideoTrack, AudioTrack]\<rparr>,
     env_config = \<lparr>deployMode = CloudMode, gatewayEndpoint = lit ''https://g'', cognito = None\<rparr>,
     env_createMeeting = (\<lambda>_. Inr \<lparr>cmr_sessionId = lit ''s1'', cmr_viewerJoinToken = lit ''jwt'',
       cmr_tokenExpiresAt = None, cmr_sessionExpiresAt = None, cmr_engine = None\<rparr>), env_newPeer = None, env_addTransceiver = None,
     env_offer = None, env_ice = (IceGathering, [IceComplete]), env_localDescription = Some (lit ''sdp''),
     env_negotiate = (\<lambda>_. Inr \<lparr>nwr_answerSdp = lit ''answer''\<rparr>), env_setRemote = None, env_socket = (\<lambda>_. None), env_meanwhile = []\<rparr>"

definition a_runtime :: "HostState \<Rightarrow> runtime" where
  "a_runtime s = \<lparr>rt_media = empty_world, rt_peers = [], rt_subs = [], rt_server = [], rt_cleanup = [], rt_state = s\<rparr>"

lemmas an_env_eval = an_env_def a_runtime_def start_steps_def negotiate_steps_def start_def session_of_def
  startMicrophone_def a_platform_def new_stream_def sessionFromSingleStream_def empty_world_def
  tracks_of_kind_def getTracks_def served_def subscribe_throws_def waitForIceGatheringComplete_def Let_def


text \<open>Ending a meeting tries all four clean-up steps whatever fails: the attempts made are always
  unsubscribe, close the peer, stop the capture, tell the gateway, in this order; each resource whose
  step did not fail is released; and the page is back at an empty form for the same user.\<close>

lemma end_meeting_total:
  "let rt' = endMeeting faults m rt in
     rt_cleanup rt' = rt_cleanup rt @
       [Unsubscribe (subscription m), ClosePeer (peer m), StopCapture (capture m), EndRpc (sessionId m)]
   \<and> rt_subs rt' = (if fault_unsubscribe faults then rt_subs rt else (rt_subs rt)[subscription m := False])
   \<and> rt_peers rt' = (if fault_close faults then rt_peers rt else (rt_peers rt)[peer m := False])
   \<and> rt_media rt' = (if fault_stop faults then rt_media rt else stop (capture m) (rt_media rt))
   \<and> rt_server rt' = (if fault_rpc faults then rt_server rt else rt_server rt @ [SessionEnded (end_request m)])
   \<and> (case rt_state rt of ActiveHost p _ \<Rightarrow> rt_state rt' = fresh_form p [] | _ \<Rightarrow> meeting_of (rt_state rt') = None)"
  by (auto simp: endMeeting_def attempt_step_def Let_def unsubscribe_rt_def close_peer_def stop_capture_def
      served_def split: HostState.split option.split)



text \<open>If the identity is resolved anew while a start is under way, the finished start is ignored:
  the page shows an empty form and holds no meeting, yet the capture, the peer connection and the
  subscription of the start stay open, with no reference left through which to close them.\<close>

lemma late_start_leaks:
  assumes "start_steps env ragId ttl mode (dispatch_rt CREATE_REQUESTED rt) = (Started m, got, rt1)"
    and "env_meanwhile env = before @ [AUTH_RESOLVED (Some q)]"
  defines "rt' \<equiv> startMeeting env ragId ttl mode rt"
  shows "rt_state rt' = fresh_form q DEFAULT_RAG_ID \<and> meeting_of (rt_state rt') = None
    \<and> rt_peers rt' = rt_peers rt @ [True] \<and> rt_subs rt' = rt_subs rt @ [True]
    \<and> start (env_platform env) \<lparr>cr_mode = mode, cr_audioConstraints = None\<rparr> (rt_media rt)
        = (Inr (capture m), rt_media rt')"
proof -
  have "rt' = dispatch_rt (MEETING_STARTED m) (run dispatch_rt (env_meanwhile env) rt1)"
    using assms(1) by (simp add: rt'_def startMeeting_def Let_def)
  with start_steps_spec [OF assms(1)] assms(2) show ?thesis
    by (simp add: started_by_def fresh_form_def)
qed

lemma late_start_leaks_witness:
  "rt_subs (startMeeting (an_env\<lparr>env_meanwhile := [AUTH_RESOLVED (Some LOCAL_PRINCIPAL)]\<rparr>) [] [] Microphone
      (a_runtime (fresh_form LOCAL_PRINCIPAL []))) = [True]"
proof -
  let ?env = "an_env\<lparr>env_meanwhile := [AUTH_RESOLVED (Some LOCAL_PRINCIPAL)]\<rparr>"
  let ?rt = "a_runtime (fresh_form LOCAL_PRINCIPAL [])"
  have "\<exists>m got rt1. start_steps ?env [] [] Microphone (dispatch_rt CREATE_REQUESTED ?rt) = (Started m, got, rt1)"
    by (simp add: an_env_eval dispatch_rt_def)
  then obtain m got rt1 where st: "start_steps ?env [] [] Microphone (dispatch_rt CREATE_REQUESTED ?rt)
      = (Started m, got, rt1)" by blast
  have "env_meanwhile ?env = [] @ [AUTH_RESOLVED (Some LOCAL_PRINCIPAL)]" by simp
  from late_start_leaks [OF st this] show ?thesis by (simp add: a_runtime_def)
qed

subsection \<open>The identity effect\<close>

text \<open>
  The effect with dependencies \<open>[principal, loading]\<close>: React compares the principal by reference. The
  adapter's \<open>useMemo\<close> builds a new principal object for every value of the identity library's context,
  so the reference is the version of that value; the local principal is one constant object.
\<close>

record auth_deps =
  dep_principal :: "nat option"
  dep_loading :: bool

definition auth_deps_of :: "shell \<Rightarrow> nat \<Rightarrow> AegisAuthContextValue \<Rightarrow> auth_deps" where
  "auth_deps_of sh version ctx =
     \<lparr>dep_principal = (if ctx_principal ctx = None then None
        else Some (case sh of OidcShell _ \<Rightarrow> version | PlainShell \<Rightarrow> 0)),
      dep_loading = ctx_loading ctx\<rparr>"

definition auth_effect :: "auth_deps option \<Rightarrow> shell \<Rightarrow> nat \<Rightarrow> AegisAuthContextValue \<Rightarrow> Action list" where
  "auth_effect last_deps sh version ctx =
     (if last_deps = Some (auth_deps_of sh version ctx) then []
      else if ctx_loading ctx then [] else [AUTH_RESOLVED (ctx_principal ctx)])"

text \<open>A silent token renewal drops a running meeting: when the identity library publishes a
  renewed, authenticated and unexpired user in Cloud mode, the effect dispatches \<open>AUTH_RESOLVED\<close>
  although the user is the same person, the reducer answers with the empty form, and the capture, the
  peer connection and the subscription of the meeting stay open. In Local mode the effect never fires
  again.\<close>

lemma renewal_drops_meeting:
  fixes um :: UserManagerSettings
  assumes "rt_state rt = ActiveHost p m"
    and "isAuthenticated oidc" and "oidc_user oidc = Some u" and "\<not> expired now u" and "\<not> isLoading oidc"
    and "version \<noteq> version'"
  defines "ctx \<equiv> useAegisAuth expired now oidc (OidcShell um)"
    and "local_ctx \<equiv> useAegisAuth expired now oidc PlainShell"
  shows "(let rt' = run dispatch_rt (auth_effect (Some (auth_deps_of (OidcShell um) version old)) (OidcShell um) version' ctx) rt in
       rt_state rt' = fresh_form (userToPrincipal u) DEFAULT_RAG_ID
     \<and> rt_media rt' = rt_media rt \<and> rt_peers rt' = rt_peers rt \<and> rt_subs rt' = rt_subs rt)
    \<and> auth_effect (Some (auth_deps_of PlainShell version local_ctx)) PlainShell version' local_ctx = []"
  using assms(2-6)
  by (simp add: ctx_def local_ctx_def auth_effect_def auth_deps_of_def CloudAegisAdapter_def LOCAL_VALUE_def)

definition a_user_manager :: UserManagerSettings where
  "a_user_manager = buildCloudUserManager \<lparr>cc_authority = lit ''https://idp'', cc_clientId = lit ''c'',
     cc_redirectUri = lit ''https://g/auth/callback'', cc_logoutUri = None\<rparr>"

lemma renewal_drops_meeting_witness:
  "rt_state (run dispatch_rt (auth_effect
      (Some (auth_deps_of (OidcShell a_user_manager) 1
         (CloudAegisAdapter (\<lambda>_ _. False) 0 \<lparr>isAuthenticated = True, oidc_user = Some a_user, isLoading = False\<rparr>)))
      (OidcShell a_user_manager) 2
      (CloudAegisAdapter (\<lambda>_ _. False) 0 \<lparr>isAuthenticated = True, oidc_user = Some a_user, isLoading = False\<rparr>))
    (a_runtime (ActiveHost (userToPrincipal a_user) (start_meeting a_form a_meeting))))
   = fresh_form (userToPrincipal a_user) DEFAULT_RAG_ID"
proof -
  let ?rt = "a_runtime (ActiveHost (userToPrincipal a_user) (start_meeting a_form a_meeting))"
  let ?oidc = "\<lparr>isAuthenticated = True, oidc_user = Some a_user, isLoading = False\<rparr>"
  have "rt_state ?rt = ActiveHost (userToPrincipal a_user) (start_meeting a_form a_meeting)"
    by (simp add: a_runtime_def)
  from renewal_drops_meeting [OF this, of ?oidc a_user "\<lambda>_ _. False" 0 1 2 a_user_manager
      "CloudAegisAdapter (\<lambda>_ _. False) 0 ?oidc"]
  show ?thesis by (simp add: Let_def)
qed

end
