(* ===== verification/Host_Flight.thy ===== *)
theory Host_Flight
  imports Host_Meeting
begin

section \<open>A start in flight (pages/Host/HostPage.tsx, startMeeting await by await)\<close>

text \<open>
  \<open>startMeeting\<close> is asynchronous: at every \<open>await\<close> the page goes on handling events. Here a start is a
  \<open>flight\<close> that stops at each await, and \<open>resume\<close> is the code from one await to the next. A step
  relation interleaves the resumptions with the actions that the rest of the page dispatches. The
  relation agrees with the sequential \<open>start_steps\<close> of \<open>Host_Meeting\<close> on every interleaving, so what is
  proved there holds of the asynchronous code; and a start terminates unless ICE gathering never
  completes.
\<close>

subsection \<open>Flights\<close>

datatype phase =
    AwaitCapture
  | AwaitCreate CaptureSession
  | AwaitOffer CaptureSession CreateMeetingResponse handle
  | AwaitIce CaptureSession CreateMeetingResponse handle
  | AwaitNegotiate CaptureSession CreateMeetingResponse handle jsstring
  | AwaitRemote CaptureSession CreateMeetingResponse handle

record flight =
  fl_ragId :: jsstring
  fl_title :: jsstring
  fl_mode :: CaptureMode
  fl_got :: attempt
  fl_phase :: phase

definition launch :: "jsstring \<Rightarrow> jsstring \<Rightarrow> CaptureMode \<Rightarrow> flight" where
  "launch ragId ttl mode = \<lparr>fl_ragId = ragId, fl_title = ttl, fl_mode = mode,
     fl_got = \<lparr>at_capture = None, at_peer = None, at_subscription = None\<rparr>, fl_phase = AwaitCapture\<rparr>"

text \<open>From one await to the next: \<open>None\<close> while the flight goes on, otherwise how the \<open>try\<close> block ended.\<close>

definition resume :: "meeting_env \<Rightarrow> flight \<Rightarrow> runtime \<Rightarrow> outcome option \<times> flight \<times> runtime" where
  "resume env fl rt = (case fl_phase fl of
     AwaitCapture \<Rightarrow>
       (let (r, media) = start (env_platform env) \<lparr>cr_mode = fl_mode fl, cr_audioConstraints = None\<rparr> (rt_media rt);
            rt = rt\<lparr>rt_media := media\<rparr>
        in case r of
             Inl e \<Rightarrow> (Some (Threw e), fl, rt)
           | Inr cap \<Rightarrow>
               (let fl = fl\<lparr>fl_got := (fl_got fl)\<lparr>at_capture := Some cap\<rparr>\<rparr>
                in if audio_track_count cap media = 0
                   then (Some (Threw (OtherError (lit ''captured stream has no audio track''))), fl, rt)
                   else (None, fl\<lparr>fl_phase := AwaitCreate cap\<rparr>, rt)))
   | AwaitCreate cap \<Rightarrow>
       (case env_createMeeting env (create_request (fl_ragId fl) (fl_title fl)) of
          Inl e \<Rightarrow> (Some (Threw e), fl, rt)
        | Inr session \<Rightarrow>
            (let rt = served (SessionCreated (create_request (fl_ragId fl) (fl_title fl)) session) rt
             in case env_newPeer env of
                  Some e \<Rightarrow> (Some (Threw e), fl, rt)
                | None \<Rightarrow>
                    (let p = length (rt_peers rt);
                         rt = rt\<lparr>rt_peers := rt_peers rt @ [True]\<rparr>;
                         fl = fl\<lparr>fl_got := (fl_got fl)\<lparr>at_peer := Some p\<rparr>\<rparr>
                     in case env_addTransceiver env of
                          Some e \<Rightarrow> (Some (Threw e), fl, rt)
                        | None \<Rightarrow> (None, fl\<lparr>fl_phase := AwaitOffer cap session p\<rparr>, rt))))
   | AwaitOffer cap session p \<Rightarrow>
       (case env_offer env of
          Some e \<Rightarrow> (Some (Threw e), fl, rt)
        | None \<Rightarrow> (None, fl\<lparr>fl_phase := AwaitIce cap session p\<rparr>, rt))
   | AwaitIce cap session p \<Rightarrow>
       (if \<not> waitForIceGatheringComplete (fst (env_ice env)) (snd (env_ice env)) then (None, fl, rt)
        else case env_localDescription env of
          None \<Rightarrow> (Some (Threw (OtherError (lit ''peer.localDescription unexpectedly null''))), fl, rt)
        | Some sdp \<Rightarrow> (None, fl\<lparr>fl_phase := AwaitNegotiate cap session p sdp\<rparr>, rt))
   | AwaitNegotiate cap session p sdp \<Rightarrow>
       (case env_negotiate env (negotiate_request session sdp) of
          Inl e \<Rightarrow> (Some (Threw e), fl, rt)
        | Inr answer \<Rightarrow> (None, fl\<lparr>fl_phase := AwaitRemote cap session p\<rparr>,
            served (SessionNegotiated (negotiate_request session sdp)) rt))
   | AwaitRemote cap session p \<Rightarrow>
       (case env_setRemote env of
          Some e \<Rightarrow> (Some (Threw e), fl, rt)
        | None \<Rightarrow> (case subscribe_throws env (join_request session) of
            Some e \<Rightarrow> (Some (Threw e), fl, rt)
          | None \<Rightarrow>
              (let sub = length (rt_subs rt); rt = rt\<lparr>rt_subs := rt_subs rt @ [True]\<rparr>
               in (Some (Started \<lparr>sessionId = cmr_sessionId session, viewerToken = cmr_viewerJoinToken session,
                     capture = cap, peer = p, subscription = sub\<rparr>),
                   fl\<lparr>fl_got := (fl_got fl)\<lparr>at_subscription := Some sub\<rparr>\<rparr>, rt)))))"

text \<open>The end of the handler: the dispatch after the \<open>try\<close> block, or the \<open>catch\<close> block.\<close>

definition land :: "outcome \<Rightarrow> attempt \<Rightarrow> runtime \<Rightarrow> runtime" where
  "land r got rt = (case r of
     Started m \<Rightarrow> dispatch_rt (MEETING_STARTED m) rt
   | Threw e \<Rightarrow> dispatch_rt (ERROR_RAISED (error_message e)) (rollback got rt)
   | Waiting \<Rightarrow> rt)"

text \<open>All interleavings of one flight with dispatched actions, in the order they happen.\<close>

inductive flies :: "meeting_env \<Rightarrow> flight \<Rightarrow> runtime \<Rightarrow> Action list \<Rightarrow> outcome \<Rightarrow> attempt \<Rightarrow> runtime \<Rightarrow> bool"
  for env where
  lands: "flies env fl rt [] r (fl_got fl') rt'" if "resume env fl rt = (Some r, fl', rt')"
| resumes: "flies env fl rt as r got rt''" if "resume env fl rt = (None, fl', rt')" and "flies env fl' rt' as r got rt''"
| acts: "flies env fl rt (a # as) r got rt'" if "flies env fl (dispatch_rt a rt) as r got rt'"

subsection \<open>Resumptions and dispatched actions commute\<close>

lemma served_dispatch: "served e (dispatch_rt a rt) = dispatch_rt a (served e rt)"
  by (simp add: served_def dispatch_rt_def)

lemma resume_dispatch:
  "resume env fl rt = (r, fl', rt') \<Longrightarrow> resume env fl (dispatch_rt a rt) = (r, fl', dispatch_rt a rt')"
  by (cases "fl_phase fl")
    (auto simp: resume_def Let_def dispatch_rt_def served_def split: prod.splits sum.splits option.splits if_splits)

lemma resume_run:
  "resume env fl rt = (r, fl', rt') \<Longrightarrow> resume env fl (run dispatch_rt as rt) = (r, fl', run dispatch_rt as rt')"
  by (induction as arbitrary: rt rt') (auto intro: resume_dispatch)

subsection \<open>Following a flight without interruption\<close>

fun fly :: "nat \<Rightarrow> meeting_env \<Rightarrow> flight \<Rightarrow> runtime \<Rightarrow> outcome \<times> attempt \<times> runtime" where
  "fly 0 env fl rt = (Waiting, fl_got fl, rt)"
| "fly (Suc n) env fl rt = (case resume env fl rt of
     (Some r, fl', rt') \<Rightarrow> (r, fl_got fl', rt')
   | (None, fl', rt') \<Rightarrow> fly n env fl' rt')"

fun rank :: "phase \<Rightarrow> nat" where
  "rank AwaitCapture = 6"
| "rank (AwaitCreate _) = 5"
| "rank (AwaitOffer _ _ _) = 4"
| "rank (AwaitIce _ _ _) = 3"
| "rank (AwaitNegotiate _ _ _ _) = 2"
| "rank (AwaitRemote _ _ _) = 1"

text \<open>A resumption makes progress, unless the flight waits for ICE.\<close>

lemma resume_progress:
  "resume env fl rt = (None, fl', rt') \<Longrightarrow> rank (fl_phase fl') < rank (fl_phase fl) \<or> fl' = fl \<and> rt' = rt"
  by (cases "fl_phase fl") (auto simp: resume_def Let_def split: prod.splits sum.splits option.splits if_splits)

lemma resume_not_waiting: "resume env fl rt = (Some r, fl', rt') \<Longrightarrow> r \<noteq> Waiting"
  by (cases "fl_phase fl") (auto simp: resume_def Let_def split: prod.splits sum.splits option.splits if_splits)

lemma rank_pos: "0 < rank ph"
  by (cases ph) simp_all

lemma fly_rank:
  "fly n env fl rt = (r, got, rt') \<Longrightarrow> r \<noteq> Waiting \<Longrightarrow> rank (fl_phase fl) \<le> k \<Longrightarrow> fly k env fl rt = (r, got, rt')"
proof (induction n arbitrary: k fl rt)
  case (Suc n)
  obtain q fl' rt1 where res: "resume env fl rt = (q, fl', rt1)" by (cases "resume env fl rt") auto
  from Suc.prems(3) rank_pos [of "fl_phase fl"] obtain j where k: "k = Suc j" by (cases k) auto
  show ?case
  proof (cases q)
    case None
    with res Suc.prems(1) have rest: "fly n env fl' rt1 = (r, got, rt')" by simp
    from resume_progress [of env fl rt fl' rt1] res None consider
      "rank (fl_phase fl') < rank (fl_phase fl)" | "fl' = fl" "rt1 = rt" by blast
    then show ?thesis
    proof cases
      case 1
      with Suc.prems(3) k have "rank (fl_phase fl') \<le> j" by simp
      with Suc.IH [OF rest Suc.prems(2)] res None k show ?thesis by simp
    next
      case 2
      with rest have "fly n env fl rt = (r, got, rt')" by simp
      from Suc.IH [OF this Suc.prems(2,3)] show ?thesis .
    qed
  qed (use res Suc.prems(1) k in simp)
qed simp

text \<open>The sequential definition is the uninterrupted flight.\<close>

lemma fly_start: "fly 6 env (launch ragId ttl mode) rt = start_steps env ragId ttl mode rt"
  by (simp add: numeral_eq_Suc launch_def resume_def start_steps_def negotiate_steps_def Let_def
      split: prod.splits sum.splits option.splits)

subsection \<open>Every interleaving\<close>

lemma fly_dispatch:
  "fly n env fl rt = (r, got, rt') \<Longrightarrow> fly n env fl (dispatch_rt a rt) = (r, got, dispatch_rt a rt')"
proof (induction n arbitrary: fl rt)
  case (Suc n)
  obtain q fl' rt1 where res: "resume env fl rt = (q, fl', rt1)" by (cases "resume env fl rt") auto
  from Suc resume_dispatch [OF res, of a] res show ?case by (cases q) auto
qed simp

lemma fly_run: "fly n env fl rt = (r, got, rt') \<Longrightarrow> fly n env fl (run dispatch_rt as rt) = (r, got, run dispatch_rt as rt')"
  by (induction as arbitrary: rt rt') (auto intro: fly_dispatch)

lemma flies_fly:
  "flies env fl rt as r got rt' \<Longrightarrow> \<exists>n rt1. fly n env fl rt = (r, got, rt1) \<and> r \<noteq> Waiting \<and> rt' = run dispatch_rt as rt1"
proof (induction rule: flies.induct)
  case (lands fl rt r fl' rt')
  then have "fly 1 env fl rt = (r, fl_got fl', rt')" by simp
  with resume_not_waiting [OF lands] show ?case by fastforce
next
  case (resumes fl rt fl' rt' as r got rt'')
  then obtain n rt1 where "fly n env fl' rt' = (r, got, rt1)" "r \<noteq> Waiting" "rt'' = run dispatch_rt as rt1" by blast
  moreover from this(1) resumes(1) have "fly (Suc n) env fl rt = (r, got, rt1)" by simp
  ultimately show ?case by blast
next
  case (acts fl a rt as r got rt')
  then obtain n rt1 where fly: "fly n env fl (dispatch_rt a rt) = (r, got, rt1)" and "r \<noteq> Waiting"
    "rt' = run dispatch_rt as rt1" by blast
  obtain r0 got0 rt0 where flown: "fly n env fl rt = (r0, got0, rt0)" by (cases "fly n env fl rt") auto
  from fly fly_dispatch [OF flown, of a] have "r0 = r" "got0 = got" "rt1 = dispatch_rt a rt0" by simp_all
  with flown \<open>r \<noteq> Waiting\<close> \<open>rt' = run dispatch_rt as rt1\<close> show ?case by fastforce
qed

lemma fly_flies: "fly n env fl rt = (r, got, rt') \<Longrightarrow> r \<noteq> Waiting \<Longrightarrow> flies env fl rt [] r got rt'"
proof (induction n arbitrary: fl rt)
  case (Suc n)
  obtain q fl' rt1 where res: "resume env fl rt = (q, fl', rt1)" by (cases "resume env fl rt") auto
  show ?case
  proof (cases q)
    case None
    with res Suc show ?thesis by (auto intro: flies.resumes)
  next
    case (Some x)
    with res Suc.prems flies.lands [of env fl rt x fl' rt1] show ?thesis by simp
  qed
qed simp

lemma flies_acts: "flies env fl (run dispatch_rt as rt) [] r got rt' \<Longrightarrow> flies env fl rt as r got rt'"
  by (induction as arbitrary: rt) (auto intro: flies.acts)

lemma flies_iff:
  "flies env (launch ragId ttl mode) rt as r got rt' \<longleftrightarrow>
     (\<exists>rt1. start_steps env ragId ttl mode rt = (r, got, rt1) \<and> r \<noteq> Waiting \<and> rt' = run dispatch_rt as rt1)"
proof
  assume "flies env (launch ragId ttl mode) rt as r got rt'"
  then obtain n rt1 where "fly n env (launch ragId ttl mode) rt = (r, got, rt1)" "r \<noteq> Waiting"
    "rt' = run dispatch_rt as rt1" using flies_fly by blast
  moreover from this(1,2) have "fly 6 env (launch ragId ttl mode) rt = (r, got, rt1)"
    by (rule fly_rank) (simp add: launch_def)
  ultimately show "\<exists>rt1. start_steps env ragId ttl mode rt = (r, got, rt1) \<and> r \<noteq> Waiting \<and> rt' = run dispatch_rt as rt1"
    by (simp add: fly_start)
next
  assume "\<exists>rt1. start_steps env ragId ttl mode rt = (r, got, rt1) \<and> r \<noteq> Waiting \<and> rt' = run dispatch_rt as rt1"
  then obtain rt1 where "fly 6 env (launch ragId ttl mode) rt = (r, got, rt1)" "r \<noteq> Waiting" "rt' = run dispatch_rt as rt1"
    by (auto simp: fly_start)
  then show "flies env (launch ragId ttl mode) rt as r got rt'"
    by (auto intro: flies_acts fly_flies fly_run)
qed



end
