(* ===== verification/Host_Panels.thy ===== *)
theory Host_Panels
  imports Host_Reducer Gateway_Messages
begin

section \<open>The host page's panels (pages/Host/HostPage.tsx)\<close>

text \<open>
  The smaller pieces of the host page that keep state of their own or build a value others rely on:
  the list of corpora and the LAN address loaded on mount, the viewer link behind the QR code, and the
  staff hint form. How a fetch or a call settles is a parameter.
\<close>

subsection \<open>Corpora\<close>

record corpus_option =
  co_value :: jsstring
  co_label :: jsstring

definition no_corpus :: corpus_option where
  "no_corpus = \<lparr>co_value = [], co_label = lit ''(No corpus '' @ [0x2014] @ lit '' staff provides hints manually)''\<rparr>"

definition RAG_CORPORA_FALLBACK :: "corpus_option list" where
  "RAG_CORPORA_FALLBACK = [no_corpus,
     \<lparr>co_value = lit ''aegis_demo_taiwan'', co_label = lit ''Taiwan (zh-TW Wikipedia demo)''\<rparr>]"

record corpora =
  corporaOptions :: "corpus_option list"
  corporaLoading :: bool
  corporaError :: "jsstring option"
  corpora_cancelled :: bool

definition mount_corpora :: corpora where
  "mount_corpora = \<lparr>corporaOptions = RAG_CORPORA_FALLBACK, corporaLoading = True, corporaError = None,
     corpora_cancelled = False\<rparr>"

datatype corpora_event = CorporaSettled "jsstring + ListCorporaResponse" | CorporaUnmounted

definition corpora_request :: ListCorporaRequest where
  "corpora_request = \<lparr>lcq_tenantId = []\<rparr>"

definition corpus_entry :: "CorpusInfo \<Rightarrow> corpus_option" where
  "corpus_entry c = \<lparr>co_value = corpus_id c,
     co_label = (if corpus_label c \<noteq> [] then corpus_label c else corpus_id c)\<rparr>"

fun corpora_step :: "corpora_event \<Rightarrow> corpora \<Rightarrow> corpora" where
  "corpora_step CorporaUnmounted s = s\<lparr>corpora_cancelled := True\<rparr>"
| "corpora_step (CorporaSettled r) s =
     (if corpora_cancelled s \<or> \<not> corporaLoading s then s
      else case r of
        Inr resp \<Rightarrow> s\<lparr>corporaOptions := no_corpus # map corpus_entry (lcr_corpora resp), corporaError := None, corporaLoading := False\<rparr>
      | Inl msg \<Rightarrow> s\<lparr>corporaError := Some msg, corporaLoading := False\<rparr>)"

definition corpora_ok :: "corpora \<Rightarrow> bool" where
  "corpora_ok s \<longleftrightarrow> corporaOptions s \<noteq> [] \<and> hd (corporaOptions s) = no_corpus
     \<and> (corporaLoading s \<or> corporaError s \<noteq> None \<longrightarrow> corporaOptions s = RAG_CORPORA_FALLBACK)
     \<and> (corporaLoading s \<longrightarrow> corporaError s = None)"

interpretation corpora: machine corpora_step "\<lambda>s. s = mount_corpora" corpora_ok
proof unfold_locales
  fix s e
  assume "corpora_ok s"
  then show "corpora_ok (corpora_step e s)"
    by (cases e) (auto simp: corpora_ok_def RAG_CORPORA_FALLBACK_def split: sum.splits)
qed (simp add: corpora_ok_def mount_corpora_def RAG_CORPORA_FALLBACK_def)

text \<open>The form can always be submitted without a corpus: the first option is the opt-out, and while
  loading or after a failure the options are the fallback list.\<close>

lemma corpora_opt_out:
  "let s = run corpora_step es mount_corpora in
     hd (corporaOptions s) = no_corpus \<and> co_value (hd (corporaOptions s)) = DEFAULT_RAG_ID
   \<and> (corporaError s = None \<or> corporaOptions s = RAG_CORPORA_FALLBACK)"
proof -
  have "corpora_ok (run corpora_step es mount_corpora)" by (rule corpora.reach_inv) simp
  then show ?thesis by (auto simp: corpora_ok_def Let_def no_corpus_def DEFAULT_RAG_ID_def)
qed

subsection \<open>The viewer link\<close>

text \<open>\<open>/lan-ip\<close> answers with an address, without one, or not at all; \<open>None\<close> stands for "still loading".\<close>

datatype lan_result = LanFailed | LanBest "jsstring option"

fun lan_ip :: "lan_result \<Rightarrow> jsstring option" where
  "lan_ip LanFailed = Some []"
| "lan_ip (LanBest best) = Some (case best of Some b \<Rightarrow> b | None \<Rightarrow> [])"

definition isLoopback :: "location \<Rightarrow> bool" where
  "isLoopback l \<longleftrightarrow> loc_hostname l = lit ''localhost'' \<or> loc_hostname l = lit ''127.0.0.1''"

definition viewerOrigin :: "jsstring option \<Rightarrow> location \<Rightarrow> jsstring" where
  "viewerOrigin lanIP l =
     (if lanIP \<noteq> None \<and> lanIP \<noteq> Some [] \<and> isLoopback l
      then loc_protocol l @ lit ''//'' @ the lanIP @ lit '':'' @ (if loc_port l \<noteq> [] then loc_port l else lit ''5173'')
      else loc_origin l)"

definition viewerUrl :: "jsstring option \<Rightarrow> location \<Rightarrow> ActiveMeeting \<Rightarrow> uri_error + jsstring" where
  "viewerUrl lanIP l m = bind_result (encodeURIComponent (viewerToken m)) (\<lambda>t.
     Inr (viewerOrigin lanIP l @ lit ''/view/'' @ sessionId m @ lit ''?token='' @ t))"

definition lanQRReady :: "jsstring option \<Rightarrow> location \<Rightarrow> bool" where
  "lanQRReady lanIP l \<longleftrightarrow> \<not> isLoopback l \<or> (lanIP \<noteq> None \<and> lanIP \<noteq> Some [])"

text \<open>What the viewer page reads off the link: the last path segment and the token parameter.\<close>

lemma query_params_one:
  assumes "0x3F \<notin> set base" and "0x3D \<notin> set k" and "0x26 \<notin> set k" and "encodeURIComponent v = Inr u"
  shows "query_params (base @ 0x3F # k @ 0x3D # u) = [(k, v)]"
proof -
  have "0x26 \<notin> set (k @ 0x3D # u)" using assms(3,4) by (rule encoded_pair_no_amp)
  then have "split_on 0x26 (k @ 0x3D # u) = [k @ 0x3D # u]" by (rule split_on_absent)
  with assms(1,2,4) show ?thesis
    by (simp add: query_params_def dropWhile_until query_pair_append)
qed

text \<open>The link behind the QR code leads back to the meeting: for a well-formed token, and an origin
  and session id free of question marks, the link's only parameter is the token, intact; a host on a
  loopback address with a known LAN address gets a link to that address, and the page warns exactly
  when the link would point at the loopback address itself.\<close>

lemma viewer_link:
  assumes "0x3F \<notin> set (viewerOrigin lanIP l @ sessionId m)"
  shows "(case viewerUrl lanIP l m of
      Inr url \<Rightarrow> query_params url = [(lit ''token'', viewerToken m)]
        \<and> (\<exists>rest. url = viewerOrigin lanIP l @ lit ''/view/'' @ sessionId m @ 0x3F # rest)
    | Inl _ \<Rightarrow> \<not> well_formed (viewerToken m))
   \<and> (lanQRReady lanIP l \<longleftrightarrow> (if isLoopback l then (\<exists>ip. lanIP = Some ip \<and> ip \<noteq> [] \<and> viewerOrigin lanIP l =
        loc_protocol l @ lit ''//'' @ ip @ lit '':'' @ (if loc_port l \<noteq> [] then loc_port l else lit ''5173'')) else True))"
proof -
  have ready: "lanQRReady lanIP l \<longleftrightarrow> (if isLoopback l then (\<exists>ip. lanIP = Some ip \<and> ip \<noteq> [] \<and> viewerOrigin lanIP l =
        loc_protocol l @ lit ''//'' @ ip @ lit '':'' @ (if loc_port l \<noteq> [] then loc_port l else lit ''5173'')) else True)"
    by (auto simp: lanQRReady_def viewerOrigin_def)
  show ?thesis
  proof (cases "encodeURIComponent (viewerToken m)")
    case (Inl e)
    with ready encodeURIComponent_total_iff [of "viewerToken m"] show ?thesis
      by (simp add: viewerUrl_def)
  next
    case (Inr t)
    let ?base = "viewerOrigin lanIP l @ lit ''/view/'' @ sessionId m"
    have url: "viewerUrl lanIP l m = Inr (?base @ 0x3F # lit ''token'' @ 0x3D # t)"
      using Inr by (simp add: viewerUrl_def js_eval)
    have "0x3F \<notin> set ?base" using assms by (simp add: js_eval)
    moreover have "0x3D \<notin> set (lit ''token'')" "0x26 \<notin> set (lit ''token'')" by (simp_all add: js_eval)
    ultimately have "query_params (?base @ 0x3F # lit ''token'' @ 0x3D # t) = [(lit ''token'', viewerToken m)]"
      using Inr by (rule query_params_one)
    with ready url show ?thesis by simp
  qed
qed

definition a_location :: location where
  "a_location = \<lparr>loc_protocol = lit ''http:'', loc_hostname = lit ''localhost'', loc_port = lit ''5173'',
     loc_origin = lit ''http://localhost:5173''\<rparr>"

lemma viewer_link_witness:
  "lanQRReady (Some (lit ''192.168.1.4'')) a_location \<and>
   viewerOrigin (Some (lit ''192.168.1.4'')) a_location = lit ''http:'' @ lit ''//'' @ lit ''192.168.1.4'' @ lit '':'' @ lit ''5173''"
proof -
  let ?m = "start_meeting a_form a_meeting" and ?ip = "Some (lit ''192.168.1.4'')"
  have "0x3F \<notin> set (viewerOrigin ?ip a_location @ sessionId ?m)"
    by (simp add: viewerOrigin_def a_location_def isLoopback_def start_meeting_def a_meeting_def js_eval)
  from viewer_link [OF this] have "lanQRReady ?ip a_location \<longleftrightarrow> (if isLoopback a_location then
      (\<exists>ip. ?ip = Some ip \<and> ip \<noteq> [] \<and> viewerOrigin ?ip a_location = loc_protocol a_location @ lit ''//'' @ ip @ lit '':''
        @ (if loc_port a_location \<noteq> [] then loc_port a_location else lit ''5173'')) else True)" by blast
  moreover have "lanQRReady ?ip a_location" by (simp add: lanQRReady_def)
  ultimately show ?thesis by (simp add: isLoopback_def a_location_def)
qed

subsection \<open>The staff hint form\<close>

record staff_form =
  sf_suggestion :: jsstring
  sf_urgency :: HintUrgency
  sf_sending :: bool
  sf_sendError :: "jsstring option"
  sf_requests :: "SendOfficerHintRequest list"

definition mount_staff_form :: staff_form where
  "mount_staff_form = \<lparr>sf_suggestion = [], sf_urgency = HighUrgency, sf_sending = False, sf_sendError = None,
     sf_requests = []\<rparr>"

definition staff_submit :: "jsstring \<Rightarrow> jsstring \<Rightarrow> staff_form \<Rightarrow> staff_form" where
  "staff_submit sid token f =
     (let trimmed = trim (sf_suggestion f) in
      if trimmed = [] then f
      else f\<lparr>sf_sending := True, sf_sendError := None,
             sf_requests := sf_requests f @ [\<lparr>oh_sessionId = sid, oh_viewerToken = token, oh_suggestion = trimmed,
               oh_rationale = [], oh_urgency = toProtoUrgency (sf_urgency f)\<rparr>]\<rparr>)"

definition staff_settled :: "jsstring + unit \<Rightarrow> staff_form \<Rightarrow> staff_form" where
  "staff_settled r f = (case r of
     Inr _ \<Rightarrow> f\<lparr>sf_suggestion := [], sf_sending := False\<rparr>
   | Inl msg \<Rightarrow> f\<lparr>sf_sendError := Some msg, sf_sending := False\<rparr>)"

text \<open>The controls: the input takes at most 500 UTF-16 units, and input, select and button are disabled
  while a hint is being sent.\<close>

datatype staff_event = TypedHint jsstring | PickedUrgency HintUrgency | SubmittedHint | HintSettled "jsstring + unit"

fun staff_step :: "jsstring \<Rightarrow> jsstring \<Rightarrow> staff_event \<Rightarrow> staff_form \<Rightarrow> staff_form" where
  "staff_step sid token (TypedHint s) f =
     (if sf_sending f \<or> 500 < length s then f else f\<lparr>sf_suggestion := s\<rparr>)"
| "staff_step sid token (PickedUrgency u) f = (if sf_sending f then f else f\<lparr>sf_urgency := u\<rparr>)"
| "staff_step sid token SubmittedHint f =
     (if sf_sending f \<or> trim (sf_suggestion f) = [] then f else staff_submit sid token f)"
| "staff_step sid token (HintSettled r) f = (if sf_sending f then staff_settled r f else f)"

definition good_request :: "jsstring \<Rightarrow> jsstring \<Rightarrow> SendOfficerHintRequest \<Rightarrow> bool" where
  "good_request sid token r \<longleftrightarrow> oh_sessionId r = sid \<and> oh_viewerToken r = token \<and> oh_suggestion r \<noteq> []
     \<and> trim (oh_suggestion r) = oh_suggestion r \<and> length (oh_suggestion r) \<le> 500 \<and> oh_rationale r = []
     \<and> oh_urgency r \<in> {1, 2, 3, 4}"

definition staff_ok :: "jsstring \<Rightarrow> jsstring \<Rightarrow> staff_form \<Rightarrow> bool" where
  "staff_ok sid token f \<longleftrightarrow> length (sf_suggestion f) \<le> 500 \<and> list_all (good_request sid token) (sf_requests f)"

lemma length_trim: "length (trim s) \<le> length s"
proof -
  obtain a b where "s = a @ trim s @ b" using trim_infix by blast
  then have "length s = length a + length (trim s) + length b" by (metis length_append add.assoc)
  then show ?thesis by simp
qed

lemma staff_submit_ok:
  assumes "staff_ok sid token f"
  shows "staff_ok sid token (staff_submit sid token f)"
proof -
  have "toProtoUrgency u \<in> {1, 2, 3, 4}" for u by (cases u) simp_all
  with assms length_trim [of "sf_suggestion f"] show ?thesis
    by (auto simp: staff_ok_def staff_submit_def Let_def good_request_def)
qed

interpretation staff_form: machine "staff_step sid token" "\<lambda>f. f = mount_staff_form" "staff_ok sid token" for sid token
proof unfold_locales
  fix f e
  assume ok: "staff_ok sid token f"
  then show "staff_ok sid token (staff_step sid token e f)"
    by (cases e) (auto simp: staff_submit_ok, auto simp: staff_ok_def staff_settled_def split: sum.splits)
qed (simp add: staff_ok_def mount_staff_form_def)

text \<open>C39. Whatever the host types and clicks, and however the calls settle, every hint request sent is
  for this session, non-empty, without surrounding white space, of at most 500 UTF-16 units, without a
  rationale and with a specified urgency. The limit counts units and not bytes: 500 CJK characters
  pass the form and take 1500 bytes, three times what the gateway accepts.\<close>

theorem staff_hint_requests:
  "list_all (good_request sid token) (sf_requests (run (staff_step sid token) es mount_staff_form))
   \<and> length (concat (map utf8 (the (codepoints (replicate 500 0x4E2D))))) = 1500
   \<and> sf_requests (run (staff_step sid token) [TypedHint (replicate 500 0x4E2D), SubmittedHint] mount_staff_form)
     = [\<lparr>oh_sessionId = sid, oh_viewerToken = token, oh_suggestion = replicate 500 0x4E2D, oh_rationale = [],
         oh_urgency = 3\<rparr>]"
proof -
  have "staff_ok sid token (run (staff_step sid token) es mount_staff_form)"
    by (rule staff_form.reach_inv) simp
  then have "list_all (good_request sid token) (sf_requests (run (staff_step sid token) es mount_staff_form))"
    by (simp add: staff_ok_def)
  moreover have "codepoints (replicate n 0x4E2D) = Some (replicate n 0x4E2D)" for n
    by (induction n) (auto simp: is_high_def is_low_def)
  then have "length (concat (map utf8 (the (codepoints (replicate 500 0x4E2D))))) = 1500"
    by (simp add: utf8_def length_concat sum_list_replicate)
  moreover have "trim (replicate 500 0x4E2D) = replicate 500 0x4E2D"
    by (rule trim_fixed) (simp add: js_space_def)
  then have "sf_requests (run (staff_step sid token) [TypedHint (replicate 500 0x4E2D), SubmittedHint] mount_staff_form)
     = [\<lparr>oh_sessionId = sid, oh_viewerToken = token, oh_suggestion = replicate 500 0x4E2D, oh_rationale = [],
         oh_urgency = 3\<rparr>]"
    by (simp add: mount_staff_form_def staff_submit_def Let_def)
  ultimately show ?thesis by blast
qed

end
