(* ===== verification/Viewer.thy ===== *)
theory Viewer
  imports Stitcher Transcript_Stream Hint_Styling
begin

section \<open>The viewer page (pages/Viewer/ViewerPage.tsx)\<close>

text \<open>
  The viewer's state, its stream callbacks, the stitcher it feeds through the hook
  \<open>useSentenceStitcher\<close>, and the effect that holds its subscription. A step is one thing that happens
  to the page: a callback of the subscription, time passing, or a dismissed hint; the state updates of
  the step are followed by the re-render and the effects React runs when a state value changed.
  Strings are compared by value; a new array or object always counts as a change.
\<close>

definition PROMPTER_WINDOW :: nat where
  "PROMPTER_WINDOW = 5"

record shown_line =
  vl_text :: jsstring
  vl_speaker :: jsstring
  vl_isQuestion :: bool

record shown_hint =
  vh_suggestion :: jsstring
  vh_urgency :: HintUrgency

text \<open>\<open>v_objects\<close> counts the arrays and objects handed to \<open>setTranscript\<close> and \<open>setHint\<close>; \<open>v_render\<close>
  numbers the renders; \<open>v_effect_push\<close> is the \<open>pushSegment\<close> the running effect depends on.\<close>

record viewer =
  v_state :: MeetingState
  v_stateReason :: "jsstring option"
  v_transcript :: "shown_line list"
  v_hint :: "shown_hint option"
  v_error :: "jsstring option"
  v_objects :: nat
  v_stitcher :: SentenceStitcher
  v_render :: nat
  v_effect_push :: "nat option"
  v_opened :: nat
  v_closed :: nat

definition shown :: "StitchedLine \<Rightarrow> shown_line" where
  "shown l = \<lparr>vl_text = sl_text l, vl_speaker = sl_speaker l, vl_isQuestion = sl_isQuestion l\<rparr>"

definition appendStitchedLine :: "StitchedLine \<Rightarrow> viewer \<Rightarrow> viewer" where
  "appendStitchedLine l v = v\<lparr>v_transcript := slice_last PROMPTER_WINDOW (v_transcript v @ [shown l]),
     v_objects := Suc (v_objects v)\<rparr>"

text \<open>An operation of the stitcher calls \<open>onLine\<close> for every line it emits.\<close>

definition with_stitcher :: "(SentenceStitcher \<Rightarrow> SentenceStitcher) \<Rightarrow> viewer \<Rightarrow> viewer" where
  "with_stitcher f v =
     (let st = f (v_stitcher v)
      in foldl (\<lambda>v l. appendStitchedLine l v) (v\<lparr>v_stitcher := st\<rparr>)
           (drop (length (onLine_log (v_stitcher v))) (onLine_log st)))"

definition viewer_onEvent :: "ViewerEvent \<Rightarrow> viewer \<Rightarrow> viewer" where
  "viewer_onEvent event v =
     (let v = v\<lparr>v_error := None\<rparr> in
      case event of
        VTranscript t \<Rightarrow> with_stitcher (pushSegment default_options
          \<lparr>si_text = te_text t, si_speakerLabel = te_speakerLabel t, si_isQuestion = te_isQuestion t\<rparr>) v
      | VHint h \<Rightarrow> v\<lparr>v_hint := Some \<lparr>vh_suggestion = he_suggestion h, vh_urgency = he_urgency h\<rparr>,
          v_objects := Suc (v_objects v)\<rparr>
      | VState s \<Rightarrow> v\<lparr>v_state := se_state s, v_stateReason := se_reason s\<rparr>)"

definition viewer_onError :: "jsstring \<Rightarrow> viewer \<Rightarrow> viewer" where
  "viewer_onError msg v = v\<lparr>v_error := Some msg\<rparr>"

definition viewer_onClose :: "jsstring option \<Rightarrow> viewer \<Rightarrow> viewer" where
  "viewer_onClose reason v = v\<lparr>v_stateReason :=
     Some (case reason of Some r \<Rightarrow> r | None \<Rightarrow> lit ''stream closed'')\<rparr>"

subsection \<open>Rendering and the subscription effect\<close>

text \<open>The hook returns a function literal, a new object for every render.\<close>

definition hook_pushSegment :: "viewer \<Rightarrow> nat" where
  "hook_pushSegment v = v_render v"

text \<open>The effect with dependencies \<open>[provider, sessionId, token, pushSegment]\<close>. Its cleanup
  unsubscribes: the Cloud stub reports that through \<open>onClose\<close>, the WebSocket transport does not.\<close>

definition viewer_effect :: "TranscriptStreamProvider \<Rightarrow> viewer \<Rightarrow> viewer" where
  "viewer_effect provider v =
     (if v_effect_push v = Some (hook_pushSegment v) then v
      else let v = (case v_effect_push v of
                      None \<Rightarrow> v
                    | Some _ \<Rightarrow> (let v = v\<lparr>v_closed := Suc (v_closed v)\<rparr> in
                        case provider of
                          GrpcWebTranscriptStreamProvider _ \<Rightarrow> viewer_onClose (Some (lit ''unsubscribed'')) v
                        | WebSocketTranscriptStreamProvider _ \<Rightarrow> v))
           in v\<lparr>v_effect_push := Some (hook_pushSegment v), v_opened := Suc (v_opened v)\<rparr>)"

definition rerender :: "TranscriptStreamProvider \<Rightarrow> viewer \<Rightarrow> viewer" where
  "rerender provider v = viewer_effect provider (v\<lparr>v_render := Suc (v_render v)\<rparr>)"

definition appearance :: "viewer \<Rightarrow> MeetingState \<times> jsstring option \<times> jsstring option \<times> nat" where
  "appearance v = (v_state v, v_stateReason v, v_error v, v_objects v)"

text \<open>After a step: render if a state value changed, and once more if the effect itself changed one.
  A second cleanup sets the reason it finds already, so two renders are enough.\<close>

definition settle :: "TranscriptStreamProvider \<Rightarrow> viewer \<Rightarrow> viewer \<Rightarrow> viewer" where
  "settle provider old v =
     (if appearance v = appearance old then v
      else let w = rerender provider v
           in if appearance w = appearance v then w else rerender provider w)"

text \<open>The first render, with both URL parameters present.\<close>

definition viewer_mount :: "TranscriptStreamProvider \<Rightarrow> viewer" where
  "viewer_mount provider = viewer_effect provider
     \<lparr>v_state = ActiveMeetingState, v_stateReason = None, v_transcript = [], v_hint = None, v_error = None,
      v_objects = 0, v_stitcher = createSentenceStitcher, v_render = 1, v_effect_push = None,
      v_opened = 0, v_closed = 0\<rparr>"

datatype viewer_event =
    StreamEvent ViewerEvent
  | StreamError jsstring
  | StreamClosed "jsstring option"
  | TimeElapsed nat
  | HintDismissed

fun viewer_handle :: "viewer_event \<Rightarrow> viewer \<Rightarrow> viewer" where
  "viewer_handle (StreamEvent e) v = viewer_onEvent e v"
| "viewer_handle (StreamError msg) v = viewer_onError msg v"
| "viewer_handle (StreamClosed r) v = viewer_onClose r v"
| "viewer_handle (TimeElapsed dt) v = with_stitcher (elapse dt) v"
| "viewer_handle HintDismissed v =
     (if v_hint v = None then v else v\<lparr>v_hint := None, v_objects := Suc (v_objects v)\<rparr>)"

definition viewer_step :: "TranscriptStreamProvider \<Rightarrow> viewer_event \<Rightarrow> viewer \<Rightarrow> viewer" where
  "viewer_step provider e v = settle provider v (viewer_handle e v)"

text \<open>\<open>HintDisplay\<close>: the style, whether it is announced as an alert and whether it can be dismissed.\<close>

definition HintDisplay :: "shown_hint \<Rightarrow> HintStyleSpec \<times> bool \<times> jsstring" where
  "HintDisplay h = (let spec = hintStyleForUrgency (vh_urgency h)
     in (spec, prominence spec = Banner, vh_suggestion h))"

subsection \<open>The window\<close>

lemma runTimers_log: "\<exists>new. onLine_log (runTimers ts s) = onLine_log s @ new"
proof (induction ts arbitrary: s)
  case Nil
  then show ?case by simp
next
  case (Cons t ts)
  have flush: "\<exists>new. onLine_log (flush b s) = onLine_log s @ new" for b s
    by (auto simp: flush_def Let_def clearTimeout_def split: option.splits)
  obtain u where u: "runTimers (t # ts) s = runTimers ts u" "\<exists>new. onLine_log u = onLine_log s @ new"
    using flush [of False "s\<lparr>clock := snd t, scheduled := filter (\<lambda>u. u \<noteq> t) (scheduled s), timer := None\<rparr>"]
    by (fastforce simp: timeoutCallback_def)
  with Cons.IH [of u] show ?case by auto
qed

lemma pushSegment_log: "\<exists>new. onLine_log (pushSegment opts seg s) = onLine_log s @ new"
  by (auto simp: pushSegment_def flush_def Let_def clearTimeout_def setTimeout_def split: option.splits prod.splits)

lemma elapse_log: "\<exists>new. onLine_log (elapse dt s) = onLine_log s @ new"
  using runTimers_log by (simp add: elapse_def Let_def)

lemma append_lines:
  "foldl (\<lambda>v l. appendStitchedLine l v) v ls = v\<lparr>
     v_transcript := foldl (\<lambda>ts l. slice_last PROMPTER_WINDOW (ts @ [shown l])) (v_transcript v) ls,
     v_objects := v_objects v + length ls\<rparr>"
  by (induction ls arbitrary: v) (simp_all add: appendStitchedLine_def)

lemma foldl_window:
  "foldl (\<lambda>ts l. slice_last n (ts @ [f l])) (slice_last n (map f xs)) ys = slice_last n (map f (xs @ ys))"
proof (induction ys rule: rev_induct)
  case Nil
  show ?case by simp
next
  case (snoc y ys)
  then show ?case using slice_last_append_slice [of n "map f (xs @ ys)" "[f y]"] by simp
qed

definition window_ok :: "viewer \<Rightarrow> bool" where
  "window_ok v \<longleftrightarrow> v_transcript v = slice_last PROMPTER_WINDOW (map shown (onLine_log (v_stitcher v)))
     \<and> v_effect_push v = Some (v_render v) \<and> v_opened v = Suc (v_closed v)"

lemma with_stitcher_window:
  assumes "\<exists>new. onLine_log (f (v_stitcher v)) = onLine_log (v_stitcher v) @ new"
    and "v_transcript v = slice_last PROMPTER_WINDOW (map shown (onLine_log (v_stitcher v)))"
  shows "v_transcript (with_stitcher f v) = slice_last PROMPTER_WINDOW (map shown (onLine_log (f (v_stitcher v))))"
  using assms by (auto simp: with_stitcher_def Let_def append_lines foldl_window)

lemma with_stitcher_frame [simp]:
  "v_render (with_stitcher f v) = v_render v" "v_effect_push (with_stitcher f v) = v_effect_push v"
  "v_opened (with_stitcher f v) = v_opened v" "v_closed (with_stitcher f v) = v_closed v"
  "v_error (with_stitcher f v) = v_error v" "v_stitcher (with_stitcher f v) = f (v_stitcher v)"
  by (simp_all add: with_stitcher_def Let_def append_lines)

lemma rerender_frame [simp]:
  "v_transcript (rerender p v) = v_transcript v" "v_stitcher (rerender p v) = v_stitcher v"
  "v_error (rerender p v) = v_error v" "v_hint (rerender p v) = v_hint v"
  by (simp_all add: rerender_def viewer_effect_def viewer_onClose_def Let_def
      split: option.splits TranscriptStreamProvider.splits)

lemma rerender_counts:
  assumes "v_effect_push v = Some (v_render v)"
  shows "v_effect_push (rerender p v) = Some (v_render (rerender p v))"
    "v_opened (rerender p v) = Suc (v_opened v)" "v_closed (rerender p v) = Suc (v_closed v)"
  using assms by (simp_all add: rerender_def viewer_effect_def hook_pushSegment_def viewer_onClose_def Let_def
      split: option.splits TranscriptStreamProvider.splits)

lemma handle_window:
  assumes "window_ok v"
  shows "window_ok (viewer_handle e v)"
proof (cases e)
  case (StreamEvent ev)
  with assms show ?thesis
    by (cases ev) (auto simp: viewer_onEvent_def window_ok_def Let_def with_stitcher_window pushSegment_log)
next
  case (TimeElapsed dt)
  with assms show ?thesis by (auto simp: window_ok_def with_stitcher_window elapse_log)
qed (use assms in \<open>auto simp: window_ok_def viewer_onError_def viewer_onClose_def\<close>)

lemma rerender_window: "window_ok v \<Longrightarrow> window_ok (rerender p v)"
  by (auto simp: window_ok_def rerender_counts)

interpretation viewer: machine "viewer_step p" "\<lambda>v. v = viewer_mount p" window_ok for p
proof unfold_locales
  fix v e
  assume "window_ok v"
  then have "window_ok (viewer_handle e v)" by (rule handle_window)
  then show "window_ok (viewer_step p e v)"
    by (simp add: viewer_step_def settle_def Let_def rerender_window)
next
  fix v
  assume "v = viewer_mount p"
  then show "window_ok v"
    by (simp add: viewer_mount_def viewer_effect_def window_ok_def hook_pushSegment_def slice_last_def
        createSentenceStitcher_def)
qed

text \<open>What the page's history means to the stitcher.\<close>

fun stitch_inputs :: "viewer_event list \<Rightarrow> stitcher_event list" where
  "stitch_inputs [] = []"
| "stitch_inputs (StreamEvent (VTranscript t) # es) =
     Push \<lparr>si_text = te_text t, si_speakerLabel = te_speakerLabel t, si_isQuestion = te_isQuestion t\<rparr> # stitch_inputs es"
| "stitch_inputs (TimeElapsed dt # es) = Elapse dt # stitch_inputs es"
| "stitch_inputs (_ # es) = stitch_inputs es"

lemma settle_frame [simp]:
  "v_stitcher (settle p old v) = v_stitcher v" "v_error (settle p old v) = v_error v"
  "v_transcript (settle p old v) = v_transcript v" "v_hint (settle p old v) = v_hint v"
  by (simp_all add: settle_def Let_def)

lemma run_stitcher:
  "window_ok v \<Longrightarrow> v_stitcher (run (viewer_step p) es v) = run (stitcher_step default_options) (stitch_inputs es) (v_stitcher v)"
  by (induction es arbitrary: v rule: stitch_inputs.induct)
    (simp_all add: viewer.step_inv, simp_all add: viewer_step_def viewer_onEvent_def viewer_onError_def
      viewer_onClose_def Let_def)

lemma viewer_stitcher:
  "v_stitcher (run (viewer_step p) es (viewer_mount p)) = stitch default_options (stitch_inputs es)"
proof -
  have "window_ok (viewer_mount p)" by (rule viewer.start_inv) simp
  moreover have "v_stitcher (viewer_mount p) = createSentenceStitcher"
    by (simp add: viewer_mount_def viewer_effect_def)
  ultimately show ?thesis by (simp add: run_stitcher)
qed

subsection \<open>Properties\<close>

text \<open>C20. The prompter shows exactly the last five lines that the stitcher makes of the segments
  delivered, in order and whatever else happens on the page; a stream error stays only until the next
  event; and at every moment exactly one subscription is open.\<close>

theorem viewer_refines_stitcher:
  "let v = run (viewer_step p) es (viewer_mount p) in
     v_stitcher v = stitch default_options (stitch_inputs es)
   \<and> v_transcript v = slice_last 5 (map shown (onLine_log (stitch default_options (stitch_inputs es))))
   \<and> v_opened v = v_closed v + 1
   \<and> v_error (viewer_step p (StreamEvent e) v) = None"
proof -
  have ok: "window_ok (run (viewer_step p) es (viewer_mount p))" by (rule viewer.reach_inv) simp
  have "v_error (viewer_step p (StreamEvent e) v) = None" for v
    by (cases e) (simp_all add: viewer_step_def viewer_onEvent_def Let_def)
  with ok viewer_stitcher [of p es] show ?thesis by (simp add: Let_def window_ok_def PROMPTER_WINDOW_def)
qed

lemma rerender_appearance: "appearance (rerender (WebSocketTranscriptStreamProvider cfg) v) = appearance v"
  by (simp add: rerender_def viewer_effect_def appearance_def Let_def split: option.splits)

lemma handle_counts: "v_opened (viewer_handle e v) = v_opened v" "v_closed (viewer_handle e v) = v_closed v"
  by (cases e; auto simp: viewer_onEvent_def viewer_onError_def viewer_onClose_def Let_def split: ViewerEvent.splits)+

text \<open>The function the hook returns is new in every render, so the effect that depends on it runs
  again after every visible change: each hint that arrives over the WebSocket closes the socket and
  opens a new one, although nothing the subscription depends on has changed, and so does each
  stitched line.\<close>

lemma viewer_resubscribes:
  "let v = run (viewer_step (WebSocketTranscriptStreamProvider cfg)) es
             (viewer_mount (WebSocketTranscriptStreamProvider cfg));
       w = viewer_step (WebSocketTranscriptStreamProvider cfg) e v
   in v_opened w = v_opened v + (if appearance (viewer_handle e v) = appearance v then 0 else 1)
      \<and> (case e of StreamEvent (VHint _) \<Rightarrow> v_opened w = v_opened v + 1 \<and> v_closed w = v_closed v + 1 | _ \<Rightarrow> True)"
proof -
  let ?p = "WebSocketTranscriptStreamProvider cfg"
  define v where "v = run (viewer_step ?p) es (viewer_mount ?p)"
  have ok: "window_ok v" unfolding v_def by (rule viewer.reach_inv) simp
  define h where "h = viewer_handle e v"
  have h: "window_ok h" "v_opened h = v_opened v" "v_closed h = v_closed v"
    using handle_window [OF ok, of e] unfolding h_def by (simp_all add: handle_counts del: viewer_handle.simps)
  have "v_opened (viewer_step ?p e v) = v_opened v + (if appearance h = appearance v then 0 else 1)"
    "v_closed (viewer_step ?p e v) = v_closed v + (if appearance h = appearance v then 0 else 1)"
    using h rerender_counts [of h ?p] rerender_appearance [of cfg h]
    by (simp_all add: viewer_step_def settle_def Let_def h_def [symmetric] window_ok_def)
  moreover have "appearance h \<noteq> appearance v" if "e = StreamEvent (VHint x)" for x
    using that by (simp add: h_def viewer_onEvent_def Let_def appearance_def)
  ultimately show ?thesis
    by (auto simp: Let_def v_def [symmetric] h_def [symmetric] split: viewer_event.split ViewerEvent.split)
qed

text \<open>In Cloud mode the page never comes to rest: every state event of the stub transport makes the
  effect unsubscribe, which reports a close, which changes the shown reason, which renders and
  subscribes again; each new subscription delivers its own state event, so after \<open>n\<close> of them the page
  has opened \<open>2 * n + 1\<close> subscriptions.\<close>

lemma cloud_viewer_never_rests:
  "let v = run (viewer_step (GrpcWebTranscriptStreamProvider endpoint))
             (map (\<lambda>now. StreamEvent (grpc_stub_event endpoint now)) clocks)
             (viewer_mount (GrpcWebTranscriptStreamProvider endpoint))
   in v_opened v = 2 * length clocks + 1 \<and> v_closed v = 2 * length clocks"
proof -
  let ?p = "GrpcWebTranscriptStreamProvider endpoint"
  let ?run = "\<lambda>clocks. run (viewer_step ?p) (map (\<lambda>now. StreamEvent (grpc_stub_event endpoint now)) clocks) (viewer_mount ?p)"
  have "v_opened (?run clocks) = 2 * length clocks + 1 \<and> (v_stateReason (?run clocks) = None
      \<or> v_stateReason (?run clocks) = Some (lit ''unsubscribed''))" for clocks
  proof (induction clocks rule: rev_induct)
    case Nil
    show ?case by (simp add: viewer_mount_def viewer_effect_def)
  next
    case (snoc now clocks)
    have ok: "window_ok (?run clocks)" by (rule viewer.reach_inv) simp
    have "v_opened (viewer_step ?p (StreamEvent (grpc_stub_event endpoint now)) v) = v_opened v + 2
        \<and> v_stateReason (viewer_step ?p (StreamEvent (grpc_stub_event endpoint now)) v) = Some (lit ''unsubscribed'')"
      if "window_ok v" "v_stateReason v = None \<or> v_stateReason v = Some (lit ''unsubscribed'')" for v
      using that by (auto simp: viewer_step_def settle_def viewer_onEvent_def grpc_stub_event_def appearance_def
          rerender_def viewer_effect_def hook_pushSegment_def viewer_onClose_def window_ok_def Let_def js_eval)
    from this [OF ok] snoc show ?case by simp
  qed
  moreover have "window_ok (?run clocks)" by (rule viewer.reach_inv) simp
  ultimately show ?thesis by (simp add: Let_def window_ok_def)
qed

end
