(* ===== verification/Json.thy ===== *)
theory Json
  imports Js_String
begin

section \<open>JSON text\<close>

text \<open>
  What the frontend uses of \<open>JSON\<close>: \<open>stringify\<close>, compact and with two-space indentation, and
  \<open>parse\<close>. Numbers are kept as their literal, objects as the list of their members in order. A string
  is a list of UTF-16 code units; lone surrogates are written as escapes, as the language prescribes.
  The main result is that every text \<open>stringify\<close> produces parses back to the value.
\<close>

datatype json =
    JNull
  | JBool bool
  | JNumber jsstring
  | JString jsstring
  | JArray "json list"
  | JObject "(jsstring \<times> json) list"

subsection \<open>Strings\<close>

definition lower_hex :: "nat \<Rightarrow> u16" where
  "lower_hex n = (if n < 10 then of_nat (0x30 + n) else of_nat (0x57 + n))"

definition u_escape :: "u16 \<Rightarrow> jsstring" where
  "u_escape c = (let n = unat c in
     [0x5C, 0x75, lower_hex (n div 4096), lower_hex (n div 256 mod 16), lower_hex (n div 16 mod 16), lower_hex (n mod 16)])"

definition quote_unit :: "u16 \<Rightarrow> jsstring" where
  "quote_unit c =
     (if c = 0x22 then [0x5C, 0x22] else if c = 0x5C then [0x5C, 0x5C]
      else if c = 0x08 then [0x5C, 0x62] else if c = 0x0C then [0x5C, 0x66]
      else if c = 0x0A then [0x5C, 0x6E] else if c = 0x0D then [0x5C, 0x72]
      else if c = 0x09 then [0x5C, 0x74] else if c < 0x20 then u_escape c
      else [c])"

fun quote_units :: "jsstring \<Rightarrow> jsstring" where
  "quote_units [] = []"
| "quote_units (c # cs) =
     (if is_high c then
        (case cs of
           d # ds \<Rightarrow> if is_low d then c # d # quote_units ds else u_escape c @ quote_units cs
         | [] \<Rightarrow> u_escape c)
      else if is_low c then u_escape c @ quote_units cs
      else quote_unit c @ quote_units cs)"

definition quote :: "jsstring \<Rightarrow> jsstring" where
  "quote s = 0x22 # quote_units s @ [0x22]"

definition read_hex :: "u16 \<Rightarrow> nat option" where
  "read_hex c = (let n = unat c in
     if 0x30 \<le> n \<and> n \<le> 0x39 then Some (n - 0x30)
     else if 0x61 \<le> n \<and> n \<le> 0x66 then Some (n - 0x57)
     else if 0x41 \<le> n \<and> n \<le> 0x46 then Some (n - 0x37) else None)"

definition read_escape :: "u16 \<Rightarrow> u16 option" where
  "read_escape c = map_of [(0x22, 0x22), (0x5C, 0x5C), (0x2F, 0x2F), (0x62, 0x08), (0x66, 0x0C),
     (0x6E, 0x0A), (0x72, 0x0D), (0x74, 0x09)] c"

definition read_u :: "u16 \<Rightarrow> u16 \<Rightarrow> u16 \<Rightarrow> u16 \<Rightarrow> u16 option" where
  "read_u a b c d = (case (read_hex a, read_hex b, read_hex c, read_hex d) of
     (Some p, Some q, Some r, Some s) \<Rightarrow> Some (of_nat (p * 4096 + q * 256 + r * 16 + s))
   | _ \<Rightarrow> None)"

definition cons_unit :: "u16 \<Rightarrow> (jsstring \<times> jsstring) option \<Rightarrow> (jsstring \<times> jsstring) option" where
  "cons_unit c r = map_option (\<lambda>(s, rest). (c # s, rest)) r"

lemma cons_unit_Some [simp]: "cons_unit c (Some (s, r)) = Some (c # s, r)" "cons_unit c None = None"
  by (simp_all add: cons_unit_def)

text \<open>The rest of a string literal, after its opening quote.\<close>

fun lex_string :: "jsstring \<Rightarrow> (jsstring \<times> jsstring) option" where
  "lex_string [] = None"
| "lex_string (c # cs) =
     (if c = 0x22 then Some ([], cs)
      else if c = 0x5C then
        (case cs of
           [] \<Rightarrow> None
         | e # es \<Rightarrow> (case read_escape e of
             Some u \<Rightarrow> cons_unit u (lex_string es)
           | None \<Rightarrow> if e = 0x75 then
               (case es of
                  h1 # h2 # h3 # h4 # rest \<Rightarrow> (case read_u h1 h2 h3 h4 of
                    Some u \<Rightarrow> cons_unit u (lex_string rest) | None \<Rightarrow> None)
                | _ \<Rightarrow> None)
               else None))
      else if c < 0x20 then None
      else cons_unit c (lex_string cs))"

lemma cons_unit_eq_Some: "cons_unit c x = Some (t, r) \<longleftrightarrow> (\<exists>u. x = Some (u, r) \<and> t = c # u)"
  by (auto simp: cons_unit_def)

lemma lex_string_escape:
  assumes "lex_string (0x5C # cs) = Some (t, r)"
  obtains u rest t' where "t = u # t'" "lex_string rest = Some (t', r)" "length rest < length cs"
proof (cases cs)
  case Nil
  with assms show ?thesis by simp
next
  case (Cons e es)
  show ?thesis
  proof (cases "read_escape e")
    case (Some u)
    with assms Cons that [of u _ es] show ?thesis by (auto simp: cons_unit_eq_Some)
  next
    case None
    with assms Cons have u: "e = 0x75" by (simp split: if_splits)
    show ?thesis
    proof (cases "\<exists>h1 h2 h3 h4 rest. es = h1 # h2 # h3 # h4 # rest")
      case True
      then obtain h1 h2 h3 h4 rest where es: "es = h1 # h2 # h3 # h4 # rest" by blast
      show ?thesis
      proof (cases "read_u h1 h2 h3 h4")
        case (Some v)
        with assms Cons None u es that [of v _ rest] show ?thesis by (auto simp: cons_unit_eq_Some)
      qed (use assms Cons None u es in simp)
    next
      case False
      with assms Cons None u show ?thesis by (simp split: list.splits)
    qed
  qed
qed

lemma lex_string_shorter: "lex_string s = Some (t, r) \<Longrightarrow> length r < length s"
proof (induction "length s" arbitrary: s t r rule: less_induct)
  case less
  show ?case
  proof (cases s)
    case Nil
    with less.prems show ?thesis by simp
  next
    case (Cons c cs)
    consider "c = 0x22" | "c = 0x5C" | "c \<noteq> 0x22" "c \<noteq> 0x5C" by blast
    then show ?thesis
    proof cases
      case 1
      with less.prems Cons show ?thesis by simp
    next
      case 2
      with less.prems Cons obtain rest t' where "lex_string rest = Some (t', r)" "length rest < length cs"
        by (metis lex_string_escape)
      with less.hyps [of rest t' r] Cons show ?thesis by simp
    next
      case 3
      with less.prems Cons obtain u where "lex_string cs = Some (u, r)"
        by (auto simp: cons_unit_eq_Some split: if_splits)
      with less.hyps [of cs u r] Cons show ?thesis by simp
    qed
  qed
qed

lemma unat_lower_hex: "n < 16 \<Longrightarrow> unat (lower_hex n) = (if n < 10 then 0x30 + n else 0x57 + n)"
  unfolding lower_hex_def by (simp add: unat_of_nat del: of_nat_add)

lemma read_lower_hex: "n < 16 \<Longrightarrow> read_hex (lower_hex n) = Some n"
  by (simp add: read_hex_def Let_def unat_lower_hex)

lemma read_u_escape: "lex_string (u_escape c @ rest) = cons_unit c (lex_string rest)"
proof -
  let ?n = "unat c"
  have n: "?n < 65536" using unat_u16_less [of c] by simp
  have digits: "?n div 4096 < 16" "?n div 256 mod 16 < 16" "?n div 16 mod 16 < 16" "?n mod 16 < 16"
    using n by (simp_all add: less_mult_imp_div_less)
  have d: "?n div 256 = ?n div 16 div 16" "?n div 4096 = ?n div 16 div 16 div 16"
    by (simp_all add: div_mult2_eq [symmetric])
  have *: "q = q div 16 * 16 + q mod 16" for q :: nat by simp
  have "?n div 4096 * 4096 + ?n div 256 mod 16 * 256 + ?n div 16 mod 16 * 16 + ?n mod 16 = ?n"
    using * [of ?n] * [of "?n div 16"] * [of "?n div 16 div 16"] unfolding d by linarith
  then have "read_u (lower_hex (?n div 4096)) (lower_hex (?n div 256 mod 16)) (lower_hex (?n div 16 mod 16))
      (lower_hex (?n mod 16)) = Some c"
    by (simp add: read_u_def read_lower_hex digits)
  then show ?thesis by (simp add: u_escape_def Let_def read_escape_def)
qed

lemma surrogate_plain: "is_high c \<or> is_low c \<Longrightarrow> c \<noteq> 0x22 \<and> c \<noteq> 0x5C \<and> \<not> c < 0x20"
  by (auto simp: is_high_def is_low_def word_less_nat_alt)

lemma lex_quote_unit: "lex_string (quote_unit c @ rest) = cons_unit c (lex_string rest)"
  by (simp add: quote_unit_def read_u_escape) (auto simp: read_escape_def)

lemma lex_quote_units: "lex_string (quote_units s @ 0x22 # rest) = Some (s, rest)"
proof (induction s rule: quote_units.induct)
  case 1
  show ?case by simp
next
  case (2 c cs)
  show ?case
  proof (cases "is_high c")
    case False
    with 2 show ?thesis by (simp add: lex_quote_unit read_u_escape)
  next
    case high: True
    show ?thesis
    proof (cases cs)
      case Nil
      with high show ?thesis by (simp add: read_u_escape)
    next
      case (Cons d ds)
      with 2 high surrogate_plain [of c] surrogate_plain [of d] show ?thesis
        by (cases "is_low d") (simp_all add: read_u_escape)
    qed
  qed
qed

subsection \<open>Parsing\<close>

datatype token = TLBrace | TRBrace | TLBrack | TRBrack | TColon | TComma | TString jsstring | TWord jsstring

definition json_space :: "u16 \<Rightarrow> bool" where
  "json_space c \<longleftrightarrow> c \<in> {0x20, 0x09, 0x0A, 0x0D}"

definition punctuation :: "u16 \<Rightarrow> token option" where
  "punctuation c = map_of [(0x7B, TLBrace), (0x7D, TRBrace), (0x5B, TLBrack), (0x5D, TRBrack),
     (0x3A, TColon), (0x2C, TComma)] c"

definition word_unit :: "u16 \<Rightarrow> bool" where
  "word_unit c \<longleftrightarrow> (0x61 \<le> c \<and> c \<le> 0x7A) \<or> (0x30 \<le> c \<and> c \<le> 0x39) \<or> c \<in> {0x2B, 0x2D, 0x2E, 0x45}"

function lex_tokens :: "jsstring \<Rightarrow> token list option" where
  "lex_tokens [] = Some []"
| "lex_tokens (c # cs) =
     (if json_space c then lex_tokens cs
      else case punctuation c of
        Some t \<Rightarrow> map_option (Cons t) (lex_tokens cs)
      | None \<Rightarrow>
          if c = 0x22 then
            (case lex_string cs of None \<Rightarrow> None | Some (s, r) \<Rightarrow> map_option (Cons (TString s)) (lex_tokens r))
          else if word_unit c then
            map_option (Cons (TWord (c # takeWhile word_unit cs))) (lex_tokens (dropWhile word_unit cs))
          else None)"
  by pat_completeness auto

termination
proof (relation "measure length")
  show "\<And>c cs a s r. \<not> json_space c \<Longrightarrow> punctuation c = None \<Longrightarrow> c = 0x22 \<Longrightarrow> lex_string cs = Some a
      \<Longrightarrow> (s, r) = a \<Longrightarrow> (r, c # cs) \<in> measure length"
    using lex_string_shorter by fastforce
  show "\<And>c cs. \<not> json_space c \<Longrightarrow> punctuation c = None \<Longrightarrow> c \<noteq> 0x22 \<Longrightarrow> word_unit c
      \<Longrightarrow> (dropWhile word_unit cs, c # cs) \<in> measure length"
    using length_dropWhile_le [of word_unit] by (simp add: less_Suc_eq_le)
qed simp_all

text \<open>The number grammar: an optional minus, an integer without leading zeros, an optional fraction
  and an optional exponent.\<close>

definition digit_unit :: "u16 \<Rightarrow> bool" where
  "digit_unit c \<longleftrightarrow> 0x30 \<le> c \<and> c \<le> 0x39"

definition digits1 :: "jsstring \<Rightarrow> bool" where
  "digits1 s \<longleftrightarrow> s \<noteq> [] \<and> list_all digit_unit s"

definition exponent_part :: "jsstring \<Rightarrow> bool" where
  "exponent_part s = (case s of [] \<Rightarrow> True
     | e # r \<Rightarrow> e \<in> {0x65, 0x45} \<and> digits1 (case r of c # t \<Rightarrow> if c \<in> {0x2B, 0x2D} then t else r | [] \<Rightarrow> []))"

definition number_literal :: "jsstring \<Rightarrow> bool" where
  "number_literal s =
     (let t = (case s of c # r \<Rightarrow> if c = 0x2D then r else s | [] \<Rightarrow> []);
          int = takeWhile digit_unit t; u = dropWhile digit_unit t
      in digits1 int \<and> (hd int = 0x30 \<longrightarrow> length int = 1) \<and>
         (case u of c # r \<Rightarrow>
            if c = 0x2E then takeWhile digit_unit r \<noteq> [] \<and> exponent_part (dropWhile digit_unit r)
            else exponent_part u
          | [] \<Rightarrow> True))"

definition word_value :: "jsstring \<Rightarrow> json option" where
  "word_value w =
     (if w = lit ''null'' then Some JNull else if w = lit ''true'' then Some (JBool True)
      else if w = lit ''false'' then Some (JBool False)
      else if number_literal w then Some (JNumber w) else None)"

text \<open>Recursive descent over the tokens. A value consumes at least one token and a list of elements
  spends one more unit per element, so fuel of twice the number of tokens is never used up.\<close>

fun parse_value :: "nat \<Rightarrow> token list \<Rightarrow> (json \<times> token list) option"
  and parse_elements :: "nat \<Rightarrow> token list \<Rightarrow> (json list \<times> token list) option"
  and parse_members :: "nat \<Rightarrow> token list \<Rightarrow> ((jsstring \<times> json) list \<times> token list) option"
where
  "parse_value 0 ts = None"
| "parse_value (Suc n) ts = (case ts of
     TString s # r \<Rightarrow> Some (JString s, r)
   | TWord w # r \<Rightarrow> map_option (\<lambda>v. (v, r)) (word_value w)
   | TLBrack # TRBrack # r \<Rightarrow> Some (JArray [], r)
   | TLBrack # r \<Rightarrow> map_option (\<lambda>(vs, r). (JArray vs, r)) (parse_elements n r)
   | TLBrace # TRBrace # r \<Rightarrow> Some (JObject [], r)
   | TLBrace # r \<Rightarrow> map_option (\<lambda>(fs, r). (JObject fs, r)) (parse_members n r)
   | _ \<Rightarrow> None)"
| "parse_elements 0 ts = None"
| "parse_elements (Suc n) ts = (case parse_value n ts of
     Some (v, TComma # r) \<Rightarrow> map_option (\<lambda>(vs, r). (v # vs, r)) (parse_elements n r)
   | Some (v, TRBrack # r) \<Rightarrow> Some ([v], r)
   | _ \<Rightarrow> None)"
| "parse_members 0 ts = None"
| "parse_members (Suc n) ts = (case ts of
     TString k # TColon # r \<Rightarrow> (case parse_value n r of
       Some (v, TComma # r) \<Rightarrow> map_option (\<lambda>(fs, r). ((k, v) # fs, r)) (parse_members n r)
     | Some (v, TRBrace # r) \<Rightarrow> Some ([(k, v)], r)
     | _ \<Rightarrow> None)
   | _ \<Rightarrow> None)"

definition JSON_parse :: "jsstring \<Rightarrow> json option" where
  "JSON_parse s = (case lex_tokens s of
     None \<Rightarrow> None
   | Some ts \<Rightarrow> (case parse_value (2 * length ts) ts of Some (v, []) \<Rightarrow> Some v | _ \<Rightarrow> None))"

text \<open>Property access on a parsed value: the last member with the key counts, and a value that is no
  object has none of the properties the program reads.\<close>

fun property :: "json \<Rightarrow> jsstring \<Rightarrow> json option" where
  "property (JObject fs) k = map_of (rev fs) k"
| "property _ k = None"

subsection \<open>Printing\<close>

fun print :: "(nat \<Rightarrow> jsstring) \<Rightarrow> jsstring \<Rightarrow> nat \<Rightarrow> json \<Rightarrow> jsstring"
  and print_elements :: "(nat \<Rightarrow> jsstring) \<Rightarrow> jsstring \<Rightarrow> nat \<Rightarrow> json list \<Rightarrow> jsstring"
  and print_members :: "(nat \<Rightarrow> jsstring) \<Rightarrow> jsstring \<Rightarrow> nat \<Rightarrow> (jsstring \<times> json) list \<Rightarrow> jsstring"
where
  "print nl gap d JNull = lit ''null''"
| "print nl gap d (JBool b) = (if b then lit ''true'' else lit ''false'')"
| "print nl gap d (JNumber w) = w"
| "print nl gap d (JString s) = quote s"
| "print nl gap d (JArray vs) = (if vs = [] then [0x5B, 0x5D]
     else 0x5B # nl (Suc d) @ print_elements nl gap (Suc d) vs @ nl d @ [0x5D])"
| "print nl gap d (JObject fs) = (if fs = [] then [0x7B, 0x7D]
     else 0x7B # nl (Suc d) @ print_members nl gap (Suc d) fs @ nl d @ [0x7D])"
| "print_elements nl gap d [] = []"
| "print_elements nl gap d (v # vs) = print nl gap d v @
     (if vs = [] then [] else 0x2C # nl d @ print_elements nl gap d vs)"
| "print_members nl gap d [] = []"
| "print_members nl gap d ((k, v) # fs) = quote k @ 0x3A # gap @ print nl gap d v @
     (if fs = [] then [] else 0x2C # nl d @ print_members nl gap d fs)"

definition JSON_stringify :: "json \<Rightarrow> jsstring" where
  "JSON_stringify v = print (\<lambda>_. []) [] 0 v"

definition JSON_stringify_indent :: "json \<Rightarrow> jsstring" where
  "JSON_stringify_indent v = print (\<lambda>d. 0x0A # replicate (2 * d) 0x20) [0x20] 0 v"

subsection \<open>Printing, then parsing\<close>

fun tokens :: "json \<Rightarrow> token list"
  and tokens_elements :: "json list \<Rightarrow> token list"
  and tokens_members :: "(jsstring \<times> json) list \<Rightarrow> token list"
where
  "tokens JNull = [TWord (lit ''null'')]"
| "tokens (JBool b) = [TWord (if b then lit ''true'' else lit ''false'')]"
| "tokens (JNumber w) = [TWord w]"
| "tokens (JString s) = [TString s]"
| "tokens (JArray vs) = TLBrack # tokens_elements vs @ [TRBrack]"
| "tokens (JObject fs) = TLBrace # tokens_members fs @ [TRBrace]"
| "tokens_elements [] = []"
| "tokens_elements (v # vs) = tokens v @ (if vs = [] then [] else TComma # tokens_elements vs)"
| "tokens_members [] = []"
| "tokens_members ((k, v) # fs) = TString k # TColon # tokens v @ (if fs = [] then [] else TComma # tokens_members fs)"

text \<open>The values the program builds: every number is written as a literal of the grammar.\<close>

fun json_ok :: "json \<Rightarrow> bool" where
  "json_ok (JNumber w) \<longleftrightarrow> number_literal w \<and> list_all word_unit w"
| "json_ok (JArray vs) \<longleftrightarrow> list_all json_ok vs"
| "json_ok (JObject fs) \<longleftrightarrow> list_all (\<lambda>(k, v). json_ok v) fs"
| "json_ok _ \<longleftrightarrow> True"

definition boundary :: "jsstring \<Rightarrow> bool" where
  "boundary r \<longleftrightarrow> (case r of [] \<Rightarrow> True | c # _ \<Rightarrow> \<not> word_unit c)"

lemma word_unit_plain:
  assumes "word_unit c"
  shows "\<not> json_space c" "punctuation c = None" "c \<noteq> 0x22"
  using assms by (auto simp: word_unit_def json_space_def punctuation_def)

lemma space_boundary: "json_space c \<Longrightarrow> \<not> word_unit c"
  using word_unit_plain by blast

lemma boundary_spaces: "list_all json_space w \<Longrightarrow> \<not> word_unit c \<Longrightarrow> boundary (w @ c # r)"
  by (cases w) (auto simp: boundary_def space_boundary)

lemma lex_spaces: "list_all json_space w \<Longrightarrow> lex_tokens (w @ r) = lex_tokens r"
  by (induction w) auto

lemma lex_punctuation:
  "punctuation c = Some t \<Longrightarrow> \<not> json_space c \<Longrightarrow> lex_tokens (c # r) = map_option (Cons t) (lex_tokens r)"
  by simp

lemma lex_quote: "lex_tokens (quote s @ r) = map_option (Cons (TString s)) (lex_tokens r)"
  by (simp add: quote_def lex_quote_units json_space_def punctuation_def)

lemma lex_word:
  assumes "list_all word_unit w" and "w \<noteq> []" and "boundary r"
  shows "lex_tokens (w @ r) = map_option (Cons (TWord w)) (lex_tokens r)"
proof -
  obtain c cs where w: "w = c # cs" using assms(2) by (meson neq_Nil_conv)
  have c: "word_unit c" "list_all word_unit cs" using assms(1) w by simp_all
  have "takeWhile word_unit (cs @ r) = cs" "dropWhile word_unit (cs @ r) = r"
    using c(2) assms(3) by (induction cs) (auto simp: boundary_def split: list.splits)
  with c word_unit_plain [OF c(1)] w show ?thesis by simp
qed

lemmas lex_punctuations =
  lex_punctuation [where c = "0x5B" and t = TLBrack] lex_punctuation [where c = "0x5D" and t = TRBrack] lex_punctuation [where c = "0x7B" and t = TLBrace]
  lex_punctuation [where c = "0x7D" and t = TRBrace] lex_punctuation [where c = "0x3A" and t = TColon] lex_punctuation [where c = "0x2C" and t = TComma]

lemma punctuation_table [simp]:
  "punctuation 0x5B = Some TLBrack" "punctuation 0x5D = Some TRBrack" "punctuation 0x7B = Some TLBrace"
  "punctuation 0x7D = Some TRBrace" "punctuation 0x3A = Some TColon" "punctuation 0x2C = Some TComma"
  "\<not> json_space 0x5B" "\<not> json_space 0x5D" "\<not> json_space 0x7B" "\<not> json_space 0x7D" "\<not> json_space 0x3A"
  "\<not> json_space 0x2C" "\<not> word_unit 0x5D" "\<not> word_unit 0x7D" "\<not> word_unit 0x2C"
  by (simp_all add: punctuation_def json_space_def word_unit_def)

lemma word_literals: "list_all word_unit (lit ''null'')" "list_all word_unit (lit ''true'')" "list_all word_unit (lit ''false'')"
  by (simp_all add: js_eval word_unit_def)

lemma number_not_Nil: "number_literal w \<Longrightarrow> w \<noteq> []"
  by (auto simp: number_literal_def digits1_def)

declare lex_tokens.simps(2) [simp del]

definition blank_layout :: "(nat \<Rightarrow> jsstring) \<Rightarrow> jsstring \<Rightarrow> bool" where
  "blank_layout nl gap \<longleftrightarrow> (\<forall>d. list_all json_space (nl d)) \<and> list_all json_space gap"

lemma append_units: "(@) [x] = (#) x" "(@) [] = id"
  by auto

lemma lex_print:
  "blank_layout nl gap \<Longrightarrow> json_ok v \<Longrightarrow> boundary r \<Longrightarrow>
    lex_tokens (print nl gap d v @ r) = map_option ((@) (tokens v)) (lex_tokens r)"
  "blank_layout nl gap \<Longrightarrow> list_all json_ok vs \<Longrightarrow> boundary r \<Longrightarrow>
    lex_tokens (print_elements nl gap d vs @ r) = map_option ((@) (tokens_elements vs)) (lex_tokens r)"
  "blank_layout nl gap \<Longrightarrow> list_all (\<lambda>(k, v). json_ok v) fs \<Longrightarrow> boundary r \<Longrightarrow>
    lex_tokens (print_members nl gap d fs @ r) = map_option ((@) (tokens_members fs)) (lex_tokens r)"
proof (induction nl gap d v and nl gap d vs and nl gap d fs arbitrary: r and r and r
    rule: print_print_elements_print_members.induct)
  case (5 nl gap d vs)
  then have "lex_tokens (nl d @ 0x5D # r) = map_option (Cons TRBrack) (lex_tokens r)"
    "boundary (nl d @ 0x5D # r)" for r
    by (simp_all add: blank_layout_def lex_punctuations lex_spaces boundary_spaces)
  with 5 show ?case
    by (cases "vs = []")
      (simp_all add: lex_punctuations lex_spaces blank_layout_def option.map_comp comp_def)
next
  case (6 nl gap d fs)
  then have "lex_tokens (nl d @ 0x7D # r) = map_option (Cons TRBrace) (lex_tokens r)"
    "boundary (nl d @ 0x7D # r)" for r
    by (simp_all add: blank_layout_def lex_punctuations lex_spaces boundary_spaces)
  with 6 show ?case
    by (cases "fs = []")
      (simp_all add: lex_punctuations lex_spaces blank_layout_def option.map_comp comp_def)
next
  case (8 nl gap d v vs)
  have "boundary (0x2C # x)" for x by (simp add: boundary_def)
  with 8 show ?case
    by (cases "vs = []")
      (simp_all add: lex_punctuations lex_spaces blank_layout_def option.map_comp comp_def)
next
  case (10 nl gap d k v fs)
  have "boundary (0x2C # x)" for x by (simp add: boundary_def)
  with 10 show ?case
    by (cases "fs = []")
      (simp_all add: lex_punctuations lex_spaces lex_quote blank_layout_def option.map_comp comp_def)
qed (simp_all add: lex_word lex_quote word_literals number_not_Nil append_units option.map_id)

lemma tokens_head: "\<exists>t ts. tokens v = t # ts \<and> t \<noteq> TRBrack"
  by (cases v) simp_all

lemma tokens_elements_head: "vs \<noteq> [] \<Longrightarrow> \<exists>t ts. tokens_elements vs = t # ts \<and> t \<noteq> TRBrack"
  using tokens_head by (cases vs) fastforce+

lemma tokens_members_head: "fs \<noteq> [] \<Longrightarrow> \<exists>k ts. tokens_members fs = TString k # ts"
  by (cases fs) auto

lemma number_not_keyword:
  "number_literal w \<Longrightarrow> w \<noteq> lit ''null'' \<and> w \<noteq> lit ''true'' \<and> w \<noteq> lit ''false''"
  by (auto simp: number_literal_def digits1_def digit_unit_def Let_def js_eval)

text \<open>A list or an object that is not empty is parsed by its elements or members.\<close>

lemma parse_array:
  assumes "vs \<noteq> []"
  shows "parse_value (Suc m) (tokens (JArray vs) @ r)
    = map_option (\<lambda>(vs, r). (JArray vs, r)) (parse_elements m (tokens_elements vs @ TRBrack # r))"
proof -
  obtain t ts where "tokens_elements vs = t # ts" "t \<noteq> TRBrack" using tokens_elements_head [OF assms] by blast
  then show ?thesis by (cases t) simp_all
qed

lemma parse_object:
  assumes "fs \<noteq> []"
  shows "parse_value (Suc m) (tokens (JObject fs) @ r)
    = map_option (\<lambda>(fs, r). (JObject fs, r)) (parse_members m (tokens_members fs @ TRBrace # r))"
proof -
  obtain k ts where "tokens_members fs = TString k # ts" using tokens_members_head [OF assms] by blast
  then show ?thesis by simp
qed

lemma parse_tokens:
  "json_ok v \<Longrightarrow> 2 * length (tokens v) \<le> n \<Longrightarrow> parse_value n (tokens v @ r) = Some (v, r)"
  "list_all json_ok vs \<Longrightarrow> vs \<noteq> [] \<Longrightarrow> 2 * length (tokens_elements vs) < n \<Longrightarrow>
     parse_elements n (tokens_elements vs @ TRBrack # r) = Some (vs, r)"
  "list_all (\<lambda>(k, v). json_ok v) fs \<Longrightarrow> fs \<noteq> [] \<Longrightarrow> 2 * length (tokens_members fs) < n \<Longrightarrow>
     parse_members n (tokens_members fs @ TRBrace # r) = Some (fs, r)"
proof (induction v and vs and fs arbitrary: n r and n r and n r
    rule: tokens_tokens_elements_tokens_members.induct)
  case 1
  then show ?case by (cases n) (simp_all add: word_value_def)
next
  case (2 b)
  then show ?case by (cases n) (simp_all add: word_value_def js_eval)
next
  case (3 w)
  then show ?case by (cases n) (simp_all add: word_value_def number_not_keyword)
next
  case (4 s)
  then show ?case by (cases n) simp_all
next
  case (5 vs)
  then obtain m where "n = Suc m" by (cases n) simp_all
  with 5 parse_array [of vs m r] show ?case by (cases "vs = []") simp_all
next
  case (6 fs)
  then obtain m where "n = Suc m" by (cases n) simp_all
  with 6 parse_object [of fs m r] show ?case by (cases "fs = []") simp_all
next
  case (8 v vs)
  then obtain m where n: "n = Suc m" by (cases n) simp_all
  with 8 show ?case by (cases "vs = []") simp_all
next
  case (10 k v fs)
  then obtain m where n: "n = Suc m" by (cases n) simp_all
  with 10 show ?case by (cases "fs = []") simp_all
qed simp_all

lemma JSON_parse_print:
  assumes "json_ok v" and "blank_layout nl gap" and "list_all json_space tail"
  shows "JSON_parse (print nl gap 0 v @ tail) = Some v"
proof -
  have "boundary tail" using assms(3) by (cases tail) (simp_all add: boundary_def space_boundary)
  moreover have "lex_tokens tail = Some []" using lex_spaces [OF assms(3), of "[]"] by simp
  ultimately have "lex_tokens (print nl gap 0 v @ tail) = Some (tokens v)"
    using lex_print(1) [OF assms(2,1)] by simp
  with parse_tokens(1) [OF assms(1) order_refl, of "[]"] show ?thesis
    by (simp add: JSON_parse_def)
qed

lemma layouts: "blank_layout (\<lambda>_. []) []" "blank_layout (\<lambda>d. 0x0A # replicate (2 * d) 0x20) [0x20]"
  by (simp_all add: blank_layout_def json_space_def list_all_iff)

lemma parse_stringify: "json_ok v \<Longrightarrow> JSON_parse (JSON_stringify v) = Some v"
  using JSON_parse_print [OF _ layouts(1), of v "[]"] by (simp add: JSON_stringify_def)

lemma parse_stringify_indent:
  "json_ok v \<Longrightarrow> JSON_parse (JSON_stringify_indent v @ [0x0A]) = Some v"
  using JSON_parse_print [OF _ layouts(2), of v "[0x0A]"] by (simp add: JSON_stringify_indent_def json_space_def)

end
