(* ===== verification/Consent.thy ===== *)
theory Consent
  imports Config Json
begin

section \<open>Consent records (lib/consent.ts, components/AudioProcessingConsent.tsx)\<close>

text \<open>
  Recording and checking the audio-processing consent in \<open>localStorage\<close>, the audit records both consent
  flows emit, and the gate component that asks. The storage is a map that may be absent and may refuse
  to write; the log lists what is emitted.
\<close>

subsection \<open>Interfaces\<close>

text \<open>What the client needs of JSON: a text it wrote reads back as the value.\<close>

locale json_codec =
  fixes stringify :: "json \<Rightarrow> jsstring" and parse :: "jsstring \<Rightarrow> json option" and good :: "json \<Rightarrow> bool"
  assumes parse_text: "good v \<Longrightarrow> parse (stringify v) = Some v"
begin

lemma read_member:
  assumes "good (JObject fs)" and "distinct (map fst fs)" and "(k, v) \<in> set fs"
  shows "map_option (\<lambda>x. property x k) (parse (stringify (JObject fs))) = Some (Some v)"
proof -
  have "map_of (rev fs) k = Some v"
    using assms(2,3) by (simp add: rev_map [symmetric])
  with parse_text [OF assms(1)] show ?thesis by simp
qed

lemma stringify_inj: "good v \<Longrightarrow> good w \<Longrightarrow> stringify v = stringify w \<longleftrightarrow> v = w"
  by (metis option.inject parse_text)

end

interpretation codec: json_codec JSON_stringify JSON_parse json_ok
  by unfold_locales (rule parse_stringify)

text \<open>What the client needs of the key-value store: a write is read back, other keys are untouched,
  and a refused write changes nothing.\<close>

locale key_value_store =
  fixes read_item :: "'s \<Rightarrow> 'k \<Rightarrow> 'v option" and write_item :: "'k \<Rightarrow> 'v \<Rightarrow> 's \<Rightarrow> 's" and writable :: "'s \<Rightarrow> bool"
  assumes read_write: "writable s \<Longrightarrow> read_item (write_item k v s) j = (if j = k then Some v else read_item s j)"
    and refused: "\<not> writable s \<Longrightarrow> write_item k v s = s"
begin

lemma read_own: "writable s \<Longrightarrow> read_item (write_item k v s) k = Some v"
  by (simp add: read_write)

lemma read_other: "j \<noteq> k \<Longrightarrow> read_item (write_item k v s) j = read_item s j"
  by (cases "writable s") (simp_all add: read_write refused)

end

record storage =
  st_defined :: bool
  st_accepts :: bool
  st_items :: "jsstring \<rightharpoonup> jsstring"

definition getItem :: "storage \<Rightarrow> jsstring \<Rightarrow> jsstring option" where
  "getItem s k = (if st_defined s then st_items s k else None)"

text \<open>\<open>if (typeof localStorage !== "undefined") try { setItem } catch {}\<close>.\<close>

definition setItem_caught :: "jsstring \<Rightarrow> jsstring \<Rightarrow> storage \<Rightarrow> storage" where
  "setItem_caught k v s = (if st_defined s \<and> st_accepts s then s\<lparr>st_items := (st_items s)(k \<mapsto> v)\<rparr> else s)"

interpretation local_storage: key_value_store getItem setItem_caught "\<lambda>s. st_defined s \<and> st_accepts s"
  by unfold_locales (auto simp: getItem_def setItem_caught_def)

subsection \<open>Records\<close>

definition CURRENT_POLICY_VERSION :: jsstring where
  "CURRENT_POLICY_VERSION = lit ''v1''"

definition AUDIO_CONSENT_KEY_PREFIX :: jsstring where
  "AUDIO_CONSENT_KEY_PREFIX = lit ''aegis.consent.audio_processing.''"

record client_metadata =
  userAgent :: jsstring
  cm_deployMode :: jsstring

record AudioProcessingConsentRecord =
  ac_userId :: jsstring
  ac_policyVersion :: jsstring
  ac_acceptedAt :: jsstring
  ac_clientMetadata :: client_metadata

datatype export_format = Markdown | JsonFormat

record TranscriptExportConsentRecord =
  tc_userId :: jsstring
  tc_sessionId :: jsstring
  tc_exportFormat :: export_format
  tc_exportedAt :: jsstring
  tc_clientMetadata :: client_metadata

datatype consent_event =
    AudioConsent AudioProcessingConsentRecord
  | ExportConsent TranscriptExportConsentRecord

fun deploy_text :: "DeployMode \<Rightarrow> jsstring" where
  "deploy_text LocalMode = lit ''local''"
| "deploy_text CloudMode = lit ''cloud''"

text \<open>The clock, the browser's user agent (\<open>None\<close> where there is no navigator) and the cached
  configuration are what a record is stamped with.\<close>

record stamp =
  sp_now :: jsstring
  sp_agent :: "jsstring option"
  sp_config :: "AppConfig option"

definition clientMetadata :: "stamp \<Rightarrow> config_error + client_metadata" where
  "clientMetadata sp = bind_result (getConfig (sp_config sp)) (\<lambda>cfg.
     Inr \<lparr>userAgent = (case sp_agent sp of Some a \<Rightarrow> a | None \<Rightarrow> lit ''unknown''),
          cm_deployMode = deploy_text (deployMode cfg)\<rparr>)"

definition consent_json :: "AudioProcessingConsentRecord \<Rightarrow> json" where
  "consent_json r = JObject
     [(lit ''kind'', JString (lit ''consent:audio_processing:accepted'')),
      (lit ''userId'', JString (ac_userId r)),
      (lit ''policyVersion'', JString (ac_policyVersion r)),
      (lit ''acceptedAt'', JString (ac_acceptedAt r)),
      (lit ''clientMetadata'', JObject
         [(lit ''userAgent'', JString (userAgent (ac_clientMetadata r))),
          (lit ''deployMode'', JString (cm_deployMode (ac_clientMetadata r)))])]"

definition hasAudioProcessingConsent :: "storage \<Rightarrow> jsstring \<Rightarrow> jsstring \<Rightarrow> bool" where
  "hasAudioProcessingConsent st user version =
     (case getItem st (AUDIO_CONSENT_KEY_PREFIX @ version) of
        None \<Rightarrow> False
      | Some raw \<Rightarrow> (case JSON_parse raw of
          None \<Rightarrow> False
        | Some parsed \<Rightarrow> property parsed (lit ''userId'') = Some (JString user)
            \<and> property parsed (lit ''policyVersion'') = Some (JString version)))"

definition recordAudioProcessingConsent ::
  "stamp \<Rightarrow> jsstring \<Rightarrow> jsstring \<Rightarrow> storage \<times> consent_event list
   \<Rightarrow> config_error + AudioProcessingConsentRecord \<times> storage \<times> consent_event list" where
  "recordAudioProcessingConsent sp user version s =
     bind_result (clientMetadata sp) (\<lambda>meta.
       let record = \<lparr>ac_userId = user, ac_policyVersion = version, ac_acceptedAt = sp_now sp,
                     ac_clientMetadata = meta\<rparr>;
           st = setItem_caught (AUDIO_CONSENT_KEY_PREFIX @ version) (JSON_stringify (consent_json record)) (fst s)
       in Inr (record, st, snd s @ [AudioConsent record]))"

definition recordTranscriptExportConsent ::
  "stamp \<Rightarrow> jsstring \<Rightarrow> jsstring \<Rightarrow> export_format \<Rightarrow> consent_event list
   \<Rightarrow> config_error + TranscriptExportConsentRecord \<times> consent_event list" where
  "recordTranscriptExportConsent sp user session fmt log =
     bind_result (clientMetadata sp) (\<lambda>meta.
       let record = \<lparr>tc_userId = user, tc_sessionId = session, tc_exportFormat = fmt,
                     tc_exportedAt = sp_now sp, tc_clientMetadata = meta\<rparr>
       in Inr (record, log @ [ExportConsent record]))"

subsection \<open>The gate\<close>

record gate =
  gate_user :: jsstring
  gate_needed :: bool
  gate_storage :: storage
  gate_log :: "consent_event list"

definition mount_gate :: "jsstring \<Rightarrow> storage \<Rightarrow> gate" where
  "mount_gate user st = \<lparr>gate_user = user,
     gate_needed = (\<not> hasAudioProcessingConsent st user CURRENT_POLICY_VERSION),
     gate_storage = st, gate_log = []\<rparr>"

datatype gate_event = AcceptClicked stamp | UserChanged jsstring

text \<open>Accepting records and closes the gate; if stamping the record throws, the handler ends there. A
  new user re-runs the effect that checks the storage. The accept button exists only while the gate
  asks.\<close>

fun gate_step :: "gate_event \<Rightarrow> gate \<Rightarrow> gate" where
  "gate_step (AcceptClicked sp) g =
     (if \<not> gate_needed g then g
      else case recordAudioProcessingConsent sp (gate_user g) CURRENT_POLICY_VERSION (gate_storage g, gate_log g) of
        Inl _ \<Rightarrow> g
      | Inr (_, st, log) \<Rightarrow> g\<lparr>gate_storage := st, gate_log := log, gate_needed := False\<rparr>)"
| "gate_step (UserChanged user) g =
     (if user = gate_user g then g
      else g\<lparr>gate_user := user,
             gate_needed := (\<not> hasAudioProcessingConsent (gate_storage g) user CURRENT_POLICY_VERSION)\<rparr>)"

subsection \<open>Properties\<close>

lemma json_ok_consent: "json_ok (consent_json r)"
  by (simp add: consent_json_def)

lemma consent_members:
  "property (consent_json r) (lit ''userId'') = Some (JString (ac_userId r))"
  "property (consent_json r) (lit ''policyVersion'') = Some (JString (ac_policyVersion r))"
  by (simp_all add: consent_json_def js_eval)

lemma has_after_write:
  assumes "st_defined st \<and> st_accepts st"
  shows "hasAudioProcessingConsent (setItem_caught (AUDIO_CONSENT_KEY_PREFIX @ version)
      (JSON_stringify (consent_json r)) st) u version \<longleftrightarrow> u = ac_userId r \<and> version = ac_policyVersion r"
  using codec.parse_text [OF json_ok_consent] local_storage.read_own [OF assms]
  by (auto simp: hasAudioProcessingConsent_def consent_members)

lemma has_other_version:
  "v \<noteq> version \<Longrightarrow> hasAudioProcessingConsent (setItem_caught (AUDIO_CONSENT_KEY_PREFIX @ version) x st) u v
     = hasAudioProcessingConsent st u v"
  by (simp add: hasAudioProcessingConsent_def local_storage.read_other)

lemma has_refused:
  "\<not> (st_defined st \<and> st_accepts st) \<Longrightarrow> setItem_caught k x st = st"
  by (rule local_storage.refused)


text \<open>Who has accepted since the user last changed, read off the gate's history.\<close>

definition gate_ok :: "gate \<Rightarrow> bool" where
  "gate_ok g \<longleftrightarrow> gate_needed g
     \<or> hasAudioProcessingConsent (gate_storage g) (gate_user g) CURRENT_POLICY_VERSION
     \<or> (\<exists>r \<in> set (gate_log g). \<exists>a. r = AudioConsent a \<and> ac_userId a = gate_user g)"

interpretation consent_gate: machine gate_step "\<lambda>g. \<exists>user st. g = mount_gate user st" gate_ok
proof unfold_locales
  fix g e
  assume ok: "gate_ok g"
  show "gate_ok (gate_step e g)"
  proof (cases e)
    case (UserChanged user)
    with ok show ?thesis by (auto simp: gate_ok_def)
  next
    case (AcceptClicked sp)
    show ?thesis
    proof (cases "clientMetadata sp")
      case (Inl err)
      with AcceptClicked ok show ?thesis by (simp add: recordAudioProcessingConsent_def)
    next
      case (Inr meta)
      with AcceptClicked ok show ?thesis
        by (auto simp: recordAudioProcessingConsent_def gate_ok_def Let_def)
    qed
  qed
qed (auto simp: gate_ok_def mount_gate_def)

text \<open>The consent gate fails closed: on any history of acceptances and account changes it stops
  asking only for a user who has a stored record at the current policy version or who has an audit
  record from accepting on this page, and right after mounting or an account change it asks exactly
  when no stored record of that user exists.\<close>

lemma consent_gate_closed:
  "(let g = run gate_step es (mount_gate user st) in
      if gate_needed g then True
      else hasAudioProcessingConsent (gate_storage g) (gate_user g) CURRENT_POLICY_VERSION
        \<or> (\<exists>a. AudioConsent a \<in> set (gate_log g) \<and> ac_userId a = gate_user g))
   \<and> gate_needed (mount_gate user st) = (\<not> hasAudioProcessingConsent st user CURRENT_POLICY_VERSION)
   \<and> (let g = run gate_step es (mount_gate user st); h = gate_step (UserChanged other) g in
      if other = gate_user g then h = g
      else gate_needed h = (\<not> hasAudioProcessingConsent (gate_storage g) other CURRENT_POLICY_VERSION))"
proof -
  have "gate_ok (run gate_step es (mount_gate user st))" by (rule consent_gate.reach_inv) blast
  then show ?thesis by (auto simp: gate_ok_def Let_def mount_gate_def)
qed

end
