(* ===== verification/Transcript_Export.thy ===== *)
theory Transcript_Export
  imports Host_Reducer Consent
begin

section \<open>Transcript export\<close>

text \<open>
  The formatting helpers of lib/transcriptExport.ts, and the flow around them: the consent modal
  (components/TranscriptExportConsentModal.tsx), \<open>performExport\<close> of the host page, and the download of
  providers/FileSystemProvider/WebFileSystemProvider.ts. The speaker overrides are the object's own
  entries in enumeration order; labels that name a member every JavaScript object inherits (such as
  \<open>constructor\<close>) are outside the model.
\<close>

type_synonym TranscriptSegment = TranscriptLine

record TranscriptExportMeta =
  em_sessionId :: jsstring
  em_userId :: jsstring
  em_title :: jsstring
  em_exportedAt :: jsstring

type_synonym overrides = "(jsstring \<times> jsstring) list"

definition resolveLabel :: "TranscriptSegment \<Rightarrow> overrides \<Rightarrow> jsstring" where
  "resolveLabel seg ov = (case map_of ov (tl_speaker seg) of Some d \<Rightarrow> d | None \<Rightarrow> tl_speaker seg)"

subsection \<open>The suggested file name\<close>

text \<open>\<open>toLowerCase\<close>, as far as the pattern that follows can tell: the letters whose lower case is or
  contains an ASCII letter. Every other unit lowers to units outside \<open>[a-z0-9]\<close>, as it is itself.\<close>

definition lower_unit :: "u16 \<Rightarrow> jsstring" where
  "lower_unit c = (if 0x41 \<le> c \<and> c \<le> 0x5A then [c + 0x20]
     else if c = 0x212A then [0x6B] else if c = 0x0130 then [0x69, 0x0307] else [c])"

definition slug_unit :: "u16 \<Rightarrow> bool" where
  "slug_unit c \<longleftrightarrow> (0x61 \<le> c \<and> c \<le> 0x7A) \<or> (0x30 \<le> c \<and> c \<le> 0x39)"

text \<open>\<open>.replace(/[^a-z0-9]+/g, "-")\<close> and \<open>.replace(/^-+|-+$/g, "")\<close>; the flag says that the run of
  other units we are in has its dash already.\<close>

fun dash_runs :: "bool \<Rightarrow> jsstring \<Rightarrow> jsstring" where
  "dash_runs b [] = []"
| "dash_runs b (c # cs) =
     (if slug_unit c then c # dash_runs False cs
      else if b then dash_runs True cs else 0x2D # dash_runs True cs)"

definition strip_dashes :: "jsstring \<Rightarrow> jsstring" where
  "strip_dashes s = rev (dropWhile (\<lambda>c. c = 0x2D) (rev (dropWhile (\<lambda>c. c = 0x2D) s)))"

definition title_slug :: "jsstring \<Rightarrow> jsstring" where
  "title_slug t = take 48 (strip_dashes (dash_runs False (concat (map lower_unit (trim t)))))"

definition suggestedFilename :: "TranscriptExportMeta \<Rightarrow> jsstring \<Rightarrow> jsstring" where
  "suggestedFilename meta extension =
     (let datePart = take 10 (em_exportedAt meta);
          titlePart = (if trim (em_title meta) = [] then em_sessionId meta else title_slug (em_title meta))
      in lit ''aegis-transcript-'' @ datePart @ lit ''-''
           @ (if titlePart \<noteq> [] then titlePart else em_sessionId meta) @ lit ''.'' @ extension)"

subsection \<open>The formats\<close>

fun join_lines :: "jsstring list \<Rightarrow> jsstring" where
  "join_lines [] = []"
| "join_lines [l] = l"
| "join_lines (l # ls) = l @ 0x0A # join_lines ls"

definition formatTranscriptMarkdown ::
  "TranscriptSegment list \<Rightarrow> overrides \<Rightarrow> TranscriptExportMeta \<Rightarrow> jsstring" where
  "formatTranscriptMarkdown tr ov meta =
     (let header = join_lines
        [lit ''# Aegis meeting transcript'', [],
         lit ''- **Session**: `'' @ em_sessionId meta @ lit ''`'',
         lit ''- **Title**: '' @ (if trim (em_title meta) = [] then lit ''_(untitled)_'' else em_title meta),
         lit ''- **Host**: `'' @ em_userId meta @ lit ''`'',
         lit ''- **Exported**: '' @ em_exportedAt meta, [],
         lit ''> Transcripts are the host'' @ [0x27] @ lit ''s responsibility to store and share'',
         lit ''> under applicable data-protection law (ADR-0024 Decision C).'', [],
         lit ''---'', []];
       ls = map (\<lambda>seg. lit ''- **'' @ resolveLabel seg ov @ lit ''**: '' @ tl_text seg
              @ (if tl_isFinal seg then [] else lit '' _(interim)_'')) tr
      in header @ join_lines ls @ [0x0A])"

definition segment_json :: "overrides \<Rightarrow> TranscriptSegment \<Rightarrow> json" where
  "segment_json ov seg = JObject
     [(lit ''id'', JString (tl_id seg)), (lit ''text'', JString (tl_text seg)),
      (lit ''isFinal'', JBool (tl_isFinal seg)), (lit ''speakerDetected'', JString (tl_speaker seg)),
      (lit ''speakerDisplay'', JString (resolveLabel seg ov))]"

definition export_envelope :: "TranscriptSegment list \<Rightarrow> overrides \<Rightarrow> TranscriptExportMeta \<Rightarrow> json" where
  "export_envelope tr ov meta = JObject
     [(lit ''kind'', JString (lit ''aegis.transcript.export'')),
      (lit ''schemaVersion'', JNumber (lit ''1'')),
      (lit ''meta'', JObject
         [(lit ''sessionId'', JString (em_sessionId meta)), (lit ''userId'', JString (em_userId meta)),
          (lit ''title'', JString (em_title meta)), (lit ''exportedAt'', JString (em_exportedAt meta))]),
      (lit ''speakerOverrides'', JObject (map (\<lambda>(k, d). (k, JString d)) ov)),
      (lit ''segments'', JArray (map (segment_json ov) tr))]"

definition formatTranscriptJson ::
  "TranscriptSegment list \<Rightarrow> overrides \<Rightarrow> TranscriptExportMeta \<Rightarrow> jsstring" where
  "formatTranscriptJson tr ov meta = JSON_stringify_indent (export_envelope tr ov meta) @ [0x0A]"

subsection \<open>Properties of the formats\<close>

lemma dash_runs_units: "list_all (\<lambda>c. slug_unit c \<or> c = 0x2D) (dash_runs b s)"
  by (induction b s rule: dash_runs.induct) auto

lemma strip_dashes_set: "set (strip_dashes s) \<subseteq> set s"
  unfolding strip_dashes_def by (auto dest!: set_dropWhileD)

lemma strip_dashes_hd:
  assumes "strip_dashes s \<noteq> []"
  shows "hd (strip_dashes s) \<noteq> 0x2D"
proof -
  define t where "t = dropWhile (\<lambda>c. c = 0x2D) s"
  obtain u where u: "t = strip_dashes s @ u"
    unfolding strip_dashes_def t_def [symmetric] by (metis rev_append rev_rev_ident takeWhile_dropWhile_id)
  with assms have "t \<noteq> []" "hd t = hd (strip_dashes s)" by auto
  then show ?thesis unfolding t_def by (metis (full_types) hd_dropWhile)
qed

lemma title_slug_units: "list_all (\<lambda>c. slug_unit c \<or> c = 0x2D) (title_slug t)"
  using dash_runs_units strip_dashes_set unfolding title_slug_def list_all_iff
  by (metis in_mono in_set_takeD)

lemma title_slug_hd: "title_slug t \<noteq> [] \<Longrightarrow> hd (title_slug t) \<noteq> 0x2D"
  by (simp add: title_slug_def strip_dashes_hd)

text \<open>A unit that is safe in a file name on every platform: an ASCII letter or digit, dash, underscore
  or dot.\<close>

definition safe_unit :: "u16 \<Rightarrow> bool" where
  "safe_unit c \<longleftrightarrow> slug_unit c \<or> (0x41 \<le> c \<and> c \<le> 0x5A) \<or> c \<in> {0x2D, 0x5F, 0x2E}"



text \<open>A reader of the exported file: the segments with their displayed label.\<close>

definition read_segment :: "json \<Rightarrow> (TranscriptSegment \<times> jsstring) option" where
  "read_segment v = (case (property v (lit ''id''), property v (lit ''text''), property v (lit ''isFinal''),
       property v (lit ''speakerDetected''), property v (lit ''speakerDisplay'')) of
     (Some (JString i), Some (JString t), Some (JBool f), Some (JString s), Some (JString d)) \<Rightarrow>
       Some (\<lparr>tl_id = i, tl_text = t, tl_isFinal = f, tl_speaker = s\<rparr>, d)
   | _ \<Rightarrow> None)"

definition read_export :: "jsstring \<Rightarrow> (TranscriptSegment \<times> jsstring) list option" where
  "read_export text = (case JSON_parse text of
     None \<Rightarrow> None
   | Some v \<Rightarrow> (case property v (lit ''segments'') of Some (JArray xs) \<Rightarrow> those (map read_segment xs) | _ \<Rightarrow> None))"

lemma those_map_Some: "those (map (\<lambda>x. Some (f x)) xs) = Some (map f xs)"
  by (induction xs) simp_all

lemma read_segment_json: "read_segment (segment_json ov seg) = Some (seg, resolveLabel seg ov)"
  by (simp add: read_segment_def segment_json_def js_eval)

lemma json_ok_envelope: "json_ok (export_envelope tr ov meta)"
  by (auto simp: export_envelope_def segment_json_def list_all_iff js_eval number_literal_def digits1_def
      digit_unit_def word_unit_def)

lemma parse_export: "JSON_parse (formatTranscriptJson tr ov meta) = Some (export_envelope tr ov meta)"
  unfolding formatTranscriptJson_def by (rule parse_stringify_indent [OF json_ok_envelope])

lemma read_export_format:
  "read_export (formatTranscriptJson tr ov meta) = Some (map (\<lambda>seg. (seg, resolveLabel seg ov)) tr)"
proof -
  have "property (export_envelope tr ov meta) (lit ''segments'') = Some (JArray (map (segment_json ov) tr))"
    by (simp add: export_envelope_def js_eval)
  then show ?thesis
    by (simp add: read_export_def parse_export comp_def read_segment_json those_map_Some)
qed


subsection \<open>Reading the Markdown format\<close>

text \<open>A reader of the Markdown export: the lines after the eleven of the header, each split into the
  label between the asterisks, the text, and the tag of an interim line.\<close>

fun lines_of :: "jsstring \<Rightarrow> jsstring list" where
  "lines_of [] = [[]]"
| "lines_of (c # cs) = (if c = 0x0A then [] # lines_of cs else (c # hd (lines_of cs)) # tl (lines_of cs))"

definition interim_tag :: jsstring where
  "interim_tag = lit '' _(interim)_''"

definition ends_with :: "jsstring \<Rightarrow> jsstring \<Rightarrow> bool" where
  "ends_with tag s \<longleftrightarrow> length tag \<le> length s \<and> drop (length s - length tag) s = tag"

definition read_markdown_line :: "jsstring \<Rightarrow> (jsstring \<times> jsstring \<times> bool) option" where
  "read_markdown_line l =
     (let r = drop 4 l; label = takeWhile (\<lambda>c. c \<noteq> 0x2A) r; body = drop (length label + 4) r
      in if take 4 l \<noteq> lit ''- **'' \<or> take 4 (drop (length label) r) \<noteq> lit ''**: '' then None
         else if ends_with interim_tag body then Some (label, take (length body - length interim_tag) body, False)
         else Some (label, body, True))"

definition read_markdown :: "jsstring \<Rightarrow> (jsstring \<times> jsstring \<times> bool) list option" where
  "read_markdown txt = those (map read_markdown_line (drop 11 (butlast (lines_of txt))))"

definition one_line :: "jsstring \<Rightarrow> bool" where
  "one_line s \<longleftrightarrow> 0x0A \<notin> set s"

lemma one_line_simps [simp]:
  "one_line []" "one_line (c # s) \<longleftrightarrow> c \<noteq> 0x0A \<and> one_line s" "one_line (s @ t) \<longleftrightarrow> one_line s \<and> one_line t"
  by (auto simp: one_line_def)

lemma lines_of_line: "one_line l \<Longrightarrow> lines_of (l @ 0x0A # s) = l # lines_of s"
  by (induction l) auto

lemma lines_of_concat: "list_all one_line ls \<Longrightarrow> lines_of (concat (map (\<lambda>l. l @ [0x0A]) ls)) = ls @ [[]]"
  by (induction ls) (simp_all add: lines_of_line)

lemma join_lines_concat: "ls \<noteq> [] \<Longrightarrow> join_lines ls @ [0x0A] = concat (map (\<lambda>l. l @ [0x0A]) ls)"
  by (induction ls rule: join_lines.induct) simp_all

definition markdown_header :: "TranscriptExportMeta \<Rightarrow> jsstring list" where
  "markdown_header meta =
     [lit ''# Aegis meeting transcript'', [],
      lit ''- **Session**: `'' @ em_sessionId meta @ lit ''`'',
      lit ''- **Title**: '' @ (if trim (em_title meta) = [] then lit ''_(untitled)_'' else em_title meta),
      lit ''- **Host**: `'' @ em_userId meta @ lit ''`'',
      lit ''- **Exported**: '' @ em_exportedAt meta, [],
      lit ''> Transcripts are the host'' @ [0x27] @ lit ''s responsibility to store and share'',
      lit ''> under applicable data-protection law (ADR-0024 Decision C).'', [],
      lit ''---'']"

definition markdown_line :: "overrides \<Rightarrow> TranscriptSegment \<Rightarrow> jsstring" where
  "markdown_line ov seg = lit ''- **'' @ resolveLabel seg ov @ lit ''**: '' @ tl_text seg
     @ (if tl_isFinal seg then [] else interim_tag)"

lemma markdown_lines:
  assumes "tr \<noteq> []"
  shows "formatTranscriptMarkdown tr ov meta
    = concat (map (\<lambda>l. l @ [0x0A]) (markdown_header meta @ map (markdown_line ov) tr))"
proof -
  have "map (markdown_line ov) tr \<noteq> []" using assms by simp
  from join_lines_concat [OF this] show ?thesis
    by (simp add: formatTranscriptMarkdown_def markdown_header_def markdown_line_def [abs_def] interim_tag_def Let_def
        comp_def cong: if_cong)
qed

text \<open>A segment that the line format can carry: no line breaks, no asterisk in the label, and a text
  that does not itself end with the tag.\<close>

definition markdown_ok :: "overrides \<Rightarrow> TranscriptSegment \<Rightarrow> bool" where
  "markdown_ok ov seg \<longleftrightarrow> one_line (tl_text seg) \<and> one_line (resolveLabel seg ov) \<and> 0x2A \<notin> set (resolveLabel seg ov)
     \<and> \<not> ends_with interim_tag (tl_text seg)"

lemma ends_with_append: "ends_with tag (s @ tag)"
  by (simp add: ends_with_def)

lemma read_markdown_line_of:
  assumes "markdown_ok ov seg"
  shows "read_markdown_line (markdown_line ov seg) = Some (resolveLabel seg ov, tl_text seg, tl_isFinal seg)"
proof -
  let ?label = "resolveLabel seg ov" and ?tail = "tl_text seg @ (if tl_isFinal seg then [] else interim_tag)"
  have label: "takeWhile (\<lambda>c. c \<noteq> 0x2A) (?label @ lit ''**: '' @ ?tail) = ?label"
    using assms by (subst takeWhile_append2) (auto simp: markdown_ok_def js_eval)
  have "ends_with interim_tag ?tail \<longleftrightarrow> \<not> tl_isFinal seg"
    using assms by (simp add: markdown_ok_def ends_with_append)
  with label show ?thesis
    by (cases "tl_isFinal seg") (simp_all add: read_markdown_line_def markdown_line_def Let_def js_eval)
qed

lemma one_line_lits:
  "list_all one_line [lit ''# Aegis meeting transcript'', lit ''- **Session**: `'', lit ''- **Title**: '', lit ''_(untitled)_'',
     lit ''- **Host**: `'', lit ''- **Exported**: '', lit ''> Transcripts are the host'', lit ''s responsibility to store and share'',
     lit ''> under applicable data-protection law (ADR-0024 Decision C).'', lit ''---'', lit ''- **'', lit ''**: '', lit ''`'',
     interim_tag]"
  by (simp add: js_eval interim_tag_def)



end
