(* ===== verification/Export_Flow.thy ===== *)
theory Export_Flow
  imports Transcript_Export
begin

section \<open>The export flow: consent, formatting, download\<close>

text \<open>
  \<open>WebFileSystemProvider.saveAs\<close> over the browser's object URLs, \<open>performExport\<close> of the host page, and
  the consent modal that calls it. One trace lists the audit records and the downloads in the order
  they happen. Which browser calls throw is a parameter of each export.
\<close>

subsection \<open>Saving a file\<close>

datatype FileExportFormat = MarkdownFile | JsonFile | TextFile

record SaveAsRequest =
  suggestedName :: jsstring
  content :: jsstring
  file_format :: FileExportFormat

datatype SaveAsResult = Written jsstring | Cancelled

fun MIME_BY_FORMAT :: "FileExportFormat \<Rightarrow> jsstring" where
  "MIME_BY_FORMAT MarkdownFile = lit ''text/markdown;charset=utf-8''"
| "MIME_BY_FORMAT JsonFile = lit ''application/json;charset=utf-8''"
| "MIME_BY_FORMAT TextFile = lit ''text/plain;charset=utf-8''"

datatype trace_event =
    Audited consent_event
  | Downloaded jsstring jsstring jsstring

record browser =
  br_next_url :: nat
  br_live_urls :: "nat list"
  br_revokes :: "nat list"
  br_trace :: "trace_event list"

record save_faults =
  sf_blob :: "jsstring option"
  sf_dom :: "jsstring option"

definition saveAs :: "save_faults \<Rightarrow> SaveAsRequest \<Rightarrow> browser \<Rightarrow> (jsstring + SaveAsResult) \<times> browser" where
  "saveAs faults req b = (case sf_blob faults of
     Some e \<Rightarrow> (Inl e, b)
   | None \<Rightarrow>
       (let url = br_next_url b;
            b = b\<lparr>br_next_url := Suc url, br_live_urls := br_live_urls b @ [url]\<rparr>;
            (r, b) = (case sf_dom faults of
               Some e \<Rightarrow> (Inl e, b)
             | None \<Rightarrow> (Inr (Written (suggestedName req)),
                 b\<lparr>br_trace := br_trace b @ [Downloaded (suggestedName req) (MIME_BY_FORMAT (file_format req)) (content req)]\<rparr>))
        in (r, b\<lparr>br_revokes := br_revokes b @ [url]\<rparr>)))"

text \<open>The queued microtasks that revoke the object URLs.\<close>

definition run_revokes :: "browser \<Rightarrow> browser" where
  "run_revokes b = b\<lparr>br_live_urls := filter (\<lambda>u. u \<notin> set (br_revokes b)) (br_live_urls b), br_revokes := []\<rparr>"

subsection \<open>Exporting\<close>

record export_ui =
  exportModalOpen :: bool
  exportError :: "jsstring option"
  modal_format :: export_format
  ui_browser :: browser

fun file_format_of :: "export_format \<Rightarrow> FileExportFormat" where
  "file_format_of Markdown = MarkdownFile"
| "file_format_of JsonFormat = JsonFile"

fun extension_of :: "export_format \<Rightarrow> jsstring" where
  "extension_of Markdown = lit ''md''"
| "extension_of JsonFormat = lit ''json''"

definition export_meta :: "jsstring \<Rightarrow> HostState \<Rightarrow> ActiveMeeting \<Rightarrow> TranscriptExportMeta" where
  "export_meta now state m = \<lparr>em_sessionId = sessionId m,
     em_userId = (case state of ActiveHost p _ \<Rightarrow> userId p | EndingHost p _ \<Rightarrow> userId p | _ \<Rightarrow> lit ''unknown''),
     em_title = title m, em_exportedAt = now\<rparr>"

definition export_content ::
  "export_format \<Rightarrow> overrides \<Rightarrow> ActiveMeeting \<Rightarrow> TranscriptExportMeta \<Rightarrow> jsstring" where
  "export_content fmt ov m meta = (case fmt of
     Markdown \<Rightarrow> formatTranscriptMarkdown (transcript m) ov meta
   | JsonFormat \<Rightarrow> formatTranscriptJson (transcript m) ov meta)"

definition performExport ::
  "save_faults \<Rightarrow> jsstring \<Rightarrow> export_format \<Rightarrow> HostState \<Rightarrow> overrides \<Rightarrow> ActiveMeeting \<Rightarrow> export_ui \<Rightarrow> export_ui" where
  "performExport faults now fmt state ov m ui =
     (let ui = ui\<lparr>exportError := None\<rparr>;
          meta = export_meta now state m;
          req = \<lparr>suggestedName = suggestedFilename meta (extension_of fmt), content = export_content fmt ov m meta,
                 file_format = file_format_of fmt\<rparr>;
          (r, b) = saveAs faults req (ui_browser ui);
          ui = ui\<lparr>ui_browser := b\<rparr>
      in case r of Inl e \<Rightarrow> ui\<lparr>exportError := Some e\<rparr> | Inr _ \<Rightarrow> ui\<lparr>exportModalOpen := False\<rparr>)"

text \<open>The modal of one meeting: the export button opens it, the radio buttons pick the format, and
  confirming records the consent and then exports; if recording throws, nothing is exported. The
  buttons of the modal exist only while it is open, the export button only while there is something to
  export.\<close>

text \<open>\<open>Object.entries\<close> of the meeting's override object: its own entries, each once.\<close>

definition override_entries :: "overrides \<Rightarrow> ActiveMeeting \<Rightarrow> bool" where
  "override_entries ov m \<longleftrightarrow> distinct (map fst ov) \<and> list_all (\<lambda>(k, d). speakerOverrides m k = Some d) ov
     \<and> list_all (\<lambda>l. speakerOverrides m (tl_speaker l) = None \<or> tl_speaker l \<in> set (map fst ov)) (transcript m)"

datatype export_event =
    ExportClicked
  | FormatPicked export_format
  | ExportConfirmed stamp save_faults jsstring overrides HostState ActiveMeeting
  | ExportCancelled
  | RevokesRun

definition confirm_export ::
  "stamp \<Rightarrow> save_faults \<Rightarrow> jsstring \<Rightarrow> overrides \<Rightarrow> HostState \<Rightarrow> ActiveMeeting \<Rightarrow> export_ui \<Rightarrow> export_ui" where
  "confirm_export sp faults now ov state m ui =
     (case state_principal state of
        None \<Rightarrow> ui
      | Some p \<Rightarrow> (case recordTranscriptExportConsent sp (userId p) (sessionId m) (modal_format ui) [] of
          Inl _ \<Rightarrow> ui
        | Inr (r, _) \<Rightarrow>
            (let b = ui_browser ui;
                 ui = ui\<lparr>ui_browser := b\<lparr>br_trace := br_trace b @ [Audited (ExportConsent r)]\<rparr>\<rparr>
             in performExport faults now (modal_format ui) state ov m ui)))"

fun export_step :: "export_event \<Rightarrow> export_ui \<Rightarrow> export_ui" where
  "export_step ExportClicked ui = ui\<lparr>exportError := None, exportModalOpen := True\<rparr>"
| "export_step (FormatPicked f) ui = (if exportModalOpen ui then ui\<lparr>modal_format := f\<rparr> else ui)"
| "export_step (ExportConfirmed sp faults now ov state m) ui =
     (if exportModalOpen ui \<and> meeting_of state = Some m \<and> override_entries ov m then confirm_export sp faults now ov state m ui else ui)"
| "export_step ExportCancelled ui = (if exportModalOpen ui then ui\<lparr>exportModalOpen := False\<rparr> else ui)"
| "export_step RevokesRun ui = ui\<lparr>ui_browser := run_revokes (ui_browser ui)\<rparr>"

definition fresh_export :: export_ui where
  "fresh_export = \<lparr>exportModalOpen = False, exportError = None, modal_format = Markdown,
     ui_browser = \<lparr>br_next_url = 0, br_live_urls = [], br_revokes = [], br_trace = []\<rparr>\<rparr>"

subsection \<open>Properties\<close>

text \<open>Every download is directly preceded by the audit record that covers it: the content is the
  export, in the confirmed format, of a meeting with the confirmed session.\<close>

definition covers :: "TranscriptExportConsentRecord \<Rightarrow> trace_event \<Rightarrow> bool" where
  "covers r d \<longleftrightarrow> (\<exists>ov m meta. em_sessionId meta = tc_sessionId r \<and> sessionId m = tc_sessionId r \<and> em_userId meta = tc_userId r
     \<and> em_title meta = title m \<and> override_entries ov m
     \<and> d = Downloaded (suggestedFilename meta (extension_of (tc_exportFormat r)))
            (MIME_BY_FORMAT (file_format_of (tc_exportFormat r)))
            (export_content (tc_exportFormat r) ov m meta))"

fun consented :: "trace_event list \<Rightarrow> bool" where
  "consented [] = True"
| "consented (Audited (ExportConsent r) # Downloaded n t c # es) = (covers r (Downloaded n t c) \<and> consented es)"
| "consented (Audited e # es) = consented es"
| "consented (Downloaded _ _ _ # es) = False"

lemma consented_append: "consented xs \<Longrightarrow> consented ys \<Longrightarrow> consented (xs @ ys)"
proof (induction xs rule: consented.induct, goal_cases)
  case (4 v)
  then show ?case by (cases ys rule: consented.cases) simp_all
qed simp_all

lemma saveAs_effect:
  assumes "saveAs faults req b = (r, b')"
  shows "(r = Inr (Written (suggestedName req)) \<and> br_trace b' = br_trace b
            @ [Downloaded (suggestedName req) (MIME_BY_FORMAT (file_format req)) (content req)])
         \<or> (\<exists>e. r = Inl e) \<and> br_trace b' = br_trace b"
    and "set (br_live_urls b) \<subseteq> set (br_revokes b) \<Longrightarrow> set (br_live_urls b') \<subseteq> set (br_revokes b')"
  using assms by (auto simp: saveAs_def Let_def split: option.splits)

lemma performExport_effect:
  fixes now fmt state ov m faults ui
  defines "meta \<equiv> export_meta now state m"
    and "b' \<equiv> ui_browser (performExport faults now fmt state ov m ui)"
  shows "br_trace b' = br_trace (ui_browser ui)
      \<or> br_trace b' = br_trace (ui_browser ui) @ [Downloaded (suggestedFilename meta (extension_of fmt))
          (MIME_BY_FORMAT (file_format_of fmt)) (export_content fmt ov m meta)]"
    and "set (br_live_urls (ui_browser ui)) \<subseteq> set (br_revokes (ui_browser ui))
      \<Longrightarrow> set (br_live_urls b') \<subseteq> set (br_revokes b')"
proof -
  define req where "req = \<lparr>suggestedName = suggestedFilename meta (extension_of fmt),
    content = export_content fmt ov m meta, file_format = file_format_of fmt\<rparr>"
  obtain r b where save: "saveAs faults req (ui_browser ui) = (r, b)" by fastforce
  have "b' = b"
    using save by (simp add: b'_def performExport_def Let_def req_def meta_def split: sum.splits)
  with saveAs_effect [OF save]
  show "br_trace b' = br_trace (ui_browser ui)
      \<or> br_trace b' = br_trace (ui_browser ui) @ [Downloaded (suggestedFilename meta (extension_of fmt))
          (MIME_BY_FORMAT (file_format_of fmt)) (export_content fmt ov m meta)]"
    and "set (br_live_urls (ui_browser ui)) \<subseteq> set (br_revokes (ui_browser ui))
      \<Longrightarrow> set (br_live_urls b') \<subseteq> set (br_revokes b')"
    by (auto simp: req_def)
qed

definition export_ok :: "export_ui \<Rightarrow> bool" where
  "export_ok ui \<longleftrightarrow> consented (br_trace (ui_browser ui))
     \<and> set (br_live_urls (ui_browser ui)) \<subseteq> set (br_revokes (ui_browser ui))"

lemma meeting_principal:
  "meeting_of state = Some m \<Longrightarrow> state_principal state = Some p \<Longrightarrow> em_userId (export_meta now state m) = userId p"
  by (cases state) (simp_all add: export_meta_def)

lemma confirm_export_ok:
  assumes "export_ok ui" and "meeting_of state = Some m" and "override_entries ov m"
  shows "export_ok (confirm_export sp faults now ov state m ui)"
proof (cases "state_principal state = None \<or> (\<exists>e. clientMetadata sp = Inl e)")
  case True
  with assms(1) show ?thesis by (auto simp: confirm_export_def recordTranscriptExportConsent_def split: option.splits)
next
  case False
  then obtain p meta where p: "state_principal state = Some p" and meta: "clientMetadata sp = Inr meta"
    by (cases "clientMetadata sp") auto
  define r where "r = \<lparr>tc_userId = userId p, tc_sessionId = sessionId m, tc_exportFormat = modal_format ui,
    tc_exportedAt = sp_now sp, tc_clientMetadata = meta\<rparr>"
  define ui1 where "ui1 = ui\<lparr>ui_browser := (ui_browser ui)\<lparr>br_trace := br_trace (ui_browser ui) @ [Audited (ExportConsent r)]\<rparr>\<rparr>"
  have step: "confirm_export sp faults now ov state m ui = performExport faults now (modal_format ui) state ov m ui1"
    using p meta by (simp add: confirm_export_def recordTranscriptExportConsent_def Let_def r_def ui1_def)
  let ?d = "Downloaded (suggestedFilename (export_meta now state m) (extension_of (modal_format ui)))
      (MIME_BY_FORMAT (file_format_of (modal_format ui))) (export_content (modal_format ui) ov m (export_meta now state m))"
  have "covers r ?d"
    unfolding covers_def r_def using meeting_principal [OF assms(2) p] assms(3)
    by (intro exI [of _ ov] exI [of _ m] exI [of _ "export_meta now state m"]) (simp add: export_meta_def)
  then have new: "consented [Audited (ExportConsent r)]" "consented [Audited (ExportConsent r), ?d]" by simp_all
  have urls: "set (br_live_urls (ui_browser ui1)) \<subseteq> set (br_revokes (ui_browser ui1))"
    using assms(1) by (simp add: export_ok_def ui1_def)
  have old: "consented (br_trace (ui_browser ui))" using assms(1) by (simp add: export_ok_def)
  from performExport_effect(1) [of faults now "modal_format ui" state ov m ui1]
    consented_append [OF old new(1)] consented_append [OF old new(2)]
  have "consented (br_trace (ui_browser (performExport faults now (modal_format ui) state ov m ui1)))"
    by (auto simp: ui1_def)
  with performExport_effect(2) [OF urls] show ?thesis by (simp add: step export_ok_def)
qed

interpretation export: machine export_step "\<lambda>ui. ui = fresh_export" export_ok
proof unfold_locales
  fix ui e
  assume ok: "export_ok ui"
  show "export_ok (export_step e ui)"
  proof (cases e)
    case (ExportConfirmed sp faults now ov state m)
    with ok confirm_export_ok [OF ok] show ?thesis by simp
  qed (use ok in \<open>auto simp: export_ok_def run_revokes_def\<close>)
qed (simp add: export_ok_def fresh_export_def)

text \<open>C18. No transcript leaves the page without consent: on any history of the export dialog, with
  browser failures at any point, every download in the trace is directly preceded by an audit record
  of the host's confirmation for that session, user and format, and its content is the export of that
  session in that format with the meeting's own title and speaker overrides; and every object URL made for a download is released once the queued
  microtasks have run.\<close>

theorem export_consented:
  "let ui = run export_step es fresh_export in
     consented (br_trace (ui_browser ui)) \<and> br_live_urls (run_revokes (ui_browser ui)) = []"
proof -
  have "export_ok (run export_step es fresh_export)" by (rule export.reach_inv) simp
  then show ?thesis by (auto simp: export_ok_def run_revokes_def Let_def filter_empty_conv)
qed



end
