(* ===== verification/Consent_Dialog.thy ===== *)
theory Consent_Dialog
  imports Export_Flow
begin

section \<open>The consent dialog (components/ConsentModal.tsx)\<close>

text \<open>
  The reusable modal over the platform's \<open>dialog\<close> element, and its two clients: the audio consent gate
  (components/AudioProcessingConsent.tsx) and the export confirmation
  (components/TranscriptExportConsentModal.tsx). The element keeps its own open state; the component
  drives it from the \<open>open\<close> property in an effect that runs when the property changes. A close request of
  the platform (the Escape key) fires a \<open>cancel\<close> event and closes the element unless the event is
  prevented; whether it can be prevented is the platform's decision, a parameter of the request: the
  HTML standard allows it only after a user activation since the last prevented one.
\<close>

subsection \<open>The component\<close>

record ConsentModalProps =
  cp_open :: bool
  cp_declineLabel :: "jsstring option"
  cp_onDecline :: bool
  cp_closable :: "bool option"

definition closable :: "ConsentModalProps \<Rightarrow> bool" where
  "closable p = (case cp_closable p of Some b \<Rightarrow> b | None \<Rightarrow> True)"

record dialog =
  dg_props :: ConsentModalProps
  dg_shown :: bool

definition open_effect :: "dialog \<Rightarrow> dialog" where
  "open_effect d =
     (if cp_open (dg_props d) \<and> \<not> dg_shown d then d\<lparr>dg_shown := True\<rparr>
      else if \<not> cp_open (dg_props d) \<and> dg_shown d then d\<lparr>dg_shown := False\<rparr>
      else d)"

definition mount_dialog :: "ConsentModalProps \<Rightarrow> dialog" where
  "mount_dialog p = open_effect \<lparr>dg_props = p, dg_shown = False\<rparr>"

definition render_dialog :: "ConsentModalProps \<Rightarrow> dialog \<Rightarrow> dialog" where
  "render_dialog p d =
     (if cp_open p = cp_open (dg_props d) then d\<lparr>dg_props := p\<rparr> else open_effect (d\<lparr>dg_props := p\<rparr>))"

text \<open>The listener of the \<open>cancel\<close> event: whether it prevents the event, and whether it calls
  \<open>onDecline\<close>.\<close>

definition onCancel :: "ConsentModalProps \<Rightarrow> bool \<times> bool" where
  "onCancel p = (if \<not> closable p then (True, False) else (False, cp_onDecline p))"

definition close_request :: "bool \<Rightarrow> dialog \<Rightarrow> bool \<times> dialog" where
  "close_request cancelable d =
     (if \<not> dg_shown d then (False, d)
      else let (prevented, declined) = onCancel (dg_props d)
           in (declined, if prevented \<and> cancelable then d else d\<lparr>dg_shown := False\<rparr>))"

definition decline_button :: "dialog \<Rightarrow> bool" where
  "decline_button d \<longleftrightarrow> dg_shown d \<and> cp_declineLabel (dg_props d) \<noteq> None \<and> cp_onDecline (dg_props d)"

subsection \<open>Clients\<close>

text \<open>
  A client renders the dialog from its own state. Its events are those of the controls inside the
  dialog, which need the dialog to be shown, and all others; \<open>decline\<close> is the event that its \<open>onDecline\<close>
  callback stands for.
\<close>

datatype 'e modal_event = Client 'e | DeclineButton | CloseRequest bool

definition client_moves :: "('s \<Rightarrow> ConsentModalProps) \<Rightarrow> ('e \<Rightarrow> 's \<Rightarrow> 's) \<Rightarrow> 'e \<Rightarrow> 's \<times> dialog \<Rightarrow> 's \<times> dialog" where
  "client_moves props stp e sd = (let s = stp e (fst sd) in (s, render_dialog (props s) (snd sd)))"

definition declines ::
  "('s \<Rightarrow> ConsentModalProps) \<Rightarrow> ('e \<Rightarrow> 's \<Rightarrow> 's) \<Rightarrow> 'e option \<Rightarrow> 's \<times> dialog \<Rightarrow> 's \<times> dialog" where
  "declines props stp decline sd = (case decline of Some e \<Rightarrow> client_moves props stp e sd | None \<Rightarrow> sd)"

fun modal_step ::
  "('s \<Rightarrow> ConsentModalProps) \<Rightarrow> ('e \<Rightarrow> 's \<Rightarrow> 's) \<Rightarrow> ('e \<Rightarrow> bool) \<Rightarrow> 'e option
   \<Rightarrow> 'e modal_event \<Rightarrow> 's \<times> dialog \<Rightarrow> 's \<times> dialog" where
  "modal_step props stp inside decline (Client e) sd =
     (if inside e \<and> \<not> dg_shown (snd sd) then sd else client_moves props stp e sd)"
| "modal_step props stp inside decline DeclineButton sd =
     (if decline_button (snd sd) then declines props stp decline sd else sd)"
| "modal_step props stp inside decline (CloseRequest cancelable) sd =
     (let (declined, d) = close_request cancelable (snd sd)
      in if declined then declines props stp decline (fst sd, d) else (fst sd, d))"

definition in_sync :: "('s \<Rightarrow> ConsentModalProps) \<Rightarrow> 's \<times> dialog \<Rightarrow> bool" where
  "in_sync props sd \<longleftrightarrow> dg_props (snd sd) = props (fst sd) \<and> dg_shown (snd sd) = cp_open (props (fst sd))"

definition honoured :: "'e modal_event \<Rightarrow> bool" where
  "honoured e = (case e of CloseRequest cancelable \<Rightarrow> cancelable | _ \<Rightarrow> True)"

locale modal_client =
  fixes props :: "'s \<Rightarrow> ConsentModalProps"
    and stp :: "'e \<Rightarrow> 's \<Rightarrow> 's"
    and inside :: "'e \<Rightarrow> bool"
    and decline :: "'e option"
  assumes decline_closes:
    "closable (props s) \<Longrightarrow> cp_onDecline (props s) \<and> (\<exists>e. decline = Some e \<and> \<not> cp_open (props (stp e s)))"
begin

lemma moves_sync: "in_sync props (s, d) \<Longrightarrow> in_sync props (client_moves props stp e (s, d))"
  by (simp add: in_sync_def client_moves_def Let_def render_dialog_def open_effect_def)

lemma mount_sync: "in_sync props (s, mount_dialog (props s))"
  by (simp add: in_sync_def mount_dialog_def open_effect_def)

text \<open>A decline closes the element whether the element has closed already or not.\<close>

lemma decline_sync:
  assumes "dg_props d = props s" and "closable (props s)" and "cp_open (props s)"
  shows "in_sync props (declines props stp decline (s, d))"
proof -
  obtain e where "decline = Some e" "\<not> cp_open (props (stp e s))" using decline_closes [OF assms(2)] by blast
  with assms show ?thesis
    by (simp add: declines_def in_sync_def client_moves_def Let_def render_dialog_def open_effect_def)
qed

lemma step_sync:
  assumes sync: "in_sync props (s, d)" and "closable (props s) \<or> honoured e"
  shows "in_sync props (modal_step props stp inside decline e (s, d))"
proof (cases e)
  case (Client x)
  with sync moves_sync show ?thesis by simp
next
  case DeclineButton
  show ?thesis
  proof (cases decline)
    case None
    with DeclineButton sync show ?thesis by (simp add: declines_def)
  next
    case (Some x)
    with DeclineButton sync moves_sync show ?thesis by (simp add: declines_def)
  qed
next
  case (CloseRequest c)
  show ?thesis
  proof (cases "dg_shown d \<and> closable (props s)")
    case True
    with sync have "dg_props (d\<lparr>dg_shown := False\<rparr>) = props s" "cp_open (props s)"
      by (simp_all add: in_sync_def)
    with True sync decline_closes [of s] decline_sync [of "d\<lparr>dg_shown := False\<rparr>" s] CloseRequest show ?thesis
      by (simp add: close_request_def onCancel_def in_sync_def)
  next
    case False
    with assms CloseRequest show ?thesis
      by (auto simp: close_request_def onCancel_def in_sync_def honoured_def)
  qed
qed

lemma step_sync_pair:
  "in_sync props sd \<Longrightarrow> closable (props (fst sd)) \<or> honoured e
   \<Longrightarrow> in_sync props (modal_step props stp inside decline e sd)"
  using step_sync [of "fst sd" "snd sd" e] by simp

lemma run_sync:
  assumes "list_all honoured es"
  shows "in_sync props (run (modal_step props stp inside decline) es (s, mount_dialog (props s)))"
proof -
  have "in_sync props sd \<Longrightarrow> list_all honoured es \<Longrightarrow>
      in_sync props (run (modal_step props stp inside decline) es sd)" for sd
    by (induction es arbitrary: sd) (simp_all add: step_sync_pair)
  with mount_sync assms show ?thesis by blast
qed

end

locale closable_client = modal_client +
  assumes always_closable: "closable (props s)"

sublocale closable_client \<subseteq> machine "modal_step props stp inside decline"
  "\<lambda>sd. \<exists>s. sd = (s, mount_dialog (props s))" "in_sync props"
  by unfold_locales (auto simp: mount_sync step_sync_pair always_closable)

subsection \<open>The export confirmation\<close>

definition export_props :: "export_ui \<Rightarrow> ConsentModalProps" where
  "export_props ui = \<lparr>cp_open = exportModalOpen ui, cp_declineLabel = Some (lit ''Cancel''), cp_onDecline = True,
     cp_closable = Some True\<rparr>"

lemma export_props_sel [simp]: "cp_open (export_props ui) = exportModalOpen ui" "closable (export_props ui)"
  "cp_onDecline (export_props ui)"
  by (simp_all add: export_props_def closable_def)

fun export_inside :: "export_event \<Rightarrow> bool" where
  "export_inside (FormatPicked _) = True"
| "export_inside (ExportConfirmed _ _ _ _ _ _) = True"
| "export_inside ExportCancelled = True"
| "export_inside ExportClicked = False"
| "export_inside RevokesRun = False"

definition export_dialog_step :: "export_event modal_event \<Rightarrow> export_ui \<times> dialog \<Rightarrow> export_ui \<times> dialog" where
  "export_dialog_step = modal_step export_props export_step export_inside (Some ExportCancelled)"

interpretation export_dialog: closable_client export_props export_step export_inside "Some ExportCancelled"
  by unfold_locales simp_all

text \<open>The dialog adds no event of its own to the export: a run of the two together is a run of the
  export alone.\<close>

lemma export_dialog_moves:
  "\<exists>es. fst (export_dialog_step e sd) = run export_step es (fst sd)"
proof (cases e)
  case (Client x)
  show ?thesis
    by (rule exI [of _ "if export_inside x \<and> \<not> dg_shown (snd sd) then [] else [x]"])
      (simp add: Client export_dialog_step_def client_moves_def Let_def)
next
  case DeclineButton
  show ?thesis
    by (rule exI [of _ "if decline_button (snd sd) then [ExportCancelled] else []"])
      (simp add: DeclineButton export_dialog_step_def declines_def client_moves_def Let_def)
next
  case (CloseRequest c)
  show ?thesis
    by (rule exI [of _ "if fst (close_request c (snd sd)) then [ExportCancelled] else []"])
      (simp add: CloseRequest export_dialog_step_def declines_def client_moves_def Let_def split: prod.split)
qed

lemma export_dialog_run: "\<exists>es'. fst (run export_dialog_step es sd) = run export_step es' (fst sd)"
proof (induction es arbitrary: sd)
  case Nil
  show ?case by (rule exI [of _ "[]"]) simp
next
  case (Cons e es)
  obtain es1 where "fst (export_dialog_step e sd) = run export_step es1 (fst sd)" using export_dialog_moves by blast
  moreover obtain es2 where "fst (run export_dialog_step es (export_dialog_step e sd))
      = run export_step es2 (fst (export_dialog_step e sd))" using Cons.IH by blast
  ultimately have "fst (run export_dialog_step (e # es) sd) = run export_step (es1 @ es2) (fst sd)" by simp
  then show ?case by blast
qed

text \<open>The export dialog on screen is the dialog of the page's state: after any history of buttons,
  close requests and page events, however the platform treats the requests, the element is shown
  exactly when the page holds the dialog open; a close request closes both; and the downloads made
  remain covered by audit records.\<close>

lemma export_dialog_in_sync:
  "let (ui, d) = run export_dialog_step es (fresh_export, mount_dialog (export_props fresh_export)) in
     dg_shown d = exportModalOpen ui
   \<and> (let (ui', d') = export_dialog_step (CloseRequest cancelable) (ui, d) in \<not> dg_shown d' \<and> \<not> exportModalOpen ui')
   \<and> consented (br_trace (ui_browser ui))"
proof -
  obtain ui d where r: "run export_dialog_step es (fresh_export, mount_dialog (export_props fresh_export)) = (ui, d)"
    by fastforce
  have sync: "in_sync export_props (ui, d)"
    using export_dialog.reach_inv [of "(fresh_export, mount_dialog (export_props fresh_export))" es] r
    by (auto simp: export_dialog_step_def)
  have "in_sync export_props (export_dialog_step (CloseRequest cancelable) (ui, d))"
    unfolding export_dialog_step_def by (rule export_dialog.step_inv [OF sync])
  moreover from sync have "\<not> exportModalOpen (fst (export_dialog_step (CloseRequest cancelable) (ui, d)))"
    by (simp add: export_dialog_step_def in_sync_def close_request_def onCancel_def declines_def client_moves_def Let_def)
  moreover obtain es' where "ui = run export_step es' fresh_export"
    using export_dialog_run [of es "(fresh_export, mount_dialog (export_props fresh_export))"] r by auto
  then have "export_ok ui" using export.reach_inv by blast
  moreover from sync have "dg_shown d = exportModalOpen ui" by (simp add: in_sync_def)
  ultimately show ?thesis by (auto simp: r export_ok_def in_sync_def)
qed

subsection \<open>The audio consent gate\<close>

definition audio_props :: "gate \<Rightarrow> ConsentModalProps" where
  "audio_props g = \<lparr>cp_open = gate_needed g, cp_declineLabel = None, cp_onDecline = False, cp_closable = Some False\<rparr>"

fun audio_inside :: "gate_event \<Rightarrow> bool" where
  "audio_inside (AcceptClicked _) = True"
| "audio_inside (UserChanged _) = False"

definition audio_dialog_step :: "gate_event modal_event \<Rightarrow> gate \<times> dialog \<Rightarrow> gate \<times> dialog" where
  "audio_dialog_step = modal_step audio_props gate_step audio_inside None"

interpretation audio_dialog: modal_client audio_props gate_step audio_inside None
  by unfold_locales (simp add: audio_props_def closable_def)

text \<open>The audio consent dialog blocks the page as long as consent is missing, on every platform
  that lets a \<open>cancel\<close> event be prevented: whatever buttons, account changes and Escape keys come, the
  dialog is shown exactly while the gate asks.\<close>

lemma audio_dialog_blocks:
  assumes "list_all honoured es"
  shows "let (g, d) = run audio_dialog_step es (mount_gate user st, mount_dialog (audio_props (mount_gate user st))) in
     dg_shown d = gate_needed g"
  using audio_dialog.run_sync [OF assms, of "mount_gate user st"]
  by (auto simp: audio_dialog_step_def in_sync_def audio_props_def)

text \<open>One close request that the platform does not let the page prevent ends the blocking: the
  dialog disappears although no consent was given, and since the effect depends on the \<open>open\<close>
  property alone, nothing but a change of account shows it again; no consent can be recorded any more.\<close>

lemma audio_dialog_bypassed:
  assumes "\<not> hasAudioProcessingConsent st user CURRENT_POLICY_VERSION"
    and "list_all (\<lambda>e. \<forall>u. e \<noteq> Client (UserChanged u)) es"
  shows "run audio_dialog_step (CloseRequest False # es) (mount_gate user st, mount_dialog (audio_props (mount_gate user st)))
    = (mount_gate user st, \<lparr>dg_props = audio_props (mount_gate user st), dg_shown = False\<rparr>)"
proof -
  let ?g = "mount_gate user st"
  let ?hidden = "(?g, \<lparr>dg_props = audio_props ?g, dg_shown = False\<rparr>)"
  have "audio_dialog_step (CloseRequest False) (?g, mount_dialog (audio_props ?g)) = ?hidden"
    using assms(1) by (simp add: audio_dialog_step_def close_request_def onCancel_def mount_dialog_def open_effect_def
        audio_props_def closable_def mount_gate_def)
  moreover have "run audio_dialog_step es ?hidden = ?hidden" using assms(2)
  proof (induction es)
    case (Cons e es)
    then have "audio_dialog_step e ?hidden = ?hidden"
      by (cases e) (auto simp: audio_dialog_step_def close_request_def decline_button_def elim: audio_inside.elims)
    with Cons show ?case by simp
  qed simp
  ultimately show ?thesis by simp
qed

lemma audio_dialog_bypassed_witness:
  "dg_shown (snd (run audio_dialog_step [CloseRequest False, CloseRequest True]
     (mount_gate [] \<lparr>st_defined = False, st_accepts = False, st_items = Map.empty\<rparr>,
      mount_dialog (audio_props (mount_gate [] \<lparr>st_defined = False, st_accepts = False, st_items = Map.empty\<rparr>)))))
   = False"
proof -
  have "\<not> hasAudioProcessingConsent \<lparr>st_defined = False, st_accepts = False, st_items = Map.empty\<rparr> [] CURRENT_POLICY_VERSION"
    by (simp add: hasAudioProcessingConsent_def getItem_def)
  from audio_dialog_bypassed [OF this, of "[CloseRequest True]"] show ?thesis by simp
qed

end
