(* ===== verification/Host_View.thy ===== *)
theory Host_View
  imports Host_Flight Host_Panels Consent_Dialog
begin

section \<open>What the host page renders (pages/Host/HostPage.tsx, render)\<close>

text \<open>
  The rendered page as a value: which of the five screens is shown, what it displays, and which
  controls it has and leaves enabled. The user can only do what an enabled control allows, so the
  guards of the page's event handlers in \<open>Host_Page\<close> are read off this value. Texts that never change
  and styles are left out.
\<close>

definition ALL_MODES :: "(CaptureMode \<times> jsstring) list" where
  "ALL_MODES = [(Microphone, lit ''Physical room (microphone)''),
     (BrowserTab, lit ''Remote meeting (capture browser tab)''),
     (MicrophoneAndTab, lit ''Both (mic + tab, mixed)'')]"

record header_view =
  hv_user :: jsstring
  hv_tenant :: "jsstring option"

definition Header :: "AuthPrincipal \<Rightarrow> header_view" where
  "Header p = \<lparr>hv_user = userId p, hv_tenant = (if tenantId p \<noteq> [] then Some (tenantId p) else None)\<rparr>"

record form_view =
  fv_header :: header_view
  fv_ragId :: jsstring
  fv_corpora :: "corpus_option list"
  fv_corpus_enabled :: bool
  fv_loading_note :: bool
  fv_fallback_note :: "jsstring option"
  fv_title :: jsstring
  fv_panel :: bool
  fv_notice :: bool
  fv_enabled :: bool
  fv_modes :: "(CaptureMode \<times> bool) list"

datatype transcript_panel =
    PanelDisabled
  | PanelWaiting
  | PanelLines "(jsstring \<times> jsstring) list option" "(jsstring \<times> TranscriptLine) list" "nat option"

record meeting_view =
  mv_header :: header_view
  mv_url :: "uri_error + jsstring"
  mv_lan_warning :: bool
  mv_session :: jsstring
  mv_panel :: transcript_panel
  mv_export_enabled :: bool
  mv_end_enabled :: bool
  mv_export_error :: "jsstring option"
  mv_hints :: "(HintStyleSpec \<times> HintEntry) list"

datatype view =
    ResolvingView
  | SignInView jsstring
  | ErrorView jsstring
  | FormView form_view
  | MeetingView meeting_view

definition transcript_panel_of :: "ActiveMeeting \<Rightarrow> transcript_panel" where
  "transcript_panel_of m =
     (if \<not> showTranscriptPanel m then PanelDisabled
      else if length (transcript m) = 0 then PanelWaiting
      else PanelLines (SpeakerLabelPanel (transcript m) (speakerOverrides m)) (shown_lines m)
        (if TRANSCRIPT_TAIL < length (transcript m) then Some (length (transcript m)) else None))"

definition form_view_of ::
  "platform \<Rightarrow> corpora \<Rightarrow> bool \<Rightarrow> AuthPrincipal \<Rightarrow> jsstring \<Rightarrow> jsstring \<Rightarrow> bool \<Rightarrow> form_view" where
  "form_view_of pl cs isCreating p ragId ttl panel =
     \<lparr>fv_header = Header p, fv_ragId = ragId, fv_corpora = corporaOptions cs,
      fv_corpus_enabled = (\<not> (isCreating \<or> corporaLoading cs)), fv_loading_note = corporaLoading cs,
      fv_fallback_note = corporaError cs, fv_title = ttl, fv_panel = panel, fv_notice = panel,
      fv_enabled = (\<not> isCreating), fv_modes = map (\<lambda>(m, _). (m, isSupported pl m)) ALL_MODES\<rparr>"

definition meeting_view_of ::
  "jsstring option \<Rightarrow> location \<Rightarrow> export_ui \<Rightarrow> bool \<Rightarrow> AuthPrincipal \<Rightarrow> ActiveMeeting \<Rightarrow> meeting_view" where
  "meeting_view_of lanIP l ui isEnding p m =
     \<lparr>mv_header = Header p, mv_url = viewerUrl lanIP l m, mv_lan_warning = (\<not> lanQRReady lanIP l),
      mv_session = sessionId m, mv_panel = transcript_panel_of m,
      mv_export_enabled = (\<not> (length (transcript m) = 0 \<or> isEnding)), mv_end_enabled = (\<not> isEnding),
      mv_export_error = exportError ui, mv_hints = HintPanel (hints m)\<rparr>"

fun render ::
  "platform \<Rightarrow> DeployMode \<Rightarrow> corpora \<Rightarrow> jsstring option \<Rightarrow> location \<Rightarrow> export_ui \<Rightarrow> HostState \<Rightarrow> view" where
  "render pl dm cs lanIP l ui LoadingAuth = ResolvingView"
| "render pl dm cs lanIP l ui SignedOut =
     SignInView (if dm = CloudMode then lit ''with Cognito'' else lit ''(local)'')"
| "render pl dm cs lanIP l ui (HostError _ message) = ErrorView message"
| "render pl dm cs lanIP l ui (Ready f) =
     FormView (form_view_of pl cs False (rf_principal f) (rf_ragId f) (rf_title f) (rf_showTranscriptPanel f))"
| "render pl dm cs lanIP l ui (Creating f) =
     FormView (form_view_of pl cs True (cf_principal f) DEFAULT_RAG_ID [] (cf_showTranscriptPanel f))"
| "render pl dm cs lanIP l ui (ActiveHost p m) = MeetingView (meeting_view_of lanIP l ui False p m)"
| "render pl dm cs lanIP l ui (EndingHost p m) = MeetingView (meeting_view_of lanIP l ui True p m)"

text \<open>The user the screen is for: the two screens with a header also contain the audio consent gate.\<close>

fun shows_user :: "HostState \<Rightarrow> jsstring option" where
  "shows_user (Ready f) = Some (userId (rf_principal f))"
| "shows_user (Creating f) = Some (userId (cf_principal f))"
| "shows_user (ActiveHost p _) = Some (userId p)"
| "shows_user (EndingHost p _) = Some (userId p)"
| "shows_user _ = None"

lemma header_shows_user:
  "(case render pl dm cs lanIP l ui s of FormView v \<Rightarrow> Some (hv_user (fv_header v))
     | MeetingView v \<Rightarrow> Some (hv_user (mv_header v)) | _ \<Rightarrow> None) = shows_user s"
  by (cases s) (simp_all add: form_view_of_def meeting_view_of_def Header_def)

text \<open>C40. The screen never shows more than it may: the transcript appears only for a meeting whose
  panel is on, at most its last five lines, with the note of the full count exactly when lines are
  hidden; and the controls that start, export and end are enabled only in the states whose handlers
  expect them.\<close>

theorem render_discloses:
  "(case render pl dm cs lanIP l ui s of
     MeetingView v \<Rightarrow> (case meeting_of s of None \<Rightarrow> False | Some m \<Rightarrow>
         (case mv_panel v of
            PanelLines rows lines note \<Rightarrow> showTranscriptPanel m \<and> lines = shown_lines m \<and> lines \<noteq> []
              \<and> length lines \<le> 5 \<and> (note = None) = (length lines = length (transcript m))
          | PanelWaiting \<Rightarrow> showTranscriptPanel m \<and> transcript m = []
          | PanelDisabled \<Rightarrow> \<not> showTranscriptPanel m)
       \<and> (mv_end_enabled v = (\<exists>p. s = ActiveHost p m))
       \<and> (mv_export_enabled v = ((\<exists>p. s = ActiveHost p m) \<and> transcript m \<noteq> [])))
   | FormView v \<Rightarrow> meeting_of s = None \<and> fv_enabled v = (\<exists>f. s = Ready f) \<and> fv_notice v = fv_panel v
       \<and> fv_corpus_enabled v = (fv_enabled v \<and> \<not> corporaLoading cs)
   | _ \<Rightarrow> meeting_of s = None \<and> shows_user s = None)"
proof (cases s)
  case (ActiveHost p m)
  then show ?thesis
    by (auto simp: meeting_view_of_def transcript_panel_of_def shown_lines_def TRANSCRIPT_TAIL_def)
next
  case (EndingHost p m)
  then show ?thesis
    by (auto simp: meeting_view_of_def transcript_panel_of_def shown_lines_def TRANSCRIPT_TAIL_def)
qed (simp_all add: form_view_of_def)

end
