(* ===== verification/Host_Page.thy ===== *)
theory Host_Page
  imports Host_View
begin

section \<open>The host page as a whole (pages/Host/HostPage.tsx)\<close>

text \<open>
  The components of the host page put together: the reducer's state with the resources behind it, the
  starts in flight and the meetings being ended, the corpora, the audio consent gate and the export
  flow with their dialogs. A step is one user action on an enabled control of the rendered page, one
  settled call, one stream event or one change of identity. While a modal dialog is shown the platform
  makes the rest of the page inert, so no control outside the dialog reacts. Components mount and
  unmount as the screen changes: the gate with the two screens that have a header, the export dialog
  with the meeting screen.
\<close>

subsection \<open>State\<close>

record submission =
  sb_user :: jsstring
  sb_ragId :: jsstring
  sb_title :: jsstring
  sb_mode :: CaptureMode

record page =
  pg_rt :: runtime
  pg_flights :: "flight option list"
  pg_endings :: "ActiveMeeting option list"
  pg_corpora :: corpora
  pg_gate :: "gate \<times> dialog"
  pg_export :: "export_ui \<times> dialog"
  pg_submissions :: "submission list"

abbreviation pg_state :: "page \<Rightarrow> HostState" where
  "pg_state pg \<equiv> rt_state (pg_rt pg)"

definition hidden :: "dialog \<Rightarrow> dialog" where
  "hidden d = d\<lparr>dg_shown := False\<rparr>"

definition mount_page :: "storage \<Rightarrow> page" where
  "mount_page st = \<lparr>pg_rt = a_runtime LoadingAuth, pg_flights = [], pg_endings = [], pg_corpora = mount_corpora,
     pg_gate = (mount_gate [] st, hidden (mount_dialog (audio_props (mount_gate [] st)))),
     pg_export = (fresh_export, mount_dialog (export_props fresh_export)), pg_submissions = []\<rparr>"

text \<open>The gate's part of a render: unmounted with its screen, mounted anew from the storage, or given
  the user of the screen.\<close>

definition settle_gate :: "jsstring option \<Rightarrow> jsstring option \<Rightarrow> gate \<times> dialog \<Rightarrow> gate \<times> dialog" where
  "settle_gate before after gd = (case after of
     None \<Rightarrow> (fst gd, hidden (snd gd))
   | Some user \<Rightarrow> (case before of
       None \<Rightarrow> (let g = (mount_gate user (gate_storage (fst gd)))\<lparr>gate_log := gate_log (fst gd)\<rparr>
                in (g, mount_dialog (audio_props g)))
     | Some _ \<Rightarrow> audio_dialog_step (Client (UserChanged user)) gd))"

definition settle_export :: "bool \<Rightarrow> bool \<Rightarrow> export_ui \<times> dialog \<Rightarrow> export_ui \<times> dialog" where
  "settle_export before after ed =
     (if \<not> after then (fst ed, hidden (snd ed))
      else if \<not> before then (let ui = (fst ed)\<lparr>modal_format := Markdown\<rparr> in (ui, mount_dialog (export_props ui)))
      else ed)"

definition with_rt :: "runtime \<Rightarrow> page \<Rightarrow> page" where
  "with_rt rt pg = pg\<lparr>pg_rt := rt,
     pg_gate := settle_gate (shows_user (pg_state pg)) (shows_user (rt_state rt)) (pg_gate pg),
     pg_export := settle_export (meeting_of (pg_state pg) \<noteq> None) (meeting_of (rt_state rt) \<noteq> None) (pg_export pg)\<rparr>"

definition act :: "Action \<Rightarrow> page \<Rightarrow> page" where
  "act a pg = with_rt (dispatch_rt a (pg_rt pg)) pg"

definition inert :: "page \<Rightarrow> bool" where
  "inert pg \<longleftrightarrow> dg_shown (snd (pg_gate pg)) \<or> dg_shown (snd (pg_export pg))"

subsection \<open>Handlers\<close>

text \<open>The submit handler: \<open>FormData\<close> leaves out a disabled radio button, and the default is the
  microphone.\<close>

definition submitted_mode :: "platform \<Rightarrow> CaptureMode option \<Rightarrow> CaptureMode" where
  "submitted_mode pl checked = (case checked of
     Some m \<Rightarrow> if isSupported pl m then m else Microphone
   | None \<Rightarrow> Microphone)"

definition submit :: "platform \<Rightarrow> CaptureMode option \<Rightarrow> ReadyForm \<Rightarrow> page \<Rightarrow> page" where
  "submit pl checked f pg =
     (let mode = submitted_mode pl checked;
          ttl = trim (rf_title f)
      in act CREATE_REQUESTED (pg\<lparr>pg_flights := pg_flights pg @ [Some (launch (rf_ragId f) ttl mode)],
           pg_submissions := pg_submissions pg @ [\<lparr>sb_user = userId (rf_principal f), sb_ragId = rf_ragId f,
             sb_title = ttl, sb_mode = mode\<rparr>]\<rparr>))"

definition fly_on :: "nat \<Rightarrow> meeting_env \<Rightarrow> flight \<Rightarrow> page \<Rightarrow> page" where
  "fly_on i env fl pg = (case resume env fl (pg_rt pg) of
     (None, fl', rt) \<Rightarrow> pg\<lparr>pg_rt := rt, pg_flights := (pg_flights pg)[i := Some fl']\<rparr>
   | (Some r, fl', rt) \<Rightarrow> with_rt (land r (fl_got fl') rt) (pg\<lparr>pg_flights := (pg_flights pg)[i := None]\<rparr>))"

text \<open>\<open>endMeeting\<close> up to its first await, and from there to the end.\<close>

definition end_begin :: "end_faults \<Rightarrow> ActiveMeeting \<Rightarrow> runtime \<Rightarrow> runtime" where
  "end_begin faults m rt =
     (let rt = dispatch_rt END_REQUESTED rt;
          rt = attempt_step (fault_unsubscribe faults) (Unsubscribe (subscription m)) (unsubscribe_rt (subscription m)) rt
      in attempt_step (fault_close faults) (ClosePeer (peer m)) (close_peer (peer m)) rt)"

definition end_finish :: "end_faults \<Rightarrow> ActiveMeeting \<Rightarrow> runtime \<Rightarrow> runtime" where
  "end_finish faults m rt =
     (let rt = attempt_step (fault_stop faults) (StopCapture (capture m)) (stop_capture (capture m)) rt;
          rt = attempt_step (fault_rpc faults) (EndRpc (sessionId m)) (served (SessionEnded (end_request m))) rt
      in dispatch_rt MEETING_ENDED rt)"

lemma endMeeting_halves: "endMeeting faults m rt = end_finish faults m (end_begin faults m rt)"
  by (simp add: endMeeting_def end_begin_def end_finish_def Let_def)

definition entry_at :: "'a option list \<Rightarrow> nat \<Rightarrow> 'a option" where
  "entry_at xs i = (if i < length xs then xs ! i else None)"

subsection \<open>Steps\<close>

datatype page_event =
    CorpusPicked jsstring
  | TitleTyped jsstring
  | PanelToggled bool
  | FormSubmitted platform "CaptureMode option"
  | FlightResumed nat meeting_env
  | EndClicked end_faults
  | EndSettled nat end_faults
  | ErrorDismissed
  | LabelPicked jsstring jsstring
  | StreamDelivered jsnum ViewerEvent
  | IdentityResolved "AuthPrincipal option"
  | CorporaEvent corpora_event
  | GateAccepted stamp
  | GateClose bool
  | ExportOpened
  | ExportFormat export_format
  | ExportAccepted stamp save_faults jsstring overrides
  | ExportDeclined
  | ExportClose bool
  | BlobsRevoked

fun page_step :: "page_event \<Rightarrow> page \<Rightarrow> page" where
  "page_step (CorpusPicked v) pg = (case pg_state pg of
     Ready _ \<Rightarrow> if \<not> inert pg \<and> \<not> corporaLoading (pg_corpora pg) \<and> v \<in> set (map co_value (corporaOptions (pg_corpora pg)))
       then act (FORM_FIELD_CHANGED RagIdField v) pg else pg
   | _ \<Rightarrow> pg)"
| "page_step (TitleTyped t) pg = (case pg_state pg of
     Ready _ \<Rightarrow> if \<not> inert pg \<and> length t \<le> 200 then act (FORM_FIELD_CHANGED TitleField t) pg else pg
   | _ \<Rightarrow> pg)"
| "page_step (PanelToggled b) pg = (case pg_state pg of
     Ready _ \<Rightarrow> if \<not> inert pg then act (TRANSCRIPT_PANEL_TOGGLED b) pg else pg
   | _ \<Rightarrow> pg)"
| "page_step (FormSubmitted pl checked) pg = (case pg_state pg of
     Ready f \<Rightarrow> if \<not> inert pg then submit pl checked f pg else pg
   | _ \<Rightarrow> pg)"
| "page_step (FlightResumed i env) pg = (case entry_at (pg_flights pg) i of
     None \<Rightarrow> pg
   | Some fl \<Rightarrow> fly_on i env fl pg)"
| "page_step (EndClicked faults) pg = (case pg_state pg of
     ActiveHost _ m \<Rightarrow> if \<not> inert pg then with_rt (end_begin faults m (pg_rt pg)) (pg\<lparr>pg_endings := pg_endings pg @ [Some m]\<rparr>)
       else pg
   | _ \<Rightarrow> pg)"
| "page_step (EndSettled i faults) pg = (case entry_at (pg_endings pg) i of
     None \<Rightarrow> pg
   | Some m \<Rightarrow> with_rt (end_finish faults m (pg_rt pg)) (pg\<lparr>pg_endings := (pg_endings pg)[i := None]\<rparr>))"
| "page_step ErrorDismissed pg = (case pg_state pg of
     HostError _ _ \<Rightarrow> act ERROR_CLEARED pg
   | _ \<Rightarrow> pg)"
| "page_step (LabelPicked original curated) pg = (case meeting_of (pg_state pg) of
     None \<Rightarrow> pg
   | Some m \<Rightarrow> (case transcript_panel_of m of
       PanelLines (Some rows) _ _ \<Rightarrow>
         if \<not> inert pg \<and> original \<in> set (map fst rows) \<and> curated \<in> set ([] # CURATED_SPEAKER_LABELS)
         then act (SPEAKER_LABEL_ASSIGNED original curated) pg else pg
     | _ \<Rightarrow> pg))"
| "page_step (StreamDelivered now e) pg = run act (onEvent now e) pg"
| "page_step (IdentityResolved who) pg = act (AUTH_RESOLVED who) pg"
| "page_step (CorporaEvent e) pg = pg\<lparr>pg_corpora := corpora_step e (pg_corpora pg)\<rparr>"
| "page_step (GateAccepted sp) pg = (if shows_user (pg_state pg) = None then pg
     else pg\<lparr>pg_gate := audio_dialog_step (Client (AcceptClicked sp)) (pg_gate pg)\<rparr>)"
| "page_step (GateClose cancelable) pg = (if shows_user (pg_state pg) = None then pg
     else pg\<lparr>pg_gate := audio_dialog_step (CloseRequest cancelable) (pg_gate pg)\<rparr>)"
| "page_step ExportOpened pg = (case pg_state pg of
     ActiveHost _ m \<Rightarrow> if \<not> inert pg \<and> transcript m \<noteq> []
       then pg\<lparr>pg_export := export_dialog_step (Client ExportClicked) (pg_export pg)\<rparr> else pg
   | _ \<Rightarrow> pg)"
| "page_step (ExportFormat fmt) pg = (if meeting_of (pg_state pg) = None then pg
     else pg\<lparr>pg_export := export_dialog_step (Client (FormatPicked fmt)) (pg_export pg)\<rparr>)"
| "page_step (ExportAccepted sp faults now ov) pg = (case meeting_of (pg_state pg) of
     None \<Rightarrow> pg
   | Some m \<Rightarrow> pg\<lparr>pg_export := export_dialog_step (Client (ExportConfirmed sp faults now ov (pg_state pg) m)) (pg_export pg)\<rparr>)"
| "page_step ExportDeclined pg = (if meeting_of (pg_state pg) = None then pg
     else pg\<lparr>pg_export := export_dialog_step DeclineButton (pg_export pg)\<rparr>)"
| "page_step (ExportClose cancelable) pg = (if meeting_of (pg_state pg) = None then pg
     else pg\<lparr>pg_export := export_dialog_step (CloseRequest cancelable) (pg_export pg)\<rparr>)"
| "page_step BlobsRevoked pg = pg\<lparr>pg_export := export_dialog_step (Client RevokesRun) (pg_export pg)\<rparr>"

text \<open>The pages reached from a fresh mount by steps that the platform and the identity library allow.\<close>

inductive reached :: "(page_event \<Rightarrow> page \<Rightarrow> bool) \<Rightarrow> page \<Rightarrow> bool" for allowed where
  mounted: "reached allowed (mount_page st)"
| stepped: "reached allowed (page_step e pg)" if "reached allowed pg" and "allowed e pg"

fun all_allowed :: "(page_event \<Rightarrow> page \<Rightarrow> bool) \<Rightarrow> page_event list \<Rightarrow> page \<Rightarrow> bool" where
  "all_allowed allowed [] pg = True"
| "all_allowed allowed (e # es) pg = (allowed e pg \<and> all_allowed allowed es (page_step e pg))"

lemma all_allowed_True [simp]: "all_allowed (\<lambda>_ _. True) es pg"
  by (induction es arbitrary: pg) simp_all

lemma reached_run: "reached allowed pg \<Longrightarrow> all_allowed allowed es pg \<Longrightarrow> reached allowed (run page_step es pg)"
  by (induction es arbitrary: pg) (auto intro: reached.stepped)

text \<open>The contract of an invariant of the page: the mounted page has it and every allowed step keeps it.\<close>

locale page_invariant =
  fixes allowed :: "page_event \<Rightarrow> page \<Rightarrow> bool"
    and inv :: "page \<Rightarrow> bool"
  assumes mount_inv: "inv (mount_page st)"
    and step_inv: "inv pg \<Longrightarrow> allowed e pg \<Longrightarrow> inv (page_step e pg)"
begin

lemma reached_inv: "reached allowed pg \<Longrightarrow> inv pg"
  by (induction rule: reached.induct) (auto intro: mount_inv step_inv)

end

text \<open>A short meeting: the host accepts, types a title, submits, and the start lands.\<close>

definition a_storage :: storage where
  "a_storage = \<lparr>st_defined = False, st_accepts = False, st_items = Map.empty\<rparr>"

definition a_stamp :: stamp where
  "a_stamp = \<lparr>sp_now = [], sp_agent = None, sp_config = Some (env_config an_env)\<rparr>"

definition a_submission :: "page_event list" where
  "a_submission = [IdentityResolved (Some LOCAL_PRINCIPAL), GateAccepted a_stamp, TitleTyped (lit '' Q4 ''),
     FormSubmitted (env_platform an_env) None]"

definition takeoff :: "page_event list" where
  "takeoff = a_submission @ replicate 6 (FlightResumed 0 an_env)"

lemmas page_eval = a_submission_def mount_page_def act_def with_rt_def dispatch_rt_def settle_gate_def settle_export_def
  hidden_def mount_dialog_def open_effect_def audio_props_def mount_gate_def a_storage_def hasAudioProcessingConsent_def
  getItem_def audio_dialog_step_def client_moves_def render_dialog_def inert_def submit_def submitted_mode_def
  export_props_def fresh_export_def recordAudioProcessingConsent_def clientMetadata_def a_stamp_def getConfig_def
  setItem_caught_def fresh_form_def entry_at_def fly_on_def resume_def land_def launch_def an_env_eval

lemma takeoff_state:
  "\<exists>m. pg_state (run page_step takeoff (mount_page a_storage)) = ActiveHost LOCAL_PRINCIPAL m \<and> subscription m = 0 \<and> peer m = 0"
  by (simp add: takeoff_def page_eval numeral_eq_Suc start_meeting_def)

end
