(* ===== verification/Host_Page_Safety.thy ===== *)
theory Host_Page_Safety
  imports Host_Page
begin

section \<open>Safety of the host page\<close>

text \<open>
  Invariants of the composed host page, by rule induction over its reachable states: consent comes
  before every start, every request to the gateway is one the form allows and names a session the
  gateway created.
\<close>

subsection \<open>Frame of the handlers\<close>

lemma with_rt_frame [simp]:
  "pg_rt (with_rt rt pg) = rt" "pg_flights (with_rt rt pg) = pg_flights pg"
  "pg_endings (with_rt rt pg) = pg_endings pg" "pg_corpora (with_rt rt pg) = pg_corpora pg"
  "pg_submissions (with_rt rt pg) = pg_submissions pg"
  by (simp_all add: with_rt_def)

lemma act_frame [simp]:
  "pg_rt (act a pg) = dispatch_rt a (pg_rt pg)" "pg_flights (act a pg) = pg_flights pg"
  "pg_endings (act a pg) = pg_endings pg" "pg_corpora (act a pg) = pg_corpora pg"
  "pg_submissions (act a pg) = pg_submissions pg"
  by (simp_all add: act_def)

lemma resume_state [simp]: "resume env fl rt = (r, fl', rt') \<Longrightarrow> rt_state rt' = rt_state rt"
  by (cases "fl_phase fl")
    (auto simp: resume_def Let_def served_def split: prod.splits sum.splits option.splits if_splits)

text \<open>The components a step can change are changed by these operations only, so an invariant that the
  operations keep is kept by every step.\<close>

definition offered :: "corpora \<Rightarrow> jsstring \<Rightarrow> bool" where
  "offered cs r \<longleftrightarrow> r = [] \<or> \<not> corporaLoading cs \<and> r \<in> set (map co_value (corporaOptions cs))"

definition page_action :: "page_event \<Rightarrow> corpora \<Rightarrow> Action \<Rightarrow> bool" where
  "page_action e cs a = (case a of
     FORM_FIELD_CHANGED RagIdField v \<Rightarrow> offered cs v
   | FORM_FIELD_CHANGED TitleField t \<Rightarrow> length t \<le> 200
   | AUTH_RESOLVED who \<Rightarrow> e = IdentityResolved who
   | CREATE_REQUESTED \<Rightarrow> False | MEETING_STARTED _ \<Rightarrow> False | END_REQUESTED \<Rightarrow> False | MEETING_ENDED \<Rightarrow> False
   | ERROR_RAISED _ \<Rightarrow> False
   | _ \<Rightarrow> True)"

lemma stream_actions: "list_all (page_action e cs) (onEvent now ev)"
  by (cases ev) (simp_all add: page_action_def)

text \<open>The controls of the form and the panels, the stream and the identity only dispatch actions.\<close>

definition dispatches :: "page_event \<Rightarrow> bool" where
  "dispatches e = (case e of
     CorpusPicked _ \<Rightarrow> True | TitleTyped _ \<Rightarrow> True | PanelToggled _ \<Rightarrow> True | ErrorDismissed \<Rightarrow> True
   | LabelPicked _ _ \<Rightarrow> True | StreamDelivered _ _ \<Rightarrow> True | IdentityResolved _ \<Rightarrow> True | _ \<Rightarrow> False)"

lemma dispatching_step:
  assumes "dispatches e"
  shows "\<exists>as. page_step e pg = run act as pg \<and> list_all (page_action e (pg_corpora pg)) as"
proof -
  have one: ?thesis if "page_step e pg = pg \<or> page_step e pg = act a pg \<and> page_action e (pg_corpora pg) a" for a
    using that by (intro exI [of _ "if page_step e pg = pg then [] else [a]"]) auto
  show ?thesis
  proof (cases e)
    case (CorpusPicked v)
    then show ?thesis
      by (intro one [of "FORM_FIELD_CHANGED RagIdField v"]) (simp add: page_action_def offered_def split: HostState.split)
  next
    case (TitleTyped t)
    then show ?thesis
      by (intro one [of "FORM_FIELD_CHANGED TitleField t"]) (simp add: page_action_def split: HostState.split)
  next
    case (PanelToggled b)
    then show ?thesis
      by (intro one [of "TRANSCRIPT_PANEL_TOGGLED b"]) (simp add: page_action_def split: HostState.split)
  next
    case ErrorDismissed
    then show ?thesis by (intro one [of ERROR_CLEARED]) (simp add: page_action_def split: HostState.split)
  next
    case (LabelPicked original curated)
    then show ?thesis
      by (intro one [of "SPEAKER_LABEL_ASSIGNED original curated"])
        (simp add: page_action_def split: option.split transcript_panel.split)
  next
    case (StreamDelivered now ev)
    then show ?thesis by (intro exI [of _ "onEvent now ev"]) (simp add: stream_actions)
  next
    case (IdentityResolved who)
    then show ?thesis by (intro one [of "AUTH_RESOLVED who"]) (simp add: page_action_def)
  qed (use assms in \<open>simp_all add: dispatches_def\<close>)
qed

text \<open>The controls of the export reach its dialog only, and what is exported is the meeting on screen.\<close>

definition exporting :: "page_event \<Rightarrow> bool" where
  "exporting e = (case e of
     ExportOpened \<Rightarrow> True | ExportFormat _ \<Rightarrow> True | ExportAccepted _ _ _ _ \<Rightarrow> True | ExportDeclined \<Rightarrow> True
   | ExportClose _ \<Rightarrow> True | BlobsRevoked \<Rightarrow> True | _ \<Rightarrow> False)"

definition exports_meeting :: "HostState \<Rightarrow> export_event modal_event \<Rightarrow> bool" where
  "exports_meeting s x = (case x of
     Client RevokesRun \<Rightarrow> True
   | Client (ExportConfirmed _ _ _ _ _ m) \<Rightarrow> meeting_of s = Some m
   | _ \<Rightarrow> meeting_of s \<noteq> None)"

lemma exporting_step:
  assumes "exporting e"
  shows "page_step e pg = pg
    \<or> (\<exists>x. exports_meeting (pg_state pg) x \<and> page_step e pg = pg\<lparr>pg_export := export_dialog_step x (pg_export pg)\<rparr>)"
proof -
  have one: ?thesis if "page_step e pg = pg
      \<or> exports_meeting (pg_state pg) x \<and> page_step e pg = pg\<lparr>pg_export := export_dialog_step x (pg_export pg)\<rparr>" for x
    using that by blast
  show ?thesis
  proof (cases e)
    case ExportOpened
    then show ?thesis by (intro one [of "Client ExportClicked"]) (simp add: exports_meeting_def split: HostState.split)
  next
    case (ExportFormat fmt)
    then show ?thesis by (intro one [of "Client (FormatPicked fmt)"]) (simp add: exports_meeting_def)
  next
    case (ExportAccepted sp faults now ov)
    then show ?thesis
      by (intro one [of "Client (ExportConfirmed sp faults now ov (pg_state pg) (the (meeting_of (pg_state pg))))"])
        (simp add: exports_meeting_def split: option.split)
  next
    case ExportDeclined
    then show ?thesis by (intro one [of DeclineButton]) (simp add: exports_meeting_def)
  next
    case (ExportClose c)
    then show ?thesis by (intro one [of "CloseRequest c"]) (simp add: exports_meeting_def)
  next
    case BlobsRevoked
    then show ?thesis by (intro one [of "Client RevokesRun"]) (simp add: exports_meeting_def)
  qed (use assms in \<open>simp_all add: exporting_def\<close>)
qed

lemma page_step_cases:
  obtains
    (acts) as where "page_step e pg = run act as pg" "list_all (page_action e (pg_corpora pg)) as"
  | (submits) pl checked f where "pg_state pg = Ready f" "\<not> inert pg" "page_step e pg = submit pl checked f pg"
  | (flies) i env fl where "e = FlightResumed i env" "entry_at (pg_flights pg) i = Some fl" "page_step e pg = fly_on i env fl pg"
  | (begins) faults p m where "e = EndClicked faults" "pg_state pg = ActiveHost p m" "page_step e pg
      = with_rt (end_begin faults m (pg_rt pg)) (pg\<lparr>pg_endings := pg_endings pg @ [Some m]\<rparr>)"
  | (ends) i faults m where "e = EndSettled i faults" "entry_at (pg_endings pg) i = Some m" "page_step e pg
      = with_rt (end_finish faults m (pg_rt pg)) (pg\<lparr>pg_endings := (pg_endings pg)[i := None]\<rparr>)"
  | (corpora) c where "page_step e pg = pg\<lparr>pg_corpora := corpora_step c (pg_corpora pg)\<rparr>"
  | (gate) g u where "shows_user (pg_state pg) = Some u" "\<forall>v. g \<noteq> Client (UserChanged v)"
      "\<forall>c. g = CloseRequest c \<longrightarrow> e = GateClose c"
      "page_step e pg = pg\<lparr>pg_gate := audio_dialog_step g (pg_gate pg)\<rparr>"
  | (exports) x where "exports_meeting (pg_state pg) x"
      "page_step e pg = pg\<lparr>pg_export := export_dialog_step x (pg_export pg)\<rparr>"
proof -
  have stay: thesis if "page_step e pg = pg" using that by (intro acts [of "[]"]) simp_all
  consider "dispatches e" | "exporting e" | "\<not> dispatches e" "\<not> exporting e" by blast
  then show thesis
  proof cases
    case 1
    then show ?thesis using dispatching_step acts by blast
  next
    case 2
    then show ?thesis using exporting_step [of e pg] stay exports by blast
  next
    case 3
    then show ?thesis
    proof (cases e)
      case (FormSubmitted pl checked)
      then show ?thesis using stay submits by (cases "pg_state pg"; cases "inert pg") simp_all
    next
      case (FlightResumed i env)
      then show ?thesis using stay flies by (cases "entry_at (pg_flights pg) i") simp_all
    next
      case (EndClicked faults)
      then show ?thesis using stay begins by (cases "pg_state pg"; cases "inert pg") simp_all
    next
      case (EndSettled i faults)
      then show ?thesis using stay ends by (cases "entry_at (pg_endings pg) i") simp_all
    next
      case (GateAccepted sp)
      then show ?thesis
        using stay gate [of _ "Client (AcceptClicked sp)"] by (cases "shows_user (pg_state pg)") simp_all
    next
      case (GateClose c)
      then show ?thesis
        using stay gate [of _ "CloseRequest c"] by (cases "shows_user (pg_state pg)") simp_all
    qed (use corpora in \<open>simp_all add: dispatches_def exporting_def\<close>)
  qed
qed

lemma run_act: "P pg \<Longrightarrow> (\<And>a pg. P pg \<Longrightarrow> P (act a pg)) \<Longrightarrow> P (run act as pg)"
  by (induction as arbitrary: pg) auto

subsection \<open>Consent before capture\<close>

definition gate_sync :: "jsstring option \<Rightarrow> gate \<times> dialog \<Rightarrow> bool" where
  "gate_sync user gd \<longleftrightarrow> gate_ok (fst gd)
     \<and> (case user of None \<Rightarrow> \<not> dg_shown (snd gd) | Some u \<Rightarrow> in_sync audio_props gd \<and> gate_user (fst gd) = u)"

abbreviation gate_inv :: "page \<Rightarrow> bool" where
  "gate_inv pg \<equiv> gate_sync (shows_user (pg_state pg)) (pg_gate pg)"

lemma audio_client: "fst (audio_dialog_step (Client e) gd) \<in> {fst gd, gate_step e (fst gd)}"
  by (simp add: audio_dialog_step_def client_moves_def Let_def)

lemma gate_user_accept [simp]: "gate_user (gate_step (AcceptClicked sp) g) = gate_user g"
  by (auto split: sum.splits)

lemma settle_gate_sync: "gate_sync before gd \<Longrightarrow> gate_sync after (settle_gate before after gd)"
proof (cases after)
  case None
  then show "gate_sync before gd \<Longrightarrow> gate_sync after (settle_gate before after gd)"
    by (simp add: gate_sync_def settle_gate_def hidden_def)
next
  case (Some user)
  assume gd: "gate_sync before gd"
  show "gate_sync after (settle_gate before after gd)"
  proof (cases before)
    case None
    with Some show ?thesis
      by (simp add: gate_sync_def settle_gate_def Let_def audio_dialog.mount_sync gate_ok_def mount_gate_def)
  next
    case (Some old)
    have "in_sync audio_props (audio_dialog_step (Client (UserChanged user)) gd)"
      unfolding audio_dialog_step_def using gd Some
      by (intro audio_dialog.step_sync_pair) (simp_all add: gate_sync_def honoured_def)
    moreover have "gate_ok (gate_step (UserChanged user) (fst gd))"
      using gd by (intro consent_gate.step_inv) (simp add: gate_sync_def)
    ultimately show ?thesis using Some \<open>after = Some user\<close>
      by (simp add: gate_sync_def settle_gate_def audio_dialog_step_def client_moves_def Let_def)
  qed
qed

lemma with_rt_gate: "gate_inv pg \<Longrightarrow> gate_sync (shows_user (rt_state rt)) (pg_gate (with_rt rt pg))"
  by (simp add: with_rt_def settle_gate_sync)

lemma act_gate: "gate_inv pg \<Longrightarrow> gate_sync (shows_user (dispatch a (pg_state pg))) (pg_gate (act a pg))"
  using with_rt_gate [of pg "dispatch_rt a (pg_rt pg)"] by (simp add: act_def)

lemma submit_gate: "gate_inv pg \<Longrightarrow> gate_inv (submit pl checked f pg)"
  unfolding submit_def Let_def act_frame dispatch_rt_frame by (rule act_gate) simp

lemma dialog_gate:
  assumes "gate_sync (Some u) gd" and "honoured e" and "\<forall>v. e \<noteq> Client (UserChanged v)"
  shows "gate_sync (Some u) (audio_dialog_step e gd)"
proof -
  have sync: "in_sync audio_props (audio_dialog_step e gd)"
    unfolding audio_dialog_step_def using assms
    by (intro audio_dialog.step_sync_pair) (simp_all add: gate_sync_def)
  have "gate_ok (fst (audio_dialog_step e gd)) \<and> gate_user (fst (audio_dialog_step e gd)) = u"
  proof (cases e)
    case (Client x)
    with assms(3) obtain sp where x: "x = AcceptClicked sp" by (cases x) auto
    have "gate_ok (gate_step x (fst gd))"
      using assms(1) by (intro consent_gate.step_inv) (simp add: gate_sync_def)
    with audio_client [of x gd] assms(1) Client x show ?thesis
      by (auto simp: gate_sync_def simp del: gate_step.simps)
  qed (use assms in \<open>auto simp: audio_dialog_step_def gate_sync_def decline_button_def declines_def
      close_request_def Let_def split: prod.split\<close>)
  with sync show ?thesis by (simp add: gate_sync_def)
qed

definition honours :: "page_event \<Rightarrow> page \<Rightarrow> bool" where
  "honours e pg = (case e of GateClose cancelable \<Rightarrow> cancelable | _ \<Rightarrow> True)"

lemma step_gate:
  assumes "gate_inv pg" and "honours e pg"
  shows "gate_inv (page_step e pg)"
proof (cases e pg rule: page_step_cases)
  case (acts as)
  with run_act [of gate_inv, OF assms(1)] show ?thesis by (simp add: act_gate)
next
  case (flies i env fl)
  obtain r fl' rt where res: "resume env fl (pg_rt pg) = (r, fl', rt)" by (cases "resume env fl (pg_rt pg)") auto
  with flies(3) assms(1) show ?thesis
    by (cases r) (simp_all add: fly_on_def resume_state [OF res] with_rt_gate)
next
  case (submits pl checked f)
  with assms(1) submit_gate show ?thesis by (simp del: reducer.simps)
next
  case (gate g u)
  then have "honoured g" using assms(2) by (cases g) (auto simp: honoured_def honours_def)
  with gate assms(1) dialog_gate show ?thesis by simp
qed (use assms(1) in \<open>simp_all add: with_rt_gate act_gate submit_def Let_def\<close>)

interpretation page_gate: page_invariant honours gate_inv
proof unfold_locales
  fix st
  show "gate_inv (mount_page st)"
    by (simp add: mount_page_def a_runtime_def gate_sync_def hidden_def gate_ok_def mount_gate_def)
qed (rule step_gate)

text \<open>C6. No capture without consent: on a platform that lets the consent dialog prevent its closing,
  whatever the host and the rest of the world do, a form is submitted only in the name of a user who
  has a stored consent of the current policy version or has accepted on this page.\<close>

theorem page_consent:
  assumes "reached honours pg" and "pg_submissions (page_step e pg) \<noteq> pg_submissions pg"
  shows "\<exists>f. pg_state pg = Ready f
    \<and> (hasAudioProcessingConsent (gate_storage (fst (pg_gate pg))) (userId (rf_principal f)) CURRENT_POLICY_VERSION
       \<or> (\<exists>a. AudioConsent a \<in> set (gate_log (fst (pg_gate pg))) \<and> ac_userId a = userId (rf_principal f)))"
  using assms(2)
proof (cases e pg rule: page_step_cases)
  case (submits pl checked f)
  from page_gate.reached_inv [OF assms(1)] submits(1) have "gate_ok (fst (pg_gate pg))" "in_sync audio_props (pg_gate pg)"
    "gate_user (fst (pg_gate pg)) = userId (rf_principal f)" by (simp_all add: gate_sync_def)
  moreover from submits(2) have "\<not> dg_shown (snd (pg_gate pg))" by (simp add: inert_def)
  ultimately have "\<not> gate_needed (fst (pg_gate pg))" by (simp add: in_sync_def audio_props_def)
  with \<open>gate_ok _\<close> \<open>gate_user _ = _\<close> submits(1) show ?thesis by (auto simp: gate_ok_def)
next
  case (acts as)
  have "pg_submissions (run act as pg) = pg_submissions pg" by (rule run_frame) simp
  with acts(1) assms(2) show ?thesis by simp
next
  case (flies i env fl)
  with assms(2) show ?thesis by (simp add: fly_on_def split: prod.splits option.splits)
qed (use assms(2) in simp_all)

theorem page_consent_witness:
  "\<exists>a. AudioConsent a \<in> set (gate_log (fst (pg_gate (run page_step (take 3 a_submission) (mount_page a_storage)))))
     \<and> ac_userId a = userId LOCAL_PRINCIPAL"
proof -
  let ?pg = "run page_step (take 3 a_submission) (mount_page a_storage)"
  have reach: "reached honours ?pg"
    by (rule reached_run [OF reached.mounted]) (simp add: a_submission_def honours_def)
  have "\<exists>f. pg_state ?pg = Ready f \<and> rf_principal f = LOCAL_PRINCIPAL"
    and "pg_submissions (page_step (FormSubmitted a_platform None) ?pg) \<noteq> pg_submissions ?pg"
    and "\<not> hasAudioProcessingConsent (gate_storage (fst (pg_gate ?pg))) (userId LOCAL_PRINCIPAL) CURRENT_POLICY_VERSION"
    by (simp_all add: page_eval numeral_eq_Suc)
  with page_consent [OF reach] show ?thesis by fastforce
qed

subsection \<open>Requests to the gateway\<close>

fun created_ids :: "server_event list \<Rightarrow> jsstring list" where
  "created_ids [] = []"
| "created_ids (SessionCreated _ s # es) = cmr_sessionId s # created_ids es"
| "created_ids (_ # es) = created_ids es"

definition names_known :: "jsstring set \<Rightarrow> server_event \<Rightarrow> bool" where
  "names_known known e = (case e of
     SessionCreated _ _ \<Rightarrow> True
   | SessionNegotiated r \<Rightarrow> nwq_sessionId r \<in> known
   | SessionEnded r \<Rightarrow> emq_sessionId r \<in> known)"

fun sessions_ok :: "jsstring set \<Rightarrow> server_event list \<Rightarrow> bool" where
  "sessions_ok known [] = True"
| "sessions_ok known (e # es) = (names_known known e \<and> sessions_ok (known \<union> set (created_ids [e])) es)"

lemma created_ids_append [simp]: "created_ids (es @ fs) = created_ids es @ created_ids fs"
  by (induction es rule: created_ids.induct) simp_all

lemma sessions_ok_snoc:
  "sessions_ok known (es @ [e]) \<longleftrightarrow> sessions_ok known es \<and> names_known (known \<union> set (created_ids es)) e"
proof (induction es arbitrary: known)
  case (Cons x es)
  then show ?case by (cases x) simp_all
qed simp

fun phase_session :: "phase \<Rightarrow> jsstring option" where
  "phase_session AwaitCapture = None"
| "phase_session (AwaitCreate _) = None"
| "phase_session (AwaitOffer _ s _) = Some (cmr_sessionId s)"
| "phase_session (AwaitIce _ s _) = Some (cmr_sessionId s)"
| "phase_session (AwaitNegotiate _ s _ _) = Some (cmr_sessionId s)"
| "phase_session (AwaitRemote _ s _) = Some (cmr_sessionId s)"

definition form_ok :: "corpora \<Rightarrow> HostState \<Rightarrow> bool" where
  "form_ok cs s = (case s of Ready f \<Rightarrow> offered cs (rf_ragId f) \<and> length (rf_title f) \<le> 200 | _ \<Rightarrow> True)"

definition submission_ok :: "corpora \<Rightarrow> submission \<Rightarrow> bool" where
  "submission_ok cs b \<longleftrightarrow> offered cs (sb_ragId b) \<and> length (sb_title b) \<le> 200 \<and> trim (sb_title b) = sb_title b"

definition flight_ok :: "submission list \<Rightarrow> jsstring set \<Rightarrow> flight \<Rightarrow> bool" where
  "flight_ok subs known fl \<longleftrightarrow> (\<exists>b \<in> set subs. sb_ragId b = fl_ragId fl \<and> sb_title b = fl_title fl)
     \<and> pred_option (\<lambda>s. s \<in> known) (phase_session (fl_phase fl))"

definition created_ok :: "submission list \<Rightarrow> server_event \<Rightarrow> bool" where
  "created_ok subs e = (case e of
     SessionCreated req _ \<Rightarrow> \<exists>b \<in> set subs. req = create_request (sb_ragId b) (sb_title b) | _ \<Rightarrow> True)"

definition server_ok :: "submission list \<Rightarrow> server_event list \<Rightarrow> bool" where
  "server_ok subs evs \<longleftrightarrow> list_all (created_ok subs) evs \<and> sessions_ok {} evs"

definition sessions_known :: "jsstring set \<Rightarrow> ActiveMeeting option set \<Rightarrow> bool" where
  "sessions_known known ms \<longleftrightarrow> (\<forall>m. Some m \<in> ms \<longrightarrow> sessionId m \<in> known)"

definition requests_ok :: "page \<Rightarrow> bool" where
  "requests_ok pg \<longleftrightarrow>
     (let subs = pg_submissions pg; known = set (created_ids (rt_server (pg_rt pg))) in
        list_all (submission_ok (pg_corpora pg)) subs
      \<and> form_ok (pg_corpora pg) (pg_state pg)
      \<and> (\<forall>fl. Some fl \<in> set (pg_flights pg) \<longrightarrow> flight_ok subs known fl)
      \<and> server_ok subs (rt_server (pg_rt pg))
      \<and> sessions_known known (insert (meeting_of (pg_state pg)) (set (pg_endings pg))))"

lemma dispatch_form:
  assumes "form_ok cs s"
    and "case a of FORM_FIELD_CHANGED RagIdField v \<Rightarrow> offered cs v
           | FORM_FIELD_CHANGED TitleField t \<Rightarrow> length t \<le> 200 | _ \<Rightarrow> True"
  shows "form_ok cs (dispatch a s)"
  using assms
  by (cases a; cases s)
    (auto simp: form_ok_def fresh_form_def offered_def DEFAULT_RAG_ID_def Let_def split: option.splits form_field.splits if_splits)

lemma dispatch_session:
  assumes "sessions_known known (insert (meeting_of s) ms)" and "\<And>m. a = MEETING_STARTED m \<Longrightarrow> sessionId m \<in> known"
  shows "sessions_known known (insert (meeting_of (dispatch a s)) ms)"
  unfolding sessions_known_def
proof (intro allI impI)
  fix m'
  assume "Some m' \<in> insert (meeting_of (dispatch a s)) ms"
  then consider "Some m' \<in> ms" | "meeting_of (dispatch a s) = Some m'" by auto
  then show "sessionId m' \<in> known"
  proof cases
    case 2
    have "sessionId (StartedMeeting.truncate m') = sessionId m'" by (simp add: StartedMeeting.defs)
    with meeting_step [OF 2] assms show ?thesis
      by (auto simp: sessions_known_def) (metis StartedMeeting.select_convs(1) StartedMeeting.truncate_def)
  qed (use assms(1) in \<open>auto simp: sessions_known_def\<close>)
qed

lemma act_requests:
  assumes "requests_ok pg" and "page_action e (pg_corpora pg) a"
  shows "requests_ok (act a pg)"
proof -
  from assms have "form_ok (pg_corpora pg) (dispatch a (pg_state pg))"
    by (intro dispatch_form) (auto simp: requests_ok_def Let_def page_action_def split: Action.splits form_field.splits)
  moreover from assms have "sessions_known (set (created_ids (rt_server (pg_rt pg))))
      (insert (meeting_of (dispatch a (pg_state pg))) (set (pg_endings pg)))"
    by (intro dispatch_session) (auto simp: requests_ok_def Let_def page_action_def)
  ultimately show ?thesis using assms(1) by (simp add: requests_ok_def Let_def del: reducer.simps)
qed

lemma run_act_requests:
  "requests_ok pg \<Longrightarrow> list_all (page_action e (pg_corpora pg)) as \<Longrightarrow> requests_ok (run act as pg)"
proof (induction as arbitrary: pg)
  case (Cons a as)
  then have "requests_ok (act a pg)" by (intro act_requests [of pg e a]) simp_all
  with Cons show ?case by simp
qed simp

lemma corpora_offered: "offered cs r \<Longrightarrow> offered (corpora_step c cs) r"
  by (cases c) (auto simp: offered_def split: sum.splits)

lemma corpora_requests: "requests_ok pg \<Longrightarrow> requests_ok (pg\<lparr>pg_corpora := corpora_step c (pg_corpora pg)\<rparr>)"
  by (auto simp: requests_ok_def Let_def submission_ok_def form_ok_def list_all_iff corpora_offered split: HostState.splits)

lemma submit_requests:
  assumes "requests_ok pg" and "pg_state pg = Ready f"
  shows "requests_ok (submit pl checked f pg)"
proof -
  have "length (trim (rf_title f)) \<le> 200"
    using assms length_trim [of "rf_title f"] by (simp add: requests_ok_def Let_def form_ok_def)
  with assms show ?thesis
    by (auto simp: requests_ok_def Let_def submit_def form_ok_def submission_ok_def flight_ok_def launch_def
        server_ok_def created_ok_def list_all_iff sessions_known_def split: server_event.splits)
qed

text \<open>What a resumption adds to the gateway's history, and what the flight then knows.\<close>

lemma resume_server:
  assumes "resume env fl rt = (r, fl', rt')"
  shows "fl_ragId fl' = fl_ragId fl \<and> fl_title fl' = fl_title fl
    \<and> (rt_server rt' = rt_server rt \<and> (phase_session (fl_phase fl') = phase_session (fl_phase fl))
      \<or> (\<exists>s. rt_server rt' = rt_server rt @ [SessionCreated (create_request (fl_ragId fl) (fl_title fl)) s]
          \<and> phase_session (fl_phase fl') \<in> {phase_session (fl_phase fl), Some (cmr_sessionId s)})
      \<or> (\<exists>q. rt_server rt' = rt_server rt @ [SessionNegotiated q] \<and> phase_session (fl_phase fl) = Some (nwq_sessionId q)
          \<and> phase_session (fl_phase fl') = phase_session (fl_phase fl)))
    \<and> (\<forall>m. r = Some (Started m) \<longrightarrow> phase_session (fl_phase fl) = Some (sessionId m))"
  using assms
  by (cases "fl_phase fl")
    (auto simp: resume_def Let_def served_def negotiate_request_def split: prod.splits sum.splits option.splits if_splits)

lemma resume_requests:
  assumes "resume env fl rt = (r, fl', rt')" and "server_ok subs (rt_server rt)"
    and "flight_ok subs (set (created_ids (rt_server rt))) fl"
  shows "server_ok subs (rt_server rt')" "flight_ok subs (set (created_ids (rt_server rt'))) fl'"
    "set (created_ids (rt_server rt)) \<subseteq> set (created_ids (rt_server rt'))"
    "r = Some (Started m) \<Longrightarrow> sessionId m \<in> set (created_ids (rt_server rt'))"
proof -
  have "\<exists>b \<in> set subs. create_request (fl_ragId fl) (fl_title fl) = create_request (sb_ragId b) (sb_title b)"
    using assms(3) unfolding flight_ok_def by metis
  with resume_server [OF assms(1)] assms(2,3)
  show "server_ok subs (rt_server rt')" "flight_ok subs (set (created_ids (rt_server rt'))) fl'"
    "set (created_ids (rt_server rt)) \<subseteq> set (created_ids (rt_server rt'))"
    "r = Some (Started m) \<Longrightarrow> sessionId m \<in> set (created_ids (rt_server rt'))"
    by (auto simp: server_ok_def created_ok_def sessions_ok_snoc names_known_def flight_ok_def option.pred_set)
qed

lemma known_mono:
  "flight_ok subs known fl \<Longrightarrow> known \<subseteq> known' \<Longrightarrow> flight_ok subs known' fl"
  "sessions_known known ms \<Longrightarrow> known \<subseteq> known' \<Longrightarrow> sessions_known known' ms"
  by (auto simp: flight_ok_def sessions_known_def option.pred_set)

lemma land_frame [simp]:
  "rt_server (land r got rt) = rt_server rt"
  by (simp add: land_def split: outcome.split)

lemma land_state:
  "rt_state (land r got rt) = (case r of Started m \<Rightarrow> dispatch (MEETING_STARTED m) (rt_state rt)
     | Threw e \<Rightarrow> dispatch (ERROR_RAISED (error_message e)) (rt_state rt) | Waiting \<Rightarrow> rt_state rt)"
  by (simp add: land_def split: outcome.split)

lemma land_requests:
  assumes "form_ok cs (rt_state rt)" and "sessions_known known (insert (meeting_of (rt_state rt)) ms)"
    and "\<And>m. r = Started m \<Longrightarrow> sessionId m \<in> known"
  shows "form_ok cs (rt_state (land r got rt))" "sessions_known known (insert (meeting_of (rt_state (land r got rt))) ms)"
proof -
  show "form_ok cs (rt_state (land r got rt))"
    unfolding land_state using assms(1) by (cases r; cases "rt_state rt") (simp_all add: form_ok_def)
  show "sessions_known known (insert (meeting_of (rt_state (land r got rt))) ms)"
  proof (cases r)
    case (Started m)
    with dispatch_session [OF assms(2), of "MEETING_STARTED m"] assms(3) show ?thesis
      by (simp add: land_state del: reducer.simps)
  next
    case (Threw e)
    with dispatch_session [OF assms(2), of "ERROR_RAISED (error_message e)"] show ?thesis
      by (simp add: land_state del: reducer.simps)
  qed (use assms(2) in \<open>simp add: land_state\<close>)
qed

lemma entry_at_set: "entry_at xs i = Some x \<Longrightarrow> Some x \<in> set xs"
  by (metis entry_at_def nth_mem option.distinct(1))

lemma fly_requests:
  assumes ok: "requests_ok pg" and "entry_at (pg_flights pg) i = Some fl"
  shows "requests_ok (fly_on i env fl pg)"
proof -
  obtain r fl' rt where res: "resume env fl (pg_rt pg) = (r, fl', rt)" by (cases "resume env fl (pg_rt pg)") auto
  have fl: "Some fl \<in> set (pg_flights pg)" using assms(2) by (rule entry_at_set)
  let ?subs = "pg_submissions pg" and ?known = "set (created_ids (rt_server rt))"
  from ok fl have pre: "server_ok ?subs (rt_server (pg_rt pg))"
    "flight_ok ?subs (set (created_ids (rt_server (pg_rt pg)))) fl"
    by (simp_all add: requests_ok_def Let_def)
  note post = resume_requests [OF res pre]
  have flights: "flight_ok ?subs ?known x" if "Some x \<in> set ((pg_flights pg)[i := q])" "q = None \<or> q = Some fl'" for x q
    using that ok post(2) known_mono(1) [OF _ post(3)] set_update_subset_insert [of "pg_flights pg" i q]
    by (auto simp: requests_ok_def Let_def)
  have known: "sessions_known ?known (insert (meeting_of (rt_state rt)) (set (pg_endings pg)))"
    using ok known_mono(2) [OF _ post(3)] by (simp add: requests_ok_def Let_def resume_state [OF res])
  have form: "form_ok (pg_corpora pg) (rt_state rt)"
    using ok by (simp add: requests_ok_def Let_def resume_state [OF res])
  show ?thesis
  proof (cases r)
    case None
    with ok res post(1) flights known form show ?thesis
      by (simp add: fly_on_def requests_ok_def Let_def)
  next
    case (Some x)
    have "form_ok (pg_corpora pg) (rt_state (land x (fl_got fl') rt))"
      "sessions_known ?known (insert (meeting_of (rt_state (land x (fl_got fl') rt))) (set (pg_endings pg)))"
      using land_requests [OF form known, of x "fl_got fl'"] post(4) Some by blast+
    with Some ok res post(1) flights show ?thesis
      by (simp add: fly_on_def requests_ok_def Let_def)
  qed
qed

lemma end_begin_frame [simp]:
  "rt_server (end_begin faults m rt) = rt_server rt" "rt_state (end_begin faults m rt) = dispatch END_REQUESTED (rt_state rt)"
  by (simp_all add: end_begin_def attempt_step_def Let_def unsubscribe_rt_def close_peer_def)

lemma end_finish_frame [simp]:
  "rt_server (end_finish faults m rt) = rt_server rt @ (if fault_rpc faults then [] else [SessionEnded (end_request m)])"
  "rt_state (end_finish faults m rt) = dispatch MEETING_ENDED (rt_state rt)"
  by (simp_all add: end_finish_def attempt_step_def Let_def stop_capture_def served_def)

lemma begin_requests:
  assumes ok: "requests_ok pg" and "pg_state pg = ActiveHost p m"
  shows "requests_ok (with_rt (end_begin faults m (pg_rt pg)) (pg\<lparr>pg_endings := pg_endings pg @ [Some m]\<rparr>))"
  using assms by (simp add: requests_ok_def Let_def form_ok_def sessions_known_def)

lemma end_requests:
  assumes ok: "requests_ok pg" and "entry_at (pg_endings pg) i = Some m"
  shows "requests_ok (with_rt (end_finish faults m (pg_rt pg)) (pg\<lparr>pg_endings := (pg_endings pg)[i := None]\<rparr>))"
proof -
  let ?known = "set (created_ids (rt_server (pg_rt pg)))"
  have form: "form_ok (pg_corpora pg) (dispatch MEETING_ENDED (pg_state pg))"
    using ok by (intro dispatch_form) (simp_all add: requests_ok_def Let_def)
  have "sessions_known ?known (insert (meeting_of (dispatch MEETING_ENDED (pg_state pg))) (set (pg_endings pg)))"
    using ok by (intro dispatch_session) (simp_all add: requests_ok_def Let_def)
  then have known: "sessions_known ?known (insert (meeting_of (dispatch MEETING_ENDED (pg_state pg)))
      (set ((pg_endings pg)[i := None])))"
    using set_update_subset_insert [of "pg_endings pg" i None] by (auto simp: sessions_known_def)
  have "sessionId m \<in> ?known"
    using ok entry_at_set [OF assms(2)] by (auto simp: requests_ok_def Let_def sessions_known_def)
  with form known ok show ?thesis
    by (simp add: requests_ok_def Let_def server_ok_def sessions_ok_snoc names_known_def end_request_def created_ok_def
        del: reducer.simps)
qed

lemma step_requests:
  assumes "requests_ok pg"
  shows "requests_ok (page_step e pg)"
proof (cases e pg rule: page_step_cases)
  case (acts as)
  with assms run_act_requests show ?thesis by simp
next
  case (gate g u)
  with assms show ?thesis by (simp add: requests_ok_def Let_def)
next
  case (exports x)
  with assms show ?thesis by (simp add: requests_ok_def Let_def)
qed (use assms in \<open>simp_all add: submit_requests fly_requests begin_requests end_requests corpora_requests\<close>)

interpretation page_server: page_invariant allowed requests_ok for allowed
proof unfold_locales
  fix st
  show "requests_ok (mount_page st)"
    by (simp add: mount_page_def a_runtime_def requests_ok_def Let_def form_ok_def server_ok_def sessions_known_def)
qed (rule step_requests)

text \<open>C5. The gateway only gets requests the page can answer for, on every history: each meeting it
  creates was submitted through the form, for no corpus or one the form offered, under a trimmed title
  of at most 200 units, without language hints or a list of accounts; and each negotiation and each end
  names a session that the gateway created for this page before.\<close>

theorem page_requests:
  assumes "reached allowed pg"
  shows "list_all (\<lambda>e. case e of
      SessionCreated req _ \<Rightarrow> (\<exists>b \<in> set (pg_submissions pg). req = create_request (sb_ragId b) (sb_title b)
        \<and> (sb_ragId b = [] \<or> sb_ragId b \<in> set (map co_value (corporaOptions (pg_corpora pg))))
        \<and> trim (sb_title b) = sb_title b \<and> length (sb_title b) \<le> 200)
    | _ \<Rightarrow> True) (rt_server (pg_rt pg))
   \<and> sessions_ok {} (rt_server (pg_rt pg))"
proof -
  have ok: "requests_ok pg" using assms by (rule page_server.reached_inv)
  let ?good = "\<lambda>b. (sb_ragId b = [] \<or> sb_ragId b \<in> set (map co_value (corporaOptions (pg_corpora pg))))
    \<and> trim (sb_title b) = sb_title b \<and> length (sb_title b) \<le> 200"
  have good: "?good b" if "b \<in> set (pg_submissions pg)" for b
    using ok that by (auto simp: requests_ok_def Let_def list_all_iff submission_ok_def offered_def)
  have "list_all (created_ok (pg_submissions pg)) (rt_server (pg_rt pg))" "sessions_ok {} (rt_server (pg_rt pg))"
    using ok by (simp_all add: requests_ok_def Let_def server_ok_def)
  moreover have "case e of SessionCreated req _ \<Rightarrow> (\<exists>b \<in> set (pg_submissions pg). req = create_request (sb_ragId b) (sb_title b)
      \<and> ?good b) | _ \<Rightarrow> True" if "created_ok (pg_submissions pg) e" for e
    using that good by (cases e) (auto simp: created_ok_def)
  ultimately show ?thesis by (simp add: list_all_iff)
qed

theorem page_requests_witness:
  "sessions_ok {} (rt_server (pg_rt (run page_step takeoff (mount_page a_storage))))
   \<and> rt_server (pg_rt (run page_step takeoff (mount_page a_storage))) \<noteq> []"
proof -
  let ?pg = "run page_step takeoff (mount_page a_storage)"
  have "reached (\<lambda>_ _. True) ?pg" by (intro reached_run reached.mounted) simp
  from page_requests [OF this] have "sessions_ok {} (rt_server (pg_rt ?pg))" by blast
  moreover have "rt_server (pg_rt ?pg) \<noteq> []" by (simp add: takeoff_def page_eval numeral_eq_Suc)
  ultimately show ?thesis by blast
qed

end
