(* ===== verification/Host_Page_Export.thy ===== *)
theory Host_Page_Export
  imports Host_Page_Safety
begin

section \<open>Exports on the host page\<close>

text \<open>
  The export flow inside the composed page: its dialog is mounted with the meeting screen and in step
  with the page's state, and what it exports are meetings that the gateway created for this page.
\<close>

subsection \<open>The dialog and the page\<close>

definition export_sync :: "bool \<Rightarrow> export_ui \<times> dialog \<Rightarrow> bool" where
  "export_sync mounted ed \<longleftrightarrow> export_ok (fst ed) \<and> dg_props (snd ed) = export_props (fst ed)
     \<and> dg_shown (snd ed) = (mounted \<and> exportModalOpen (fst ed))"

definition in_meeting :: "HostState \<Rightarrow> bool" where
  "in_meeting s \<longleftrightarrow> meeting_of s \<noteq> None"

abbreviation export_inv :: "page \<Rightarrow> bool" where
  "export_inv pg \<equiv> export_sync (in_meeting (pg_state pg)) (pg_export pg)"

lemma settle_export_sync: "export_sync before ed \<Longrightarrow> export_sync after (settle_export before after ed)"
  by (auto simp: export_sync_def settle_export_def hidden_def Let_def mount_dialog_def open_effect_def export_ok_def)

lemma with_rt_export: "export_inv pg \<Longrightarrow> export_sync (in_meeting (rt_state rt)) (pg_export (with_rt rt pg))"
  using settle_export_sync [of "in_meeting (pg_state pg)" "pg_export pg" "in_meeting (rt_state rt)"]
  by (simp add: with_rt_def in_meeting_def)

lemma act_export: "export_inv pg \<Longrightarrow> export_sync (in_meeting (dispatch a (pg_state pg))) (pg_export (act a pg))"
  using with_rt_export [of pg "dispatch_rt a (pg_rt pg)"] by (simp add: act_def)

text \<open>The export is unmounted or its dialog is in step with the page; either way the export's own
  invariant is kept.\<close>

lemma dialog_export_ok: "export_ok (fst ed) \<Longrightarrow> export_ok (fst (export_dialog_step x ed))"
  using export_dialog_moves [of x ed] export.run_inv by metis

lemma dialog_export:
  assumes "export_sync mounted ed" and "mounted \<or> x = Client RevokesRun"
  shows "export_sync mounted (export_dialog_step x ed)"
proof (cases mounted)
  case True
  with assms(1) have "in_sync export_props ed" by (simp add: export_sync_def in_sync_def)
  then have "in_sync export_props (export_dialog_step x ed)"
    unfolding export_dialog_step_def by (rule export_dialog.step_inv)
  with True assms(1) dialog_export_ok [of ed x] show ?thesis by (simp add: export_sync_def in_sync_def)
next
  case False
  with assms dialog_export_ok [of ed x] show ?thesis
    by (simp add: export_sync_def export_dialog_step_def client_moves_def Let_def render_dialog_def)
qed

lemma exports_mounted: "exports_meeting s x \<Longrightarrow> in_meeting s \<or> x = Client RevokesRun"
  by (cases x) (auto simp: exports_meeting_def in_meeting_def split: export_event.splits)

lemma submit_export: "export_inv pg \<Longrightarrow> export_inv (submit pl checked f pg)"
  unfolding submit_def Let_def act_frame dispatch_rt_frame by (rule act_export) simp

lemma step_export:
  assumes "export_inv pg"
  shows "export_inv (page_step e pg)"
proof (cases e pg rule: page_step_cases)
  case (acts as)
  with run_act [of export_inv, OF assms] show ?thesis by (simp add: act_export)
next
  case (submits pl checked f)
  with assms submit_export show ?thesis by (simp del: reducer.simps)
next
  case (flies i env fl)
  obtain r fl' rt where res: "resume env fl (pg_rt pg) = (r, fl', rt)" by (cases "resume env fl (pg_rt pg)") auto
  show ?thesis
  proof (cases r)
    case None
    with flies(3) res assms show ?thesis by (simp add: fly_on_def resume_state [OF res])
  next
    case (Some x)
    with flies(3) res assms with_rt_export [of "pg\<lparr>pg_flights := (pg_flights pg)[i := None]\<rparr>"] show ?thesis
      by (simp add: fly_on_def)
  qed
next
  case (begins faults p m)
  with assms with_rt_export [of "pg\<lparr>pg_endings := pg_endings pg @ [Some m]\<rparr>" "end_begin faults m (pg_rt pg)"]
  show ?thesis by simp
next
  case (ends i faults m)
  with assms with_rt_export [of "pg\<lparr>pg_endings := (pg_endings pg)[i := None]\<rparr>" "end_finish faults m (pg_rt pg)"]
  show ?thesis by (simp del: reducer.simps)
next
  case (exports x)
  with assms dialog_export [OF assms, of x] exports_mounted show ?thesis by simp
qed (use assms in simp_all)

interpretation page_export: page_invariant allowed export_inv for allowed
proof unfold_locales
  fix st
  show "export_inv (mount_page st)"
    by (simp add: mount_page_def a_runtime_def export_sync_def in_meeting_def mount_dialog_def open_effect_def export_ok_def fresh_export_def)
qed (rule step_export)

subsection \<open>Whose meetings are exported\<close>

text \<open>The sessions that the host's confirmations name.\<close>

fun audited :: "trace_event list \<Rightarrow> jsstring list" where
  "audited [] = []"
| "audited (Audited (ExportConsent r) # es) = tc_sessionId r # audited es"
| "audited (_ # es) = audited es"

lemma audited_append [simp]: "audited (es @ fs) = audited es @ audited fs"
  by (induction es rule: audited.induct) simp_all

abbreviation export_trace :: "export_ui \<times> dialog \<Rightarrow> trace_event list" where
  "export_trace ed \<equiv> br_trace (ui_browser (fst ed))"

lemma confirm_audited:
  "set (audited (br_trace (ui_browser (confirm_export sp faults now ov state m ui))))
     \<subseteq> insert (sessionId m) (set (audited (br_trace (ui_browser ui))))"
proof (cases "state_principal state")
  case (Some p)
  show ?thesis
  proof (cases "clientMetadata sp")
    case (Inr meta)
    let ?r = "\<lparr>tc_userId = userId p, tc_sessionId = sessionId m, tc_exportFormat = modal_format ui,
      tc_exportedAt = sp_now sp, tc_clientMetadata = meta\<rparr>"
    let ?ui = "ui\<lparr>ui_browser := (ui_browser ui)\<lparr>br_trace := br_trace (ui_browser ui) @ [Audited (ExportConsent ?r)]\<rparr>\<rparr>"
    have "confirm_export sp faults now ov state m ui = performExport faults now (modal_format ui) state ov m ?ui"
      using Some Inr by (simp add: confirm_export_def recordTranscriptExportConsent_def Let_def)
    with performExport_effect(1) [of faults now "modal_format ui" state ov m ?ui] show ?thesis by auto
  qed (use Some in \<open>auto simp: confirm_export_def recordTranscriptExportConsent_def\<close>)
qed (auto simp: confirm_export_def)

lemma export_step_audited:
  assumes "\<And>sp faults now ov st m. e = ExportConfirmed sp faults now ov st m \<Longrightarrow> sessionId m \<in> known"
    and "set (audited (br_trace (ui_browser ui))) \<subseteq> known"
  shows "set (audited (br_trace (ui_browser (export_step e ui)))) \<subseteq> known"
proof (cases e)
  case (ExportConfirmed sp faults now ov st m)
  with assms confirm_audited [of sp faults now ov st m ui] show ?thesis by (simp, blast)
qed (use assms(2) in \<open>simp_all add: run_revokes_def\<close>)

lemma dialog_audited:
  assumes "exports_meeting s x" and "\<And>m. meeting_of s = Some m \<Longrightarrow> sessionId m \<in> known"
    and "set (audited (export_trace ed)) \<subseteq> known"
  shows "set (audited (export_trace (export_dialog_step x ed))) \<subseteq> known"
proof -
  have step: "set (audited (br_trace (ui_browser (export_step e (fst ed))))) \<subseteq> known"
    if "x = Client e \<or> e = ExportCancelled" for e
    using assms that by (intro export_step_audited) (auto simp: exports_meeting_def)
  show ?thesis
  proof (cases x)
    case (Client e)
    with step [of e] assms(3) show ?thesis
      by (simp add: export_dialog_step_def client_moves_def Let_def del: export_step.simps)
  qed (use step [of ExportCancelled] assms(3) in
      \<open>simp_all add: export_dialog_step_def declines_def client_moves_def Let_def split: prod.split del: export_step.simps\<close>)
qed

text \<open>The gateway's history only grows, and no other step touches the trace.\<close>

lemma with_rt_trace [simp]: "export_trace (pg_export (with_rt rt pg)) = export_trace (pg_export pg)"
  by (simp add: with_rt_def settle_export_def Let_def)

lemma act_trace [simp]: "export_trace (pg_export (act a pg)) = export_trace (pg_export pg)"
  by (simp add: act_def)

lemma run_act_kept:
  "rt_server (pg_rt (run act as pg)) = rt_server (pg_rt pg)" "export_trace (pg_export (run act as pg)) = export_trace (pg_export pg)"
  by (rule run_frame, simp)+

lemma fly_kept:
  "set (created_ids (rt_server (pg_rt pg))) \<subseteq> set (created_ids (rt_server (pg_rt (fly_on i env fl pg))))"
  "export_trace (pg_export (fly_on i env fl pg)) = export_trace (pg_export pg)"
proof -
  obtain r fl' rt where res: "resume env fl (pg_rt pg) = (r, fl', rt)" by (cases "resume env fl (pg_rt pg)") auto
  have "set (created_ids (rt_server (pg_rt pg))) \<subseteq> set (created_ids (rt_server rt))"
    using resume_server [OF res] by auto
  with res show "set (created_ids (rt_server (pg_rt pg))) \<subseteq> set (created_ids (rt_server (pg_rt (fly_on i env fl pg))))"
    "export_trace (pg_export (fly_on i env fl pg)) = export_trace (pg_export pg)"
    by (cases r; simp add: fly_on_def)+
qed

definition exports_known :: "page \<Rightarrow> bool" where
  "exports_known pg \<longleftrightarrow> requests_ok pg
     \<and> set (audited (export_trace (pg_export pg))) \<subseteq> set (created_ids (rt_server (pg_rt pg)))"

lemma step_exports_known:
  assumes "exports_known pg"
  shows "exports_known (page_step e pg)"
proof -
  from assms have ok: "requests_ok (page_step e pg)"
    and known: "set (audited (export_trace (pg_export pg))) \<subseteq> set (created_ids (rt_server (pg_rt pg)))"
    by (simp_all add: exports_known_def step_requests)
  have "set (audited (export_trace (pg_export (page_step e pg)))) \<subseteq> set (created_ids (rt_server (pg_rt (page_step e pg))))"
  proof (cases e pg rule: page_step_cases)
    case (flies i env fl)
    with known fly_kept [where pg = pg and i = i and env = env and fl = fl] show ?thesis by simp
  next
    case (exports x)
    have "sessionId m \<in> set (created_ids (rt_server (pg_rt pg)))" if "meeting_of (pg_state pg) = Some m" for m
      using assms that by (auto simp: exports_known_def requests_ok_def Let_def sessions_known_def)
    from dialog_audited [OF exports(1) this known] exports(2) show ?thesis by simp
  qed (use known in \<open>auto simp: run_act_kept submit_def Let_def\<close>)
  with ok show ?thesis by (simp add: exports_known_def)
qed

interpretation page_audit: page_invariant allowed exports_known for allowed
proof unfold_locales
  fix st
  show "exports_known (mount_page st)"
    using page_server.mount_inv by (simp add: exports_known_def mount_page_def fresh_export_def)
qed (rule step_exports_known)

text \<open>C7. Exports on the page, whatever happens on it: the export dialog is on screen exactly when a
  meeting is on screen and the host has opened it; every download is directly preceded by the audit
  record that covers it; and every session that a confirmation names is one the gateway created for
  this page.\<close>

theorem page_exports:
  assumes "reached allowed pg"
  shows "dg_shown (snd (pg_export pg)) = (meeting_of (pg_state pg) \<noteq> None \<and> exportModalOpen (fst (pg_export pg)))
    \<and> consented (br_trace (ui_browser (fst (pg_export pg))))
    \<and> set (audited (br_trace (ui_browser (fst (pg_export pg))))) \<subseteq> set (created_ids (rt_server (pg_rt pg)))"
  using page_export.reached_inv [OF assms] page_audit.reached_inv [OF assms]
  by (simp add: export_sync_def in_meeting_def export_ok_def exports_known_def)

text \<open>A meeting with one line, exported.\<close>

definition an_export :: "page_event list" where
  "an_export = takeoff @ [StreamDelivered 0 (VTranscript \<lparr>te_sequence = 1, te_emittedAtMs = 0, te_segmentId = 1,
       te_speakerLabel = [], te_text = lit ''hi'', te_isFinal = True, te_isQuestion = False\<rparr>), ExportOpened, ExportAccepted a_stamp \<lparr>sf_blob = None, sf_dom = None\<rparr> [] []]"

theorem page_exports_witness:
  "audited (br_trace (ui_browser (fst (pg_export (run page_step an_export (mount_page a_storage)))))) = [lit ''s1'']
   \<and> lit ''s1'' \<in> set (created_ids (rt_server (pg_rt (run page_step an_export (mount_page a_storage)))))"
proof -
  let ?pg = "run page_step an_export (mount_page a_storage)"
  have "reached (\<lambda>_ _. True) ?pg" by (intro reached_run reached.mounted) simp
  from page_exports [OF this] have "set (audited (br_trace (ui_browser (fst (pg_export ?pg))))) \<subseteq> set (created_ids (rt_server (pg_rt ?pg)))"
    by blast
  moreover have "audited (br_trace (ui_browser (fst (pg_export ?pg)))) = [lit ''s1'']"
    by (simp add: an_export_def takeoff_def page_eval numeral_eq_Suc start_meeting_def export_dialog_step_def
        confirm_export_def recordTranscriptExportConsent_def performExport_def saveAs_def override_entries_def
        list.pred_True)
  ultimately show ?thesis by simp
qed

end
