(* ===== verification/Host_Page_Leak.thy ===== *)
theory Host_Page_Leak
  imports Host_Page_Safety
begin

section \<open>The host page releases what it acquires\<close>

text \<open>
  On histories where the identity does not change during a meeting, and the platform's clean-up calls
  and the mixing graph do not fail, the page is the owner of every open resource: device tracks, audio
  contexts, peer connections and subscriptions belong to the start in flight or to the meeting on
  screen, and without these nothing is open. The findings \<open>late_start_leaks\<close>, \<open>renewal_drops_meeting\<close>
  and \<open>graph_failure_leaks\<close> are what the conditions exclude.
\<close>

subsection \<open>Entries and open handles\<close>

definition entries :: "'a option list \<Rightarrow> 'a list" where
  "entries xs = List.map_filter (\<lambda>x. x) xs"

definition opens :: "bool list \<Rightarrow> nat set" where
  "opens xs = {i. i < length xs \<and> xs ! i}"

lemma entries_simps [simp]:
  "entries [] = []" "entries (None # xs) = entries xs" "entries (Some x # xs) = x # entries xs"
  "entries (xs @ ys) = entries xs @ entries ys"
  by (simp_all add: entries_def map_filter_def)

lemma entries_update:
  assumes "entry_at xs i = Some x"
  shows "\<exists>as bs. entries xs = as @ x # bs \<and> entries (xs[i := None]) = as @ bs \<and> (\<forall>y. entries (xs[i := Some y]) = as @ y # bs)"
proof -
  from assms have i: "i < length xs" and x: "xs ! i = Some x" by (auto simp: entry_at_def split: if_splits)
  have "entries xs = entries (take i xs) @ x # entries (drop (Suc i) xs)"
    using id_take_nth_drop [OF i] x by (metis entries_simps(3,4))
  moreover have "entries (xs[i := None]) = entries (take i xs) @ entries (drop (Suc i) xs)"
    "\<forall>y. entries (xs[i := Some y]) = entries (take i xs) @ y # entries (drop (Suc i) xs)"
    using i by (simp_all add: upd_conv_take_nth_drop)
  ultimately show ?thesis by blast
qed

lemma entries_single:
  assumes "entries xs = [x]" and "entry_at xs i = Some y"
  shows "y = x" "entries (xs[i := None]) = []" "entries (xs[i := Some z]) = [z]"
  using entries_update [OF assms(2)] assms(1) by (auto simp: Cons_eq_append_conv)

lemma entries_Nil: "entries xs = [] \<Longrightarrow> entry_at xs i = None"
  using entries_update [of xs i] by (cases "entry_at xs i") auto

lemma opens_simps [simp]:
  "opens [] = {}" "opens (xs @ [True]) = insert (length xs) (opens xs)"
  by (auto simp: opens_def nth_append less_Suc_eq)

lemma opens_update [simp]: "opens (xs[i := False]) = opens xs - {i}"
  by (cases "i < length xs") (auto simp: opens_def nth_list_update split: if_splits)

lemma opens_fresh: "length xs \<notin> opens xs"
  by (simp add: opens_def)

subsection \<open>Who holds what\<close>

definition idle :: "world \<Rightarrow> bool" where
  "idle w \<longleftrightarrow> live w = {} \<and> open_ctxs w = {}"

definition captured :: "CaptureSession \<Rightarrow> world \<Rightarrow> bool" where
  "captured c w \<longleftrightarrow> (\<exists>pl req v. idle v \<and> start pl req v = (Inr c, w))"

lemma captured_start: "start pl req v = (Inr c, w) \<Longrightarrow> idle v \<Longrightarrow> captured c w"
  unfolding captured_def by blast

lemma captured_stop: "captured c w \<Longrightarrow> idle (stop c w)"
  by (auto simp: captured_def idle_def start_stop_spec)

fun flight_holds :: "phase \<Rightarrow> attempt \<Rightarrow> runtime \<Rightarrow> bool" where
  "flight_holds AwaitCapture got rt \<longleftrightarrow> at_capture got = None \<and> at_peer got = None
     \<and> idle (rt_media rt) \<and> opens (rt_peers rt) = {}"
| "flight_holds (AwaitCreate cap) got rt \<longleftrightarrow> at_capture got = Some cap \<and> at_peer got = None
     \<and> captured cap (rt_media rt) \<and> opens (rt_peers rt) = {}"
| "flight_holds (AwaitOffer cap _ p) got rt \<longleftrightarrow> at_capture got = Some cap \<and> at_peer got = Some p
     \<and> captured cap (rt_media rt) \<and> opens (rt_peers rt) = {p}"
| "flight_holds (AwaitIce cap _ p) got rt \<longleftrightarrow> at_capture got = Some cap \<and> at_peer got = Some p
     \<and> captured cap (rt_media rt) \<and> opens (rt_peers rt) = {p}"
| "flight_holds (AwaitNegotiate cap _ p _) got rt \<longleftrightarrow> at_capture got = Some cap \<and> at_peer got = Some p
     \<and> captured cap (rt_media rt) \<and> opens (rt_peers rt) = {p}"
| "flight_holds (AwaitRemote cap _ p) got rt \<longleftrightarrow> at_capture got = Some cap \<and> at_peer got = Some p
     \<and> captured cap (rt_media rt) \<and> opens (rt_peers rt) = {p}"

definition flight_ok_rt :: "flight \<Rightarrow> runtime \<Rightarrow> bool" where
  "flight_ok_rt fl rt \<longleftrightarrow> flight_holds (fl_phase fl) (fl_got fl) rt \<and> at_subscription (fl_got fl) = None
     \<and> opens (rt_subs rt) = {}"

definition nothing_open :: "runtime \<Rightarrow> bool" where
  "nothing_open rt \<longleftrightarrow> idle (rt_media rt) \<and> opens (rt_peers rt) = {} \<and> opens (rt_subs rt) = {}"

definition meeting_open :: "'a StartedMeeting_scheme \<Rightarrow> runtime \<Rightarrow> bool" where
  "meeting_open m rt \<longleftrightarrow> captured (capture m) (rt_media rt) \<and> opens (rt_peers rt) = {peer m} \<and> opens (rt_subs rt) = {subscription m}"

definition ending_open :: "'a StartedMeeting_scheme \<Rightarrow> runtime \<Rightarrow> bool" where
  "ending_open m rt \<longleftrightarrow> captured (capture m) (rt_media rt) \<and> opens (rt_peers rt) = {} \<and> opens (rt_subs rt) = {}"

fun owns :: "HostState \<Rightarrow> flight list \<Rightarrow> ActiveMeeting list \<Rightarrow> runtime \<Rightarrow> bool" where
  "owns (Creating _) fls ends rt = (\<exists>fl. fls = [fl] \<and> ends = [] \<and> flight_ok_rt fl rt)"
| "owns (ActiveHost _ m) fls ends rt = (fls = [] \<and> ends = [] \<and> meeting_open m rt)"
| "owns (EndingHost _ m) fls ends rt = (fls = [] \<and> ends = [m] \<and> ending_open m rt)"
| "owns _ fls ends rt = (fls = [] \<and> ends = [] \<and> nothing_open rt)"

abbreviation owner :: "page \<Rightarrow> bool" where
  "owner pg \<equiv> owns (pg_state pg) (entries (pg_flights pg)) (entries (pg_endings pg)) (pg_rt pg)"

subsection \<open>Flights\<close>

lemma resume_holds:
  assumes "resume env fl rt = (None, fl', rt')" and "flight_ok_rt fl rt"
  shows "flight_ok_rt fl' rt'"
  using assms
  by (cases "fl_phase fl")
    (auto simp: flight_ok_rt_def resume_def Let_def served_def intro: captured_start
      split: prod.splits sum.splits option.splits if_splits)

lemma resume_started:
  assumes "resume env fl rt = (Some (Started m), fl', rt')" and "flight_ok_rt fl rt"
  shows "meeting_open m rt'"
  using assms
  by (cases "fl_phase fl")
    (auto simp: flight_ok_rt_def resume_def Let_def meeting_open_def
      split: prod.splits sum.splits option.splits if_splits)

lemma resume_threw:
  assumes "resume env fl rt = (Some (Threw e), fl', rt')" and "flight_ok_rt fl rt"
    and "pl_graph (env_platform env) = None"
  shows "nothing_open (rollback (fl_got fl') rt')"
proof (cases "fl_phase fl")
  case AwaitCapture
  obtain r media where st: "start (env_platform env) \<lparr>cr_mode = fl_mode fl, cr_audioConstraints = None\<rparr> (rt_media rt) = (r, media)"
    by fastforce
  have idle: "idle (rt_media rt)" using assms(2) AwaitCapture by (simp add: flight_ok_rt_def)
  show ?thesis
  proof (cases r)
    case (Inl err)
    have "idle media" using start_fails [OF st [unfolded Inl] assms(3)] idle by (simp add: idle_def)
    with Inl st assms(1,2) AwaitCapture show ?thesis
      by (auto simp: resume_def flight_ok_rt_def nothing_open_def rollback_def)
  next
    case (Inr cap)
    have "captured cap media" using st Inr idle by (auto intro: captured_start)
    with Inr st assms(1,2) AwaitCapture show ?thesis
      by (auto simp: resume_def Let_def flight_ok_rt_def nothing_open_def rollback_def stop_capture_def captured_stop
          split: if_splits)
  qed
qed (use assms(1,2) in \<open>auto simp: resume_def Let_def flight_ok_rt_def nothing_open_def rollback_def served_def
    stop_capture_def close_peer_def captured_stop split: prod.splits sum.splits option.splits if_splits\<close>)

subsection \<open>Steps\<close>

definition resting :: "HostState \<Rightarrow> bool" where
  "resting s = (case s of Creating _ \<Rightarrow> False | ActiveHost _ _ \<Rightarrow> False | EndingHost _ _ \<Rightarrow> False | _ \<Rightarrow> True)"

lemma owns_resting: "resting s \<Longrightarrow> owns s fls ends rt = (fls = [] \<and> ends = [] \<and> nothing_open rt)"
  by (cases s) (simp_all add: resting_def)

lemma resting_fresh [simp]: "resting (fresh_form p r)"
  by (simp add: resting_def fresh_form_def)

text \<open>The identity changes only at rest, and the platform's clean-up succeeds.\<close>

definition calm :: "page_event \<Rightarrow> page \<Rightarrow> bool" where
  "calm e pg = (case e of
     IdentityResolved _ \<Rightarrow> resting (pg_state pg)
   | FlightResumed _ env \<Rightarrow> pl_graph (env_platform env) = None
   | EndClicked f \<Rightarrow> \<not> fault_unsubscribe f \<and> \<not> fault_close f
   | EndSettled _ f \<Rightarrow> \<not> fault_stop f
   | _ \<Rightarrow> True)"

lemma dispatch_owns:
  assumes "owns s fls ends rt" and "page_action e cs a" and "(\<exists>who. e = IdentityResolved who) \<longrightarrow> resting s"
  shows "owns (dispatch a s) fls ends rt" "resting s \<longrightarrow> resting (dispatch a s)"
proof -
  have "owns (dispatch a s) fls ends rt \<and> (resting s \<longrightarrow> resting (dispatch a s))"
    using assms
    by (cases a; cases s)
      (auto simp: page_action_def owns_resting resting_def meeting_open_def fresh_form_def
        split: option.splits form_field.splits if_splits)
  then show "owns (dispatch a s) fls ends rt" "resting s \<longrightarrow> resting (dispatch a s)" by simp_all
qed

lemma flight_holds_state [simp]: "flight_holds ph got (rt\<lparr>rt_state := s\<rparr>) = flight_holds ph got rt"
  by (cases ph) simp_all

lemma owns_dispatch_rt [simp]: "owns s fls ends (dispatch_rt a rt) = owns s fls ends rt"
  by (cases s) (simp_all add: flight_ok_rt_def nothing_open_def meeting_open_def ending_open_def dispatch_rt_def)

lemma act_owner:
  assumes "owner pg" and "page_action e (pg_corpora pg) a" and "(\<exists>who. e = IdentityResolved who) \<longrightarrow> resting (pg_state pg)"
  shows "owner (act a pg)" "(\<exists>who. e = IdentityResolved who) \<longrightarrow> resting (pg_state (act a pg))"
  using dispatch_owns [OF assms] assms(3) by (simp_all del: reducer.simps)

lemma run_act_owner:
  assumes "owner pg" and "list_all (page_action e (pg_corpora pg)) as"
    and "(\<exists>who. e = IdentityResolved who) \<longrightarrow> resting (pg_state pg)"
  shows "owner (run act as pg)"
  using assms
proof (induction as arbitrary: pg)
  case (Cons a as)
  from Cons.prems(2) have "page_action e (pg_corpora pg) a" by simp
  note act_owner [OF Cons.prems(1) this Cons.prems(3)]
  with Cons.IH [of "act a pg"] Cons.prems(2) show ?case by (simp del: reducer.simps)
qed simp

lemma submit_owner:
  assumes "owner pg" and "pg_state pg = Ready f"
  shows "owner (submit pl checked f pg)"
  using assms by (simp add: submit_def Let_def launch_def flight_ok_rt_def nothing_open_def)

lemma owner_flight:
  assumes "owner pg" and "entry_at (pg_flights pg) i = Some fl"
  obtains f where "pg_state pg = Creating f" "entries (pg_flights pg) = [fl]" "entries (pg_endings pg) = []"
    "flight_ok_rt fl (pg_rt pg)"
proof -
  have "entries (pg_flights pg) \<noteq> []" using entries_Nil assms(2) by fastforce
  with assms(1) obtain f fl0 where "pg_state pg = Creating f" "entries (pg_flights pg) = [fl0]"
    "entries (pg_endings pg) = []" "flight_ok_rt fl0 (pg_rt pg)"
    by (cases "pg_state pg") auto
  moreover from this(2) assms(2) have "fl = fl0" by (rule entries_single(1))
  ultimately show thesis using that by blast
qed

lemma fly_owner:
  assumes "owner pg" and "entry_at (pg_flights pg) i = Some fl" and "pl_graph (env_platform env) = None"
  shows "owner (fly_on i env fl pg)"
proof -
  obtain r fl' rt where res: "resume env fl (pg_rt pg) = (r, fl', rt)" by (cases "resume env fl (pg_rt pg)") auto
  obtain f where f: "pg_state pg = Creating f" "entries (pg_flights pg) = [fl]" "entries (pg_endings pg) = []"
    "flight_ok_rt fl (pg_rt pg)" using owner_flight [OF assms(1,2)] .
  note post = entries_single [OF f(2) assms(2)] resume_state [OF res]
  show ?thesis
  proof (cases r)
    case None
    with res resume_holds [OF res [unfolded None] f(4)] f post show ?thesis by (simp add: fly_on_def)
  next
    case (Some x)
    show ?thesis
    proof (cases x)
      case (Started m)
      with res Some have "meeting_open m rt" using resume_started f(4) by blast
      with Started Some res f post show ?thesis
        by (simp add: fly_on_def land_def start_meeting_def meeting_open_def)
    next
      case (Threw e)
      with res Some have "nothing_open (rollback (fl_got fl') rt)" using resume_threw f(4) assms(3) by blast
      with Threw Some res f post show ?thesis by (simp add: fly_on_def land_def nothing_open_def)
    next
      case Waiting
      with res Some resume_not_waiting show ?thesis by blast
    qed
  qed
qed

lemma begin_owner:
  assumes "owner pg" and "pg_state pg = ActiveHost p m" and "\<not> fault_unsubscribe faults" and "\<not> fault_close faults"
  shows "owner (with_rt (end_begin faults m (pg_rt pg)) (pg\<lparr>pg_endings := pg_endings pg @ [Some m]\<rparr>))"
  using assms
  by (simp add: end_begin_def attempt_step_def Let_def unsubscribe_rt_def close_peer_def meeting_open_def ending_open_def)

lemma end_owner:
  assumes "owner pg" and "entry_at (pg_endings pg) i = Some m" and "\<not> fault_stop faults"
  shows "owner (with_rt (end_finish faults m (pg_rt pg)) (pg\<lparr>pg_endings := (pg_endings pg)[i := None]\<rparr>))"
proof -
  have "entries (pg_endings pg) \<noteq> []" using entries_Nil assms(2) by fastforce
  with assms(1) obtain p m0 where s: "pg_state pg = EndingHost p m0" "entries (pg_endings pg) = [m0]"
    "entries (pg_flights pg) = []" "ending_open m0 (pg_rt pg)"
    by (cases "pg_state pg") auto
  note entries_single [OF s(2) assms(2)]
  with s assms(3) show ?thesis
    by (simp add: end_finish_def attempt_step_def Let_def stop_capture_def served_def ending_open_def nothing_open_def
        captured_stop fresh_form_def)
qed

lemma step_owner:
  assumes "owner pg" and "calm e pg"
  shows "owner (page_step e pg)"
proof (cases e pg rule: page_step_cases)
  case (acts as)
  from assms(2) have "(\<exists>who. e = IdentityResolved who) \<longrightarrow> resting (pg_state pg)" by (auto simp: calm_def)
  with run_act_owner [OF assms(1) acts(2)] acts(1) show ?thesis by simp
next
  case (submits pl checked f)
  with submit_owner assms(1) show ?thesis by simp
next
  case (flies i env fl)
  with fly_owner assms show ?thesis by (simp add: calm_def)
next
  case (begins faults p m)
  from assms(2) begins(1) show ?thesis
    unfolding begins(3) by (intro begin_owner [OF assms(1) begins(2)]) (simp_all add: calm_def)
next
  case (ends i faults m)
  from assms(2) ends(1) show ?thesis
    unfolding ends(3) by (intro end_owner [OF assms(1) ends(2)]) (simp add: calm_def)
qed (use assms(1) in simp_all)

interpretation page_owner: page_invariant calm owner
proof unfold_locales
  fix st
  show "owner (mount_page st)"
    by (simp add: mount_page_def a_runtime_def nothing_open_def idle_def live_def open_ctxs_def empty_world_def)
qed (rule step_owner)



end
