(* ===== verification/Capture_Account.thy ===== *)
theory Capture_Account
  imports Audio_Capture "HOL-Library.Multiset"
begin

section \<open>Accounting for several capture sessions\<close>

text \<open>
  Audio_Capture shows what one session acquires and releases. Here any number of sessions run over one
  store: \<open>settled cs w\<close> says that the sessions \<open>cs\<close> are running, that no two of them share a device
  track or an audio context, and that they hold every live track and every open context of \<open>w\<close>. Starting
  adds a session to the list, stopping takes one away, and a start that fails changes nothing, in any
  order in which the calls of several meetings cross.
\<close>

subsection \<open>The single-stream sessions of a session\<close>

fun parts :: "CaptureSession \<Rightarrow> world \<Rightarrow> nat list" where
  "parts (SingleSession i) w = [i]"
| "parts (MixedSession i) w = [ms_tab (w_mixes w ! i), ms_mic (w_mixes w ! i)]"

fun contexts :: "CaptureSession \<Rightarrow> world \<Rightarrow> nat list" where
  "contexts (SingleSession i) w = []"
| "contexts (MixedSession i) w = [ms_ctx (w_mixes w ! i)]"

fun begun :: "CaptureSession \<Rightarrow> world \<Rightarrow> bool" where
  "begun (SingleSession i) w = True"
| "begun (MixedSession i) w = (i < length (w_mixes w) \<and> \<not> ms_stopped (w_mixes w ! i))"

definition tracks_of :: "CaptureSession \<Rightarrow> world \<Rightarrow> nat set" where
  "tracks_of c w = (\<Union>i \<in> set (parts c w). single_holds i w)"

definition all_parts :: "CaptureSession list \<Rightarrow> world \<Rightarrow> nat list" where
  "all_parts cs w = concat (map (\<lambda>c. parts c w) cs)"

definition all_contexts :: "CaptureSession list \<Rightarrow> world \<Rightarrow> nat list" where
  "all_contexts cs w = concat (map (\<lambda>c. contexts c w) cs)"

lemma all_parts_simps [simp]:
  "all_parts [] w = []" "all_parts (c # cs) w = parts c w @ all_parts cs w"
  by (simp_all add: all_parts_def)

lemma all_contexts_simps [simp]:
  "all_contexts [] w = []" "all_contexts (c # cs) w = contexts c w @ all_contexts cs w"
  by (simp_all add: all_contexts_def)

subsection \<open>Single-stream sessions\<close>

definition running :: "nat \<Rightarrow> world \<Rightarrow> bool" where
  "running i w \<longleftrightarrow> i < length (w_singles w) \<and> \<not> ss_stopped (w_singles w ! i)
     \<and> ss_stream (w_singles w ! i) < length (w_streams w)"

definition singles_hold :: "nat list \<Rightarrow> world \<Rightarrow> bool" where
  "singles_hold ps w \<longleftrightarrow> distinct ps \<and> list_all (\<lambda>i. running i w) ps
     \<and> (\<forall>i \<in> set ps. \<forall>j \<in> set ps. i \<noteq> j \<longrightarrow> single_holds i w \<inter> single_holds j w = {})
     \<and> live w = (\<Union>i \<in> set ps. single_holds i w)"

lemma singles_perm: "singles_hold ps w \<Longrightarrow> mset ps = mset qs \<Longrightarrow> singles_hold qs w"
  using mset_eq_imp_distinct_iff [of ps qs] mset_eq_setD [of ps qs]
  unfolding singles_hold_def list_all_iff by metis

lemma kept:
  assumes "running i w" and "\<forall>j < length (w_singles w). w_singles v ! j = w_singles w ! j"
    and "\<forall>k < length (w_streams w). w_streams v ! k = w_streams w ! k"
    and "length (w_singles w) \<le> length (w_singles v)" and "length (w_streams w) \<le> length (w_streams v)"
  shows "running i v" "single_holds i v = single_holds i w"
  using assms by (auto simp: running_def single_holds_def getTracks_def)

lemma singles_kept:
  assumes "singles_hold ps w" and "\<forall>j < length (w_singles w). w_singles v ! j = w_singles w ! j"
    and "\<forall>k < length (w_streams w). w_streams v ! k = w_streams w ! k"
    and "length (w_singles w) \<le> length (w_singles v)" and "length (w_streams w) \<le> length (w_streams v)"
    and "live v = live w"
  shows "singles_hold ps v"
proof -
  have "\<forall>i \<in> set ps. running i v \<and> single_holds i v = single_holds i w"
    using kept [OF _ assms(2-5)] assms(1) by (simp add: singles_hold_def list_all_iff)
  with assms(1,6) show ?thesis by (simp add: singles_hold_def list_all_iff)
qed

lemma singles_acquire:
  assumes "singles_hold ps w" and "acquires i w v"
  shows "singles_hold (i # ps) v"
proof -
  note a = acquiresD [OF assms(2)]
  have len: "length (w_singles w) \<le> length (w_singles v)" "length (w_streams w) \<le> length (w_streams v)"
    and i: "i = length (w_singles w)"
    using assms(2) by (auto simp: acquires_def)
  have old: "\<forall>j \<in> set ps. running j v \<and> single_holds j v = single_holds j w \<and> single_holds j w \<subseteq> live w"
    using kept [of _ w v] a(6,7) len assms(1) by (auto simp: singles_hold_def list_all_iff)
  have "i \<notin> set ps" using assms(1) i by (auto simp: singles_hold_def list_all_iff running_def)
  moreover have "running i v" using a(1,2,8) by (simp add: running_def)
  moreover have "single_holds i v \<inter> single_holds j v = {}" if "j \<in> set ps" for j using old that a(4) by blast
  moreover have "live v = (\<Union>j \<in> set (i # ps). single_holds j v)"
    using a(3) old assms(1) by (auto simp: singles_hold_def)
  ultimately show ?thesis using old assms(1) by (auto simp: singles_hold_def list_all_iff)
qed

lemma singles_stop:
  assumes "singles_hold (i # ps) w"
  shows "singles_hold ps (stop_single i w)"
proof -
  have run: "running i w" and i: "i \<notin> set ps" using assms by (simp_all add: singles_hold_def)
  have holds: "single_holds j (stop_single i w) = single_holds j w" for j
    by (simp add: single_holds_def getTracks_def)
  have live: "live (stop_single i w) = live w - single_holds i w"
    using run by (simp add: running_def live_stop_single)
  have "\<forall>j \<in> set ps. running j (stop_single i w)"
  proof
    fix j
    assume j: "j \<in> set ps"
    with i have "j \<noteq> i" by blast
    with j assms show "running j (stop_single i w)" by (simp add: singles_hold_def list_all_iff running_def)
  qed
  moreover have "live (stop_single i w) = (\<Union>j \<in> set ps. single_holds j w)"
    unfolding live using assms i by (auto simp: singles_hold_def)
  ultimately show ?thesis using assms by (simp add: singles_hold_def list_all_iff holds)
qed

subsection \<open>Sessions\<close>

definition settled :: "CaptureSession list \<Rightarrow> world \<Rightarrow> bool" where
  "settled cs w \<longleftrightarrow> list_all (\<lambda>c. begun c w) cs \<and> singles_hold (all_parts cs w) w
     \<and> distinct (all_contexts cs w) \<and> open_ctxs w = set (all_contexts cs w)"

lemma mset_concat_map: "mset xs = mset ys \<Longrightarrow> mset (concat (map f xs)) = mset (concat (map f ys))"
proof -
  have "mset (concat (map f zs)) = \<Sum>\<^sub># (image_mset (\<lambda>x. mset (f x)) (mset zs))" for zs
    by (induction zs) simp_all
  then show "mset xs = mset ys \<Longrightarrow> ?thesis" by simp
qed

lemma settled_perm:
  assumes "settled cs w" and "mset cs = mset ds"
  shows "settled ds w"
proof -
  have parts: "mset (all_parts cs w) = mset (all_parts ds w)" and ctx: "mset (all_contexts cs w) = mset (all_contexts ds w)"
    unfolding all_parts_def all_contexts_def by (rule mset_concat_map [OF assms(2)])+
  have "list_all (\<lambda>c. begun c w) ds" using assms(1) mset_eq_setD [OF assms(2)] by (simp add: settled_def list_all_iff)
  moreover have "singles_hold (all_parts ds w) w"
    by (rule singles_perm [OF _ parts]) (use assms(1) in \<open>simp add: settled_def\<close>)
  moreover have "distinct (all_contexts ds w)" "open_ctxs w = set (all_contexts ds w)"
    using assms(1) mset_eq_imp_distinct_iff [OF ctx] unfolding mset_eq_setD [OF ctx, symmetric] settled_def by blast+
  ultimately show ?thesis by (simp add: settled_def)
qed

text \<open>A store that only grows by streams and sessions, with the mixing sessions and the contexts as before.\<close>

lemma contents_eq:
  assumes "\<forall>i < length (w_mixes w). w_mixes v ! i = w_mixes w ! i" and "length (w_mixes w) \<le> length (w_mixes v)"
    and "list_all (\<lambda>c. begun c w) cs"
  shows "list_all (\<lambda>c. begun c v) cs" "all_parts cs v = all_parts cs w" "all_contexts cs v = all_contexts cs w"
proof -
  have "begun c v \<and> parts c v = parts c w \<and> contexts c v = contexts c w" if "begun c w" for c
    using that assms(1,2) by (cases c) auto
  with assms(3) show "list_all (\<lambda>c. begun c v) cs" "all_parts cs v = all_parts cs w" "all_contexts cs v = all_contexts cs w"
    by (induction cs) auto
qed

lemma settled_acquire:
  assumes "settled cs w" and "acquires i w v"
  shows "settled (SingleSession i # cs) v"
proof -
  have same: "w_mixes v = w_mixes w" "open_ctxs v = open_ctxs w"
    using assms(2) by (simp_all add: acquires_def open_ctxs_def)
  with contents_eq [of w v cs] assms(1) have "list_all (\<lambda>c. begun c v) cs" "all_parts cs v = all_parts cs w"
    "all_contexts cs v = all_contexts cs w" by (simp_all add: settled_def)
  with assms same singles_acquire [of "all_parts cs w" w i v] show ?thesis by (simp add: settled_def)
qed

lemma settled_kept:
  assumes "settled cs w" and "live v = live w" and "w_ctx_open v = w_ctx_open w" and "w_singles v = w_singles w"
    and "w_mixes v = w_mixes w" and "\<forall>k < length (w_streams w). w_streams v ! k = w_streams w ! k"
    and "length (w_streams w) \<le> length (w_streams v)"
  shows "settled cs v"
proof -
  have "open_ctxs v = open_ctxs w" using assms(3) by (simp add: open_ctxs_def)
  moreover have "list_all (\<lambda>c. begun c v) cs" "all_parts cs v = all_parts cs w" "all_contexts cs v = all_contexts cs w"
    using contents_eq [of w v cs] assms(1,5) by (simp_all add: settled_def)
  moreover have "singles_hold (all_parts cs w) v"
    using singles_kept [of _ w v] assms by (simp add: settled_def)
  ultimately show ?thesis using assms(1) by (simp add: settled_def)
qed

lemma settled_stop_single:
  assumes "settled (SingleSession i # cs) w"
  shows "settled cs (stop_single i w)"
proof -
  have "list_all (\<lambda>c. begun c (stop_single i w)) cs" "all_parts cs (stop_single i w) = all_parts cs w"
    "all_contexts cs (stop_single i w) = all_contexts cs w"
    using contents_eq [of w "stop_single i w" cs] assms by (simp_all add: settled_def)
  moreover have "open_ctxs (stop_single i w) = open_ctxs w" by (simp add: open_ctxs_def)
  moreover have "singles_hold (all_parts cs w) (stop_single i w)"
    using assms by (intro singles_stop) (simp add: settled_def)
  ultimately show ?thesis using assms by (simp add: settled_def)
qed

text \<open>Two single-stream sessions become one mixing session, and the other way round.\<close>

lemma settled_mix:
  assumes "settled (SingleSession tab # SingleSession mic # cs) w"
  shows "settled (MixedSession (length (w_mixes w)) # cs)
    (w\<lparr>w_ctx_open := w_ctx_open w @ [True],
       w_mixes := w_mixes w @ [\<lparr>ms_ctx = length (w_ctx_open w), ms_mic = mic, ms_tab = tab, ms_stopped = False\<rparr>]\<rparr>)"
    (is "settled _ ?v")
proof -
  have "list_all (\<lambda>c. begun c ?v) cs" "all_parts cs ?v = all_parts cs w" "all_contexts cs ?v = all_contexts cs w"
    using contents_eq [of w ?v cs] assms by (simp_all add: settled_def nth_append)
  moreover have "open_ctxs ?v = insert (length (w_ctx_open w)) (open_ctxs w)" "length (w_ctx_open w) \<notin> open_ctxs w"
    by (auto simp: open_ctxs_def nth_append)
  moreover have "singles_hold (tab # mic # all_parts cs w) ?v"
    using singles_kept [of _ w ?v] assms by (simp add: settled_def)
  ultimately show ?thesis using assms by (simp add: settled_def nth_append)
qed

lemma settled_stop_mixed:
  assumes "settled (MixedSession i # cs) w"
  shows "settled cs (stop_mixed i w)"
proof -
  let ?s = "w_mixes w ! i"
  let ?v = "w\<lparr>w_mixes := (w_mixes w)[i := ?s\<lparr>ms_stopped := True\<rparr>], w_ctx_open := (w_ctx_open w)[ms_ctx ?s := False]\<rparr>"
  from assms have i: "i < length (w_mixes w)" "\<not> ms_stopped ?s"
    and cs: "list_all (\<lambda>c. begun c w) cs" by (simp_all add: settled_def)
  have other: "MixedSession i \<notin> set cs"
  proof
    assume "MixedSession i \<in> set cs"
    then have "ms_mic ?s \<in> set (all_parts cs w)" by (auto simp: all_parts_def intro!: bexI [of _ "MixedSession i"])
    with assms show False by (simp add: settled_def singles_hold_def)
  qed
  have "begun c ?v \<and> parts c ?v = parts c w \<and> contexts c ?v = contexts c w" if "c \<in> set cs" for c
  proof -
    from that cs other have "begun c w" "c \<noteq> MixedSession i" by (auto simp: list_all_iff)
    then show ?thesis by (cases c) auto
  qed
  then have same: "list_all (\<lambda>c. begun c ?v) cs" "all_parts cs ?v = all_parts cs w" "all_contexts cs ?v = all_contexts cs w"
    by (simp_all add: list_all_iff all_parts_def all_contexts_def cong: map_cong)
  have "open_ctxs ?v = open_ctxs w - {ms_ctx ?s}"
    using open_ctxs_close [of w "ms_ctx ?s"] by (simp add: open_ctxs_def)
  moreover have "singles_hold (ms_tab ?s # ms_mic ?s # all_parts cs w) ?v"
    using singles_kept [of _ w ?v] assms by (simp add: settled_def)
  then have "singles_hold (ms_mic ?s # ms_tab ?s # all_parts cs w) ?v" by (rule singles_perm) simp
  ultimately have "settled (SingleSession (ms_mic ?s) # SingleSession (ms_tab ?s) # cs) ?v"
    using assms same by (auto simp: settled_def)
  from settled_stop_single [OF settled_stop_single [OF this]] i show ?thesis
    by (simp add: stop_mixed_def Let_def)
qed

subsection \<open>Starting and stopping\<close>

lemma settled_start_mixed:
  assumes "startMicrophoneAndTab pl req w = (Inr i, v)" and "settled cs w"
  shows "settled (MixedSession i # cs) v"
proof -
  obtain mic w1 where m: "startMicrophone pl req w = (Inr mic, w1)"
    using assms(1) by (auto simp: startMicrophoneAndTab_def split: prod.splits sum.splits)
  with assms(1) obtain tab w2 where t: "startBrowserTab pl w1 = (Inr tab, w2)"
    by (auto simp: startMicrophoneAndTab_def split: prod.splits sum.splits)
  note settled_acquire [OF assms(2) startMicrophone_acquires [OF m]]
  from settled_mix [OF settled_acquire [OF this startBrowserTab_acquires(1) [OF t]]] assms(1) m t show ?thesis
    by (auto simp: startMicrophoneAndTab_def split: option.splits prod.splits bool.splits)
qed

lemma settled_start:
  assumes "start pl req w = (Inr c, v)" and "settled cs w"
  shows "settled (c # cs) v"
proof (cases "cr_mode req")
  case Microphone
  with assms(1) obtain i where "startMicrophone pl req w = (Inr i, v)" "c = SingleSession i"
    by (auto simp: start_def dest: session_of_cases)
  then show ?thesis using settled_acquire [OF assms(2)] startMicrophone_acquires by simp
next
  case BrowserTab
  with assms(1) obtain i where "startBrowserTab pl w = (Inr i, v)" "c = SingleSession i"
    by (auto simp: start_def dest: session_of_cases)
  then show ?thesis using settled_acquire [OF assms(2)] startBrowserTab_acquires(1) by simp
next
  case MicrophoneAndTab
  with assms(1) obtain i where "startMicrophoneAndTab pl req w = (Inr i, v)" "c = MixedSession i"
    by (auto simp: start_def dest: session_of_cases)
  then show ?thesis using settled_start_mixed assms(2) by simp
qed

lemma settled_tab_fails:
  assumes "startBrowserTab pl w = (Inl e, v)" and "settled cs w"
  shows "settled cs v"
  using startBrowserTab_fails [OF assms(1)] by (intro settled_kept [OF assms(2)]) simp_all

lemma settled_mixed_fails:
  assumes "startMicrophoneAndTab pl req w = (Inl e, v)" and "pl_graph pl = None" and "settled cs w"
  shows "settled cs v"
proof (cases "startMicrophone pl req w")
  case (Pair r w1)
  show ?thesis
  proof (cases r)
    case (Inl x)
    with Pair assms(1) startMicrophone_fails(1) have "v = w" by (auto simp: startMicrophoneAndTab_def)
    with assms(3) show ?thesis by simp
  next
    case (Inr mic)
    with Pair have m: "startMicrophone pl req w = (Inr mic, w1)" by simp
    with assms obtain w2 where t: "startBrowserTab pl w1 = (Inl e, w2)" and v: "v = stop_single mic w2"
      by (auto simp: startMicrophoneAndTab_def split: prod.splits sum.splits)
    from settled_tab_fails [OF t settled_acquire [OF assms(3) startMicrophone_acquires [OF m]]]
    show ?thesis unfolding v by (rule settled_stop_single)
  qed
qed

lemma settled_start_fails:
  assumes "start pl req w = (Inl e, v)" and "pl_graph pl = None" and "settled cs w"
  shows "settled cs v"
proof (cases "cr_mode req")
  case Microphone
  with assms(1) have "startMicrophone pl req w = (Inl e, v)" by (auto simp: start_def dest: session_of_cases)
  from startMicrophone_fails(1) [OF this] assms(3) show ?thesis by simp
next
  case BrowserTab
  with assms(1) have "startBrowserTab pl w = (Inl e, v)" by (auto simp: start_def dest: session_of_cases)
  then show ?thesis using assms(3) by (rule settled_tab_fails)
next
  case MicrophoneAndTab
  with assms(1) have "startMicrophoneAndTab pl req w = (Inl e, v)" by (auto simp: start_def dest: session_of_cases)
  then show ?thesis using assms(2,3) by (rule settled_mixed_fails)
qed

lemma settled_stop: "settled (c # cs) w \<Longrightarrow> settled cs (stop c w)"
  using settled_stop_single settled_stop_mixed by (cases c) simp_all

lemma settled_Nil: "settled [] empty_world"
  by (simp add: settled_def singles_hold_def live_def open_ctxs_def empty_world_def)

text \<open>What a settled store says of the devices.\<close>

lemma tracks_of_parts: "(\<Union>c \<in> set cs. tracks_of c w) = (\<Union>i \<in> set (all_parts cs w). single_holds i w)"
  by (auto simp: tracks_of_def all_parts_def)

lemma settled_devices:
  assumes "settled cs w"
  shows "live w = (\<Union>c \<in> set cs. tracks_of c w)" "open_ctxs w = set (all_contexts cs w)"
    "distinct (all_contexts cs w)" "distinct (all_parts cs w)"
  using assms by (simp_all add: settled_def singles_hold_def tracks_of_parts)

lemma distinct_parts: "distinct (all_parts cs w) \<Longrightarrow> distinct cs"
proof (induction cs)
  case (Cons c cs)
  have "parts c w \<noteq> []" by (cases c) simp_all
  then have "c \<notin> set cs" using Cons.prems by (cases "parts c w") (auto simp: all_parts_def)
  with Cons show ?case by simp
qed simp

lemma settled_apart:
  assumes "settled (as @ c # bs) w" and "d \<in> set (as @ bs)"
  shows "tracks_of c w \<inter> tracks_of d w = {}"
proof -
  have app: "all_parts (xs @ ys) w = all_parts xs w @ all_parts ys w" for xs ys by (simp add: all_parts_def)
  have "set (parts d w) \<subseteq> set (all_parts (as @ bs) w)" using assms(2) by (auto simp: all_parts_def)
  then have d: "set (parts d w) \<subseteq> set (all_parts as w) \<union> set (all_parts bs w)" by (simp add: app)
  have hold: "singles_hold (all_parts as w @ parts c w @ all_parts bs w) w"
    using assms(1) by (simp add: settled_def app)
  have "single_holds i w \<inter> single_holds j w = {}" if i: "i \<in> set (parts c w)" and j: "j \<in> set (parts d w)" for i j
  proof -
    from j d have "j \<in> set (all_parts as w) \<union> set (all_parts bs w)" by blast
    with hold i have "i \<noteq> j" by (auto simp: singles_hold_def)
    with hold i \<open>j \<in> set (all_parts as w) \<union> set (all_parts bs w)\<close> show ?thesis
      unfolding singles_hold_def set_append by blast
  qed
  then show ?thesis unfolding tracks_of_def by blast
qed

subsection \<open>Ledgers\<close>

text \<open>
  What the page may expect of a kind of resource: an account of the handles that are open does not depend
  on their order, and releasing a handle takes it off the account. Capture sessions are one instance, the
  tallies of peer connections and subscriptions another.
\<close>

locale ledger =
  fixes account :: "'h list \<Rightarrow> 'w \<Rightarrow> bool" and release :: "'h \<Rightarrow> 'w \<Rightarrow> 'w"
  assumes account_perm: "account hs w \<Longrightarrow> mset hs = mset ks \<Longrightarrow> account ks w"
    and account_release: "account (h # hs) w \<Longrightarrow> account hs (release h w)"
begin

lemma release_in: "account (as @ h # bs) w \<Longrightarrow> account (as @ bs) (release h w)"
  by (rule account_release) (erule account_perm, simp)

lemma release_all: "account (hs @ ks) w \<Longrightarrow> account ks (fold release hs w)"
proof (induction hs arbitrary: w)
  case (Cons h hs)
  then have "account (hs @ ks) (release h w)" using account_release by simp
  with Cons.IH show ?case by simp
qed simp

end

interpretation captures: ledger settled stop
  by unfold_locales (fact settled_perm, fact settled_stop)

end
