(* ===== verification/Host_Page_Account.thy ===== *)
theory Host_Page_Account
  imports Host_Page_Leak Capture_Account
begin

section \<open>Accounting for peer connections and subscriptions\<close>

text \<open>
  Without any condition on the identity, starts and ends may cross: a start may land, or fail, or an
  end may settle, after the page has moved on to another meeting. Here every open peer connection and
  every open subscription is accounted for on every such history: it is held by a start in flight, or
  by the meeting on screen, or it was lost by one of four kinds of step, and then it stays open. The
  only condition left is that the clean-up calls of \<open>endMeeting\<close> do not throw.
\<close>

subsection \<open>Tallies of open handles\<close>

definition tally :: "bool list \<Rightarrow> handle list \<Rightarrow> bool" where
  "tally hs xs \<longleftrightarrow> distinct xs \<and> opens hs = set xs"

lemma tally_perm: "tally hs xs \<Longrightarrow> mset xs = mset ys \<Longrightarrow> tally hs ys"
  using mset_eq_imp_distinct_iff mset_eq_setD unfolding tally_def by metis

lemma tally_Nil: "tally [] []"
  by (simp add: tally_def)

lemma tally_open: "tally hs xs \<Longrightarrow> tally (hs @ [True]) (length hs # xs)"
  using opens_fresh [of hs] by (simp add: tally_def)

lemma tally_close: "tally hs (x # xs) \<Longrightarrow> tally (hs[x := False]) xs"
  by (auto simp: tally_def)

interpretation handles: ledger "\<lambda>xs hs. tally hs xs" "\<lambda>x hs. hs[x := False]"
  by unfold_locales (fact tally_perm, fact tally_close)

subsection \<open>Who holds a handle\<close>

definition peer_list :: "flight \<Rightarrow> handle list" where
  "peer_list fl = (case at_peer (fl_got fl) of None \<Rightarrow> [] | Some p \<Rightarrow> [p])"

definition in_flight :: "flight option list \<Rightarrow> handle list" where
  "in_flight fls = concat (map peer_list (entries fls))"

fun on_screen :: "HostState \<Rightarrow> (handle \<times> handle) list" where
  "on_screen (ActiveHost _ m) = [(peer m, subscription m)]"
| "on_screen _ = []"

definition held :: "page \<Rightarrow> handle list" where
  "held pg = in_flight (pg_flights pg) @ map fst (on_screen (pg_state pg))"

lemma in_flight_update:
  assumes "entry_at fls i = Some fl"
  shows "\<exists>as bs. in_flight fls = as @ peer_list fl @ bs \<and> in_flight (fls[i := None]) = as @ bs
    \<and> (\<forall>y. in_flight (fls[i := Some y]) = as @ peer_list y @ bs)"
proof -
  obtain as bs where "entries fls = as @ fl # bs" "entries (fls[i := None]) = as @ bs"
    "\<forall>y. entries (fls[i := Some y]) = as @ y # bs"
    using entries_update [OF assms] by blast
  then show ?thesis
    by (intro exI [of _ "concat (map peer_list as)"] exI [of _ "concat (map peer_list bs)"]) (simp add: in_flight_def)
qed

text \<open>A flight's record of what it has acquired agrees with the await it stands at.\<close>

fun phase_peer :: "phase \<Rightarrow> handle option" where
  "phase_peer AwaitCapture = None"
| "phase_peer (AwaitCreate _) = None"
| "phase_peer (AwaitOffer _ _ p) = Some p"
| "phase_peer (AwaitIce _ _ p) = Some p"
| "phase_peer (AwaitNegotiate _ _ p _) = Some p"
| "phase_peer (AwaitRemote _ _ p) = Some p"

definition recorded :: "flight \<Rightarrow> bool" where
  "recorded fl \<longleftrightarrow> at_peer (fl_got fl) = phase_peer (fl_phase fl) \<and> at_subscription (fl_got fl) = None"

text \<open>What a resumption does to the handles.\<close>

definition same_or_fresh :: "flight \<Rightarrow> bool list \<Rightarrow> flight \<Rightarrow> bool list \<Rightarrow> bool" where
  "same_or_fresh fl hs fl' hs' \<longleftrightarrow> peer_list fl' = peer_list fl \<and> hs' = hs
     \<or> peer_list fl = [] \<and> peer_list fl' = [length hs] \<and> hs' = hs @ [True]"

lemma resume_handles:
  assumes "resume env fl rt = (r, fl', rt')" and "recorded fl"
  shows "case r of
     None \<Rightarrow> recorded fl' \<and> rt_subs rt' = rt_subs rt \<and> same_or_fresh fl (rt_peers rt) fl' (rt_peers rt')
   | Some (Threw e) \<Rightarrow> at_subscription (fl_got fl') = None \<and> rt_subs rt' = rt_subs rt
       \<and> same_or_fresh fl (rt_peers rt) fl' (rt_peers rt')
   | Some (Started m) \<Rightarrow> peer_list fl = [peer m] \<and> rt_peers rt' = rt_peers rt
       \<and> subscription m = length (rt_subs rt) \<and> rt_subs rt' = rt_subs rt @ [True]
   | Some Waiting \<Rightarrow> False"
  using assms
  by (cases "fl_phase fl")
    (auto simp: resume_def Let_def served_def recorded_def same_or_fresh_def peer_list_def
      split: prod.splits sum.splits option.splits if_splits)

lemma rollback_handles:
  assumes "at_subscription got = None"
  shows "rt_subs (rollback got rt) = rt_subs rt"
    "rt_peers (rollback got rt) = (case at_peer got of None \<Rightarrow> rt_peers rt | Some p \<Rightarrow> (rt_peers rt)[p := False])"
  using assms by (simp_all add: rollback_def stop_capture_def close_peer_def split: option.split)

subsection \<open>Lost handles\<close>

text \<open>The steps that take a meeting off the screen without ending it: a change of identity, a start that
  fails, and an end that settles.\<close>

definition drops :: "page_event \<Rightarrow> page \<Rightarrow> bool" where
  "drops e pg = (case e of
     IdentityResolved _ \<Rightarrow> True
   | EndSettled i _ \<Rightarrow> entry_at (pg_endings pg) i \<noteq> None
   | FlightResumed i env \<Rightarrow> (case entry_at (pg_flights pg) i of
       Some fl \<Rightarrow> (case fst (resume env fl (pg_rt pg)) of Some (Threw _) \<Rightarrow> True | _ \<Rightarrow> False)
     | None \<Rightarrow> False)
   | _ \<Rightarrow> False)"

text \<open>A start that succeeds when the page is not creating a meeting any more.\<close>

definition late :: "page_event \<Rightarrow> page \<Rightarrow> (handle \<times> handle) list" where
  "late e pg = (case e of
     FlightResumed i env \<Rightarrow> (case entry_at (pg_flights pg) i of
       Some fl \<Rightarrow> (case fst (resume env fl (pg_rt pg)) of
           Some (Started m) \<Rightarrow> (case pg_state pg of Creating _ \<Rightarrow> [] | _ \<Rightarrow> [(peer m, subscription m)])
         | _ \<Rightarrow> [])
     | None \<Rightarrow> [])
   | _ \<Rightarrow> [])"

definition lost :: "page_event \<Rightarrow> page \<Rightarrow> (handle \<times> handle) list" where
  "lost e pg = (if drops e pg then on_screen (pg_state pg) else []) @ late e pg"

fun losses :: "page_event list \<Rightarrow> page \<Rightarrow> (handle \<times> handle) list" where
  "losses [] pg = []"
| "losses (e # es) pg = lost e pg @ losses es (page_step e pg)"

definition clean :: "page_event \<Rightarrow> page \<Rightarrow> bool" where
  "clean e pg = (case e of EndClicked f \<Rightarrow> \<not> fault_unsubscribe f \<and> \<not> fault_close f | _ \<Rightarrow> True)"

definition accounted :: "(handle \<times> handle) list \<Rightarrow> page \<Rightarrow> bool" where
  "accounted ls pg \<longleftrightarrow> list_all recorded (entries (pg_flights pg))
     \<and> tally (rt_peers (pg_rt pg)) (held pg @ map fst ls)
     \<and> tally (rt_subs (pg_rt pg)) (map snd (on_screen (pg_state pg) @ ls))"

subsection \<open>Every step keeps the account\<close>

lemma started_screen: "on_screen (dispatch (MEETING_STARTED m) s)
    = (case s of Creating _ \<Rightarrow> [(peer m, subscription m)] | _ \<Rightarrow> on_screen s)"
  by (cases s) (simp_all add: start_meeting_def)

lemma leaving_screen [simp]:
  "on_screen (dispatch (AUTH_RESOLVED who) s) = []" "on_screen (dispatch (ERROR_RAISED msg) s) = []"
  "on_screen (dispatch MEETING_ENDED s) = []" "on_screen (dispatch END_REQUESTED (ActiveHost p m)) = []"
  by (cases who; simp add: fresh_form_def) (cases s; simp add: fresh_form_def Let_def)+

lemma page_action_screen:
  assumes "page_action e cs a" and "\<forall>who. e \<noteq> IdentityResolved who"
  shows "on_screen (dispatch a s) = on_screen s"
  using assms by (cases a; cases s) (auto simp: page_action_def fresh_form_def split: form_field.splits option.splits if_splits)

lemma act_accounted:
  assumes "accounted ls pg" and "on_screen (dispatch a (pg_state pg)) = on_screen (pg_state pg)"
  shows "accounted ls (act a pg)"
  using assms by (simp add: accounted_def held_def del: reducer.simps)

lemma run_act_accounted:
  "accounted ls pg \<Longrightarrow> list_all (page_action e (pg_corpora pg)) as \<Longrightarrow> \<forall>who. e \<noteq> IdentityResolved who
   \<Longrightarrow> accounted ls (run act as pg)"
proof (induction as arbitrary: pg)
  case (Cons a as)
  have "accounted ls (act a pg)"
    using Cons.prems by (intro act_accounted page_action_screen [of e "pg_corpora pg"]) simp_all
  with Cons.IH [of "act a pg"] Cons.prems show ?case by simp
qed simp

lemma identity_accounted:
  assumes "accounted ls pg"
  shows "accounted (ls @ on_screen (pg_state pg)) (act (AUTH_RESOLVED who) pg)"
proof -
  from assms have "tally (rt_peers (pg_rt pg)) (in_flight (pg_flights pg) @ map fst (ls @ on_screen (pg_state pg)))"
    "tally (rt_subs (pg_rt pg)) (map snd (ls @ on_screen (pg_state pg)))"
    unfolding accounted_def held_def by (auto elim!: tally_perm)
  with assms show ?thesis by (simp add: accounted_def held_def del: reducer.simps)
qed

lemma submit_accounted:
  assumes "accounted ls pg" and "pg_state pg = Ready f"
  shows "accounted ls (submit pl checked f pg)"
  using assms by (simp add: submit_def Let_def accounted_def held_def in_flight_def peer_list_def launch_def recorded_def)

lemma begin_accounted:
  assumes "accounted ls pg" and "pg_state pg = ActiveHost p m" and "\<not> fault_unsubscribe faults" and "\<not> fault_close faults"
  shows "accounted ls (with_rt (end_begin faults m (pg_rt pg)) (pg\<lparr>pg_endings := pg_endings pg @ [Some m]\<rparr>))"
proof -
  from assms(1,2) have "tally (rt_peers (pg_rt pg)) (in_flight (pg_flights pg) @ peer m # map fst ls)"
    "tally (rt_subs (pg_rt pg)) ([] @ subscription m # map snd ls)"
    by (simp_all add: accounted_def held_def)
  from this [THEN handles.release_in] assms show ?thesis
    by (simp add: accounted_def held_def end_begin_def attempt_step_def Let_def unsubscribe_rt_def close_peer_def)
qed

lemma end_finish_handles:
  "rt_peers (end_finish faults m rt) = rt_peers rt" "rt_subs (end_finish faults m rt) = rt_subs rt"
  by (simp_all add: end_finish_def attempt_step_def Let_def stop_capture_def served_def)

lemma end_accounted:
  assumes "accounted ls pg"
  shows "accounted (ls @ on_screen (pg_state pg)) (with_rt (end_finish faults m (pg_rt pg)) (pg\<lparr>pg_endings := es\<rparr>))"
proof -
  from assms have "tally (rt_peers (pg_rt pg)) (in_flight (pg_flights pg) @ map fst (ls @ on_screen (pg_state pg)))"
    "tally (rt_subs (pg_rt pg)) (map snd (ls @ on_screen (pg_state pg)))"
    unfolding accounted_def held_def by (auto elim!: tally_perm)
  with assms show ?thesis by (simp add: accounted_def held_def end_finish_handles del: reducer.simps)
qed

lemma land_handles:
  "rt_peers (land (Started m) got rt) = rt_peers rt" "rt_subs (land (Started m) got rt) = rt_subs rt"
  "rt_peers (land (Threw e) got rt) = rt_peers (rollback got rt)" "rt_subs (land (Threw e) got rt) = rt_subs (rollback got rt)"
  by (simp_all add: land_def)

text \<open>A flight that goes on, one that lands, and one that fails.\<close>

lemma goes_accounted:
  assumes "accounted ls pg" and i: "entry_at (pg_flights pg) i = Some fl"
    and res: "resume env fl (pg_rt pg) = (None, fl', rt)"
  shows "accounted ls (fly_on i env fl pg)"
proof -
  obtain as bs where en: "entries (pg_flights pg) = as @ fl # bs" "entries ((pg_flights pg)[i := Some fl']) = as @ fl' # bs"
    using entries_update [OF i] by blast
  with assms(1) have "recorded fl" by (simp add: accounted_def)
  note h = resume_handles [OF res this, simplified]
  let ?rest = "concat (map peer_list as) @ concat (map peer_list bs) @ map fst (on_screen (pg_state pg)) @ map fst ls"
  have "tally (rt_peers (pg_rt pg)) (peer_list fl @ ?rest)"
    using assms(1) unfolding accounted_def held_def in_flight_def en by (auto elim!: tally_perm)
  then have "tally (rt_peers rt) (peer_list fl' @ ?rest)"
    using h tally_open [of "rt_peers (pg_rt pg)" ?rest] by (auto simp: same_or_fresh_def)
  then have "tally (rt_peers rt) (concat (map peer_list (as @ fl' # bs)) @ map fst (on_screen (pg_state pg)) @ map fst ls)"
    by (auto elim!: tally_perm)
  with assms(1) h en resume_state [OF res] show ?thesis
    by (simp add: fly_on_def res accounted_def held_def in_flight_def)
qed

lemma fails_accounted:
  assumes "accounted ls pg" and i: "entry_at (pg_flights pg) i = Some fl"
    and res: "resume env fl (pg_rt pg) = (Some (Threw e), fl', rt)"
  shows "accounted (ls @ on_screen (pg_state pg)) (fly_on i env fl pg)"
proof -
  obtain as bs where en: "entries (pg_flights pg) = as @ fl # bs" "entries ((pg_flights pg)[i := None]) = as @ bs"
    using entries_update [OF i] by blast
  with assms(1) have "recorded fl" by (simp add: accounted_def)
  note h = resume_handles [OF res this, simplified]
  let ?rest = "concat (map peer_list (as @ bs)) @ map fst (ls @ on_screen (pg_state pg))"
  have "tally (rt_peers (pg_rt pg)) (peer_list fl @ ?rest)"
    using assms(1) unfolding accounted_def held_def in_flight_def en by (auto elim!: tally_perm)
  then have "tally (rt_peers rt) (peer_list fl' @ ?rest)"
    using h tally_open [of "rt_peers (pg_rt pg)" ?rest] by (auto simp: same_or_fresh_def)
  then have "tally (rt_peers (rollback (fl_got fl') rt)) ?rest"
    using h tally_close by (auto simp: rollback_handles peer_list_def split: option.splits)
  moreover have "tally (rt_subs (rollback (fl_got fl') rt)) (map snd (ls @ on_screen (pg_state pg)))"
    using assms(1) h unfolding accounted_def by (auto simp: rollback_handles elim!: tally_perm)
  ultimately show ?thesis
    using assms(1) en
    by (simp add: fly_on_def res accounted_def held_def in_flight_def land_handles land_state del: reducer.simps)
qed

lemma lands_accounted:
  assumes "accounted ls pg" and i: "entry_at (pg_flights pg) i = Some fl"
    and res: "resume env fl (pg_rt pg) = (Some (Started m), fl', rt)"
  shows "accounted (ls @ (case pg_state pg of Creating _ \<Rightarrow> [] | _ \<Rightarrow> [(peer m, subscription m)])) (fly_on i env fl pg)"
proof -
  obtain as bs where en: "entries (pg_flights pg) = as @ fl # bs" "entries ((pg_flights pg)[i := None]) = as @ bs"
    using entries_update [OF i] by blast
  with assms(1) have "recorded fl" by (simp add: accounted_def)
  note h = resume_handles [OF res this, simplified]
  let ?s = "pg_state pg" and ?flying = "concat (map peer_list (as @ bs))"
  let ?scr = "on_screen (dispatch (MEETING_STARTED m) ?s)"
    and ?new = "case ?s of Creating _ \<Rightarrow> [] | _ \<Rightarrow> [(peer m, subscription m)]"
  have "tally (rt_peers rt) (peer m # ?flying @ map fst (on_screen ?s @ ls))"
    using assms(1) h unfolding accounted_def held_def in_flight_def en by (auto elim!: tally_perm)
  moreover have "mset (peer m # ?flying @ map fst (on_screen ?s @ ls)) = mset (?flying @ map fst ?scr @ map fst (ls @ ?new))"
    unfolding started_screen by (cases ?s) simp_all
  ultimately have peers: "tally (rt_peers rt) (?flying @ map fst ?scr @ map fst (ls @ ?new))" by (rule tally_perm)
  have "tally (rt_subs (pg_rt pg)) (map snd (on_screen ?s @ ls))" using assms(1) by (simp add: accounted_def)
  from tally_open [OF this] h have "tally (rt_subs rt) (subscription m # map snd (on_screen ?s @ ls))" by simp
  moreover have "mset (subscription m # map snd (on_screen ?s @ ls)) = mset (map snd (?scr @ ls @ ?new))"
    unfolding started_screen by (cases ?s) simp_all
  ultimately have subs: "tally (rt_subs rt) (map snd (?scr @ ls @ ?new))" by (rule tally_perm)
  let ?next = "fly_on i env fl pg"
  have nxt: "rt_peers (pg_rt ?next) = rt_peers rt" "rt_subs (pg_rt ?next) = rt_subs rt"
    "pg_flights ?next = (pg_flights pg)[i := None]" "pg_state ?next = dispatch (MEETING_STARTED m) ?s"
    using resume_state [OF res] by (simp_all add: fly_on_def res land_handles land_state del: reducer.simps)
  have "list_all recorded (entries (pg_flights ?next))" using assms(1) by (simp add: nxt accounted_def en)
  with peers subs show ?thesis
    unfolding accounted_def held_def in_flight_def nxt en by simp
qed

lemma fly_accounted:
  assumes "accounted ls pg" and i: "entry_at (pg_flights pg) i = Some fl"
  shows "accounted (ls @ lost (FlightResumed i env) pg) (fly_on i env fl pg)"
proof -
  obtain r fl' rt where res: "resume env fl (pg_rt pg) = (r, fl', rt)" by (cases "resume env fl (pg_rt pg)") auto
  note lost = lost_def drops_def late_def i res
  show ?thesis
  proof (cases r)
    case None
    with goes_accounted [OF assms] res show ?thesis by (simp add: lost)
  next
    case (Some x)
    show ?thesis
    proof (cases x)
      case (Started m)
      with Some lands_accounted [OF assms] res show ?thesis by (simp add: lost)
    next
      case (Threw e)
      with Some fails_accounted [OF assms] res show ?thesis by (simp add: lost)
    next
      case Waiting
      with Some res resume_not_waiting show ?thesis by blast
    qed
  qed
qed

lemma step_accounted:
  assumes "accounted ls pg" and "clean e pg"
  shows "accounted (ls @ lost e pg) (page_step e pg)"
proof (cases "(\<exists>who. e = IdentityResolved who) \<or> (\<exists>i env. e = FlightResumed i env) \<or> (\<exists>i faults. e = EndSettled i faults)")
  case True
  then consider who where "e = IdentityResolved who" | i env where "e = FlightResumed i env"
    | i faults where "e = EndSettled i faults" by blast
  then show ?thesis
  proof cases
    case 1
    with identity_accounted [OF assms(1), of who] show ?thesis by (simp add: lost_def drops_def late_def)
  next
    case (2 i env)
    with assms(1) fly_accounted [OF assms(1), of i _ env] show ?thesis
      by (cases "entry_at (pg_flights pg) i") (simp_all add: lost_def drops_def late_def)
  next
    case (3 i faults)
    with assms(1) end_accounted [OF assms(1)] show ?thesis
      by (cases "entry_at (pg_endings pg) i") (simp_all add: lost_def drops_def late_def)
  qed
next
  case False
  then have "lost e pg = []" by (cases e) (simp_all add: lost_def drops_def late_def)
  moreover have "accounted ls (page_step e pg)"
  proof (cases e pg rule: page_step_cases)
    case (acts as)
    with run_act_accounted [OF assms(1), of e as] False show ?thesis by simp
  next
    case (submits pl checked f)
    with submit_accounted [OF assms(1)] show ?thesis by simp
  next
    case (begins faults p m)
    from assms(2) begins(1) show ?thesis
      unfolding begins(3) by (intro begin_accounted [OF assms(1) begins(2)]) (simp_all add: clean_def)
  qed (use False assms(1) in \<open>simp_all add: accounted_def held_def\<close>)
  ultimately show ?thesis by simp
qed

lemma run_accounted:
  "accounted ls pg \<Longrightarrow> all_allowed clean es pg \<Longrightarrow> accounted (ls @ losses es pg) (run page_step es pg)"
proof (induction es arbitrary: ls pg)
  case (Cons e es)
  with Cons.IH [of "ls @ lost e pg" "page_step e pg"] step_accounted [of ls pg e] show ?case by simp
qed simp

lemma mount_accounted: "accounted [] (mount_page st)"
  by (simp add: accounted_def mount_page_def a_runtime_def held_def in_flight_def tally_Nil)

text \<open>C3. Every open handle is accounted for, on every history of the page in which the clean-up calls
  of \<open>endMeeting\<close> do not throw, however starts, ends and changes of identity cross: the open peer
  connections are those of the starts in flight and of the meeting on screen, each held once, and
  those lost; the open subscriptions are that of the meeting on screen and those lost; and a pair is lost
  exactly by a start that succeeds when the page has left the creating screen, or with a meeting that
  a change of identity, a failing start or the settling end of another meeting takes off the screen.\<close>

theorem page_leaks_exactly:
  fixes es st
  assumes "all_allowed clean es (mount_page st)"
  defines "pg \<equiv> run page_step es (mount_page st)" and "ls \<equiv> losses es (mount_page st)"
  shows "opens (rt_peers (pg_rt pg)) = set (held pg) \<union> set (map fst ls)
    \<and> opens (rt_subs (pg_rt pg)) = set (map snd (on_screen (pg_state pg))) \<union> set (map snd ls)
    \<and> distinct (held pg @ map fst ls) \<and> distinct (map snd (on_screen (pg_state pg) @ ls))"
proof -
  have "accounted ls pg" using run_accounted [OF mount_accounted assms(1)] by (simp add: pg_def ls_def)
  then show ?thesis by (auto simp: accounted_def tally_def)
qed

text \<open>Two of these crossings in the page's own terms: when an earlier meeting's end settles, or another start
  fails, the meeting on screen is taken off and its connection and subscription stay open.\<close>

lemma crossed_end:
  assumes "pg_state pg = ActiveHost p m" and "entry_at (pg_endings pg) i = Some m'"
  shows "pg_state (page_step (EndSettled i faults) pg) = fresh_form p DEFAULT_RAG_ID
    \<and> lost (EndSettled i faults) pg = [(peer m, subscription m)]"
  using assms by (simp add: lost_def drops_def late_def DEFAULT_RAG_ID_def)

lemma crossed_failure:
  assumes "pg_state pg = ActiveHost p m" and "entry_at (pg_flights pg) i = Some fl"
    and "resume env fl (pg_rt pg) = (Some (Threw e), fl', rt)"
  shows "pg_state (page_step (FlightResumed i env) pg) = HostError (Some p) (error_message e)
    \<and> lost (FlightResumed i env) pg = [(peer m, subscription m)]"
  using assms resume_state [OF assms(3)] by (simp add: lost_def drops_def late_def fly_on_def land_state)

text \<open>A start that lands after the identity was resolved anew.\<close>

definition a_late_start :: "page_event list" where
  "a_late_start = a_submission @ replicate 5 (FlightResumed 0 an_env) @ [IdentityResolved (Some LOCAL_PRINCIPAL), FlightResumed 0 an_env]"

theorem page_leaks_exactly_witness:
  "held (run page_step a_late_start (mount_page a_storage)) = []
   \<and> opens (rt_peers (pg_rt (run page_step a_late_start (mount_page a_storage)))) = {0}"
proof -
  let ?pg = "run page_step a_late_start (mount_page a_storage)"
  have "all_allowed clean a_late_start (mount_page a_storage)"
    by (simp add: a_late_start_def a_submission_def numeral_eq_Suc clean_def)
  from page_leaks_exactly [OF this]
  have "opens (rt_peers (pg_rt ?pg)) = set (held ?pg) \<union> set (map fst (losses a_late_start (mount_page a_storage)))" by blast
  moreover have "losses a_late_start (mount_page a_storage) = [(0, 0)]" "held ?pg = []"
    by (simp_all add: a_late_start_def page_eval numeral_eq_Suc lost_def drops_def late_def held_def in_flight_def)
  ultimately show ?thesis by simp
qed

end
