(* ===== verification/Host_Page_Media.thy ===== *)
theory Host_Page_Media
  imports Host_Page_Account
begin

section \<open>Accounting for capture sessions\<close>

text \<open>
  The companion of Host_Page_Account for the devices: on every history in which the mixing graph can be
  built, every live device track and every open audio context belongs to a capture session that a start
  in flight, the meeting on screen or an ending holds, or to one that was lost. The store is shared by
  all the meetings of the page, and the calls of several of them may cross.
\<close>

subsection \<open>Who holds a capture session\<close>

definition capture_list :: "attempt \<Rightarrow> CaptureSession list" where
  "capture_list got = (case at_capture got of None \<Rightarrow> [] | Some c \<Rightarrow> [c])"

definition captures_flying :: "flight option list \<Rightarrow> CaptureSession list" where
  "captures_flying fls = concat (map (\<lambda>fl. capture_list (fl_got fl)) (entries fls))"

fun capture_shown :: "HostState \<Rightarrow> CaptureSession list" where
  "capture_shown (ActiveHost _ m) = [capture m]"
| "capture_shown _ = []"

definition captures_ending :: "ActiveMeeting option list \<Rightarrow> CaptureSession list" where
  "captures_ending es = map capture (entries es)"

definition captures_held :: "page \<Rightarrow> CaptureSession list" where
  "captures_held pg = captures_flying (pg_flights pg) @ capture_shown (pg_state pg) @ captures_ending (pg_endings pg)"

lemma captures_flying_update:
  assumes "entry_at fls i = Some fl"
  shows "\<exists>as bs. captures_flying fls = as @ capture_list (fl_got fl) @ bs \<and> captures_flying (fls[i := None]) = as @ bs
    \<and> (\<forall>y. captures_flying (fls[i := Some y]) = as @ capture_list (fl_got y) @ bs)"
proof -
  let ?f = "\<lambda>fl. capture_list (fl_got fl)"
  obtain as bs where "entries fls = as @ fl # bs" "entries (fls[i := None]) = as @ bs"
    "\<forall>y. entries (fls[i := Some y]) = as @ y # bs"
    using entries_update [OF assms] by blast
  then show ?thesis
    by (intro exI [of _ "concat (map ?f as)"] exI [of _ "concat (map ?f bs)"]) (simp add: captures_flying_def)
qed

fun phase_capture :: "phase \<Rightarrow> CaptureSession option" where
  "phase_capture AwaitCapture = None"
| "phase_capture (AwaitCreate c) = Some c"
| "phase_capture (AwaitOffer c _ _) = Some c"
| "phase_capture (AwaitIce c _ _) = Some c"
| "phase_capture (AwaitNegotiate c _ _ _) = Some c"
| "phase_capture (AwaitRemote c _ _) = Some c"

definition noted :: "flight \<Rightarrow> bool" where
  "noted fl \<longleftrightarrow> at_capture (fl_got fl) = phase_capture (fl_phase fl)"

text \<open>What a resumption and a rollback do to the devices.\<close>

lemma resume_devices:
  assumes "resume env fl rt = (r, fl', rt')" and "noted fl" and "pl_graph (env_platform env) = None"
    and "settled (capture_list (fl_got fl) @ cs) (rt_media rt)"
  shows "settled (capture_list (fl_got fl') @ cs) (rt_media rt')" "r = None \<Longrightarrow> noted fl'"
    "r = Some (Started m) \<Longrightarrow> capture_list (fl_got fl') = [capture m]"
proof -
  have "settled (capture_list (fl_got fl') @ cs) (rt_media rt') \<and> (r = None \<longrightarrow> noted fl')
      \<and> (r = Some (Started m) \<longrightarrow> capture_list (fl_got fl') = [capture m])"
  proof (cases "fl_phase fl")
    case AwaitCapture
    obtain x media where st: "start (env_platform env) \<lparr>cr_mode = fl_mode fl, cr_audioConstraints = None\<rparr> (rt_media rt) = (x, media)"
      by fastforce
    from assms(2,4) AwaitCapture have cs: "settled cs (rt_media rt)" "at_capture (fl_got fl) = None"
      by (simp_all add: noted_def capture_list_def)
    show ?thesis
    proof (cases x)
      case (Inl e)
      from settled_start_fails [OF st [unfolded Inl] assms(3) cs(1)] Inl st assms(1) AwaitCapture cs(2) show ?thesis
        by (auto simp: resume_def capture_list_def)
    next
      case (Inr c)
      from settled_start [OF st [unfolded Inr] cs(1)] Inr st assms(1) AwaitCapture show ?thesis
        by (auto simp: resume_def Let_def capture_list_def noted_def split: if_splits)
    qed
  qed (use assms in \<open>auto simp: resume_def Let_def served_def noted_def capture_list_def
      split: prod.splits sum.splits option.splits if_splits\<close>)
  then show "settled (capture_list (fl_got fl') @ cs) (rt_media rt')" "r = None \<Longrightarrow> noted fl'"
    "r = Some (Started m) \<Longrightarrow> capture_list (fl_got fl') = [capture m]" by blast+
qed

lemma rollback_devices:
  "settled (capture_list got @ cs) (rt_media rt) \<Longrightarrow> settled cs (rt_media (rollback got rt))"
  using settled_stop
  by (auto simp: rollback_def Let_def capture_list_def unsubscribe_rt_def close_peer_def stop_capture_def split: option.splits)

subsection \<open>Lost sessions\<close>

definition late_capture :: "page_event \<Rightarrow> page \<Rightarrow> CaptureSession list" where
  "late_capture e pg = (case e of
     FlightResumed i env \<Rightarrow> (case entry_at (pg_flights pg) i of
       Some fl \<Rightarrow> (case fst (resume env fl (pg_rt pg)) of
           Some (Started m) \<Rightarrow> (case pg_state pg of Creating _ \<Rightarrow> [] | _ \<Rightarrow> [capture m])
         | _ \<Rightarrow> [])
     | None \<Rightarrow> [])
   | _ \<Rightarrow> [])"

definition unstopped :: "page_event \<Rightarrow> page \<Rightarrow> CaptureSession list" where
  "unstopped e pg = (case e of
     EndSettled i faults \<Rightarrow> (case entry_at (pg_endings pg) i of
       Some m \<Rightarrow> if fault_stop faults then [capture m] else []
     | None \<Rightarrow> [])
   | _ \<Rightarrow> [])"

definition lost_captures :: "page_event \<Rightarrow> page \<Rightarrow> CaptureSession list" where
  "lost_captures e pg = (if drops e pg then capture_shown (pg_state pg) else []) @ late_capture e pg @ unstopped e pg"

fun capture_losses :: "page_event list \<Rightarrow> page \<Rightarrow> CaptureSession list" where
  "capture_losses [] pg = []"
| "capture_losses (e # es) pg = lost_captures e pg @ capture_losses es (page_step e pg)"

definition graph_built :: "page_event \<Rightarrow> page \<Rightarrow> bool" where
  "graph_built e pg = (case e of FlightResumed _ env \<Rightarrow> pl_graph (env_platform env) = None | _ \<Rightarrow> True)"

definition devices_ok :: "CaptureSession list \<Rightarrow> page \<Rightarrow> bool" where
  "devices_ok ls pg \<longleftrightarrow> list_all noted (entries (pg_flights pg))
     \<and> settled (captures_held pg @ ls) (rt_media (pg_rt pg))"

lemmas lost_captures_eval = lost_captures_def drops_def late_capture_def unstopped_def

subsection \<open>Every step keeps the account\<close>

lemma started_shown: "capture_shown (dispatch (MEETING_STARTED m) s)
    = (case s of Creating _ \<Rightarrow> [capture m] | _ \<Rightarrow> capture_shown s)"
  by (cases s) (simp_all add: start_meeting_def)

lemma leaving_shown [simp]:
  "capture_shown (dispatch (AUTH_RESOLVED who) s) = []" "capture_shown (dispatch (ERROR_RAISED msg) s) = []"
  "capture_shown (dispatch MEETING_ENDED s) = []" "capture_shown (dispatch END_REQUESTED (ActiveHost p m)) = []"
  by (cases who; simp add: fresh_form_def) (cases s; simp add: fresh_form_def Let_def)+

lemma page_action_shown:
  assumes "page_action e cs a" and "\<forall>who. e \<noteq> IdentityResolved who"
  shows "capture_shown (dispatch a s) = capture_shown s"
  using assms by (cases a; cases s) (auto simp: page_action_def fresh_form_def split: form_field.splits option.splits if_splits)

lemma act_devices:
  assumes "devices_ok ls pg" and "capture_shown (dispatch a (pg_state pg)) = capture_shown (pg_state pg)"
  shows "devices_ok ls (act a pg)"
  using assms by (simp add: devices_ok_def captures_held_def del: reducer.simps)

lemma run_act_devices:
  "devices_ok ls pg \<Longrightarrow> list_all (page_action e (pg_corpora pg)) as \<Longrightarrow> \<forall>who. e \<noteq> IdentityResolved who
   \<Longrightarrow> devices_ok ls (run act as pg)"
proof (induction as arbitrary: pg)
  case (Cons a as)
  have "devices_ok ls (act a pg)"
    using Cons.prems by (intro act_devices page_action_shown [of e "pg_corpora pg"]) simp_all
  with Cons.IH [of "act a pg"] Cons.prems show ?case by simp
qed simp

lemma identity_devices:
  assumes "devices_ok ls pg"
  shows "devices_ok (ls @ capture_shown (pg_state pg)) (act (AUTH_RESOLVED who) pg)"
proof -
  have "settled (captures_flying (pg_flights pg) @ captures_ending (pg_endings pg) @ ls @ capture_shown (pg_state pg))
      (rt_media (pg_rt pg))"
    using assms unfolding devices_ok_def captures_held_def by (auto elim!: captures.account_perm)
  with assms show ?thesis by (simp add: devices_ok_def captures_held_def del: reducer.simps)
qed

lemma submit_devices:
  assumes "devices_ok ls pg" and "pg_state pg = Ready f"
  shows "devices_ok ls (submit pl checked f pg)"
  using assms
  by (simp add: submit_def Let_def devices_ok_def captures_held_def captures_flying_def capture_list_def launch_def noted_def)

lemma end_begin_devices: "rt_media (end_begin faults m rt) = rt_media rt"
  by (simp add: end_begin_def attempt_step_def Let_def unsubscribe_rt_def close_peer_def)

lemma begin_devices:
  assumes "devices_ok ls pg" and "pg_state pg = ActiveHost p m"
  shows "devices_ok ls (with_rt (end_begin faults m (pg_rt pg)) (pg\<lparr>pg_endings := pg_endings pg @ [Some m]\<rparr>))"
proof -
  have "settled (captures_flying (pg_flights pg) @ (captures_ending (pg_endings pg) @ [capture m]) @ ls) (rt_media (pg_rt pg))"
    using assms unfolding devices_ok_def captures_held_def by (auto elim!: captures.account_perm)
  with assms show ?thesis
    by (simp add: devices_ok_def captures_held_def captures_ending_def end_begin_devices)
qed

lemma end_finish_devices:
  "rt_media (end_finish faults m rt) = (if fault_stop faults then rt_media rt else stop (capture m) (rt_media rt))"
  by (simp add: end_finish_def attempt_step_def Let_def stop_capture_def served_def)

lemma end_devices:
  assumes "devices_ok ls pg" and i: "entry_at (pg_endings pg) i = Some m"
  shows "devices_ok (ls @ lost_captures (EndSettled i faults) pg)
    (with_rt (end_finish faults m (pg_rt pg)) (pg\<lparr>pg_endings := (pg_endings pg)[i := None]\<rparr>))"
proof -
  obtain as bs where en: "entries (pg_endings pg) = as @ m # bs" "entries ((pg_endings pg)[i := None]) = as @ bs"
    using entries_update [OF i] by blast
  let ?rest = "captures_flying (pg_flights pg) @ map capture (as @ bs) @ ls @ capture_shown (pg_state pg)"
  have all: "settled (capture m # ?rest) (rt_media (pg_rt pg))"
    using assms(1) unfolding devices_ok_def captures_held_def captures_ending_def en by (auto elim!: captures.account_perm)
  have "settled (captures_flying (pg_flights pg) @ map capture (as @ bs) @ ls @ lost_captures (EndSettled i faults) pg)
      (rt_media (end_finish faults m (pg_rt pg)))"
  proof (cases "fault_stop faults")
    case True
    with captures.account_perm [OF all, of "?rest @ [capture m]"] show ?thesis
      by (simp add: end_finish_devices lost_captures_eval i)
  next
    case False
    with captures.account_release [OF all] show ?thesis by (simp add: end_finish_devices lost_captures_eval i)
  qed
  with assms(1) show ?thesis
    by (simp add: devices_ok_def captures_held_def captures_ending_def en del: reducer.simps)
qed

lemma land_devices:
  "rt_media (land (Started m) got rt) = rt_media rt" "rt_media (land (Threw e) got rt) = rt_media (rollback got rt)"
  by (simp_all add: land_def)

text \<open>A flight that goes on, one that fails, and one that lands.\<close>

lemma flight_devices:
  assumes "devices_ok ls pg" and i: "entry_at (pg_flights pg) i = Some fl"
    and res: "resume env fl (pg_rt pg) = (r, fl', rt)" and g: "pl_graph (env_platform env) = None"
  obtains as bs where "captures_flying ((pg_flights pg)[i := None]) = as @ bs"
    "\<forall>y. captures_flying ((pg_flights pg)[i := Some y]) = as @ capture_list (fl_got y) @ bs"
    "settled (capture_list (fl_got fl') @ as @ bs @ capture_shown (pg_state pg) @ captures_ending (pg_endings pg) @ ls) (rt_media rt)"
    "list_all noted (entries ((pg_flights pg)[i := None]))"
    "r = None \<Longrightarrow> list_all noted (entries ((pg_flights pg)[i := Some fl']))"
    "\<forall>m. r = Some (Started m) \<longrightarrow> capture_list (fl_got fl') = [capture m]"
proof -
  obtain as bs where fs: "captures_flying (pg_flights pg) = as @ capture_list (fl_got fl) @ bs"
    "captures_flying ((pg_flights pg)[i := None]) = as @ bs"
    "\<forall>y. captures_flying ((pg_flights pg)[i := Some y]) = as @ capture_list (fl_got y) @ bs"
    using captures_flying_update [OF i] by blast
  obtain cs ds where en: "entries (pg_flights pg) = cs @ fl # ds" "entries ((pg_flights pg)[i := None]) = cs @ ds"
    "entries ((pg_flights pg)[i := Some fl']) = cs @ fl' # ds"
    using entries_update [OF i] by blast
  with assms(1) have noted: "noted fl" "list_all noted cs" "list_all noted ds" by (simp_all add: devices_ok_def)
  let ?rest = "as @ bs @ capture_shown (pg_state pg) @ captures_ending (pg_endings pg) @ ls"
  have "settled (capture_list (fl_got fl) @ ?rest) (rt_media (pg_rt pg))"
    using assms(1) unfolding devices_ok_def captures_held_def fs by (auto elim!: captures.account_perm)
  note d = resume_devices [OF res noted(1) g this]
  show thesis by (rule that [OF fs(2,3) d(1)]) (use noted en d(2,3) in simp_all)
qed

lemma goes_devices:
  assumes "devices_ok ls pg" and i: "entry_at (pg_flights pg) i = Some fl"
    and res: "resume env fl (pg_rt pg) = (None, fl', rt)" and g: "pl_graph (env_platform env) = None"
  shows "devices_ok ls (fly_on i env fl pg)"
proof -
  from flight_devices [OF assms] obtain as bs where f:
    "\<forall>y. captures_flying ((pg_flights pg)[i := Some y]) = as @ capture_list (fl_got y) @ bs"
    "settled (capture_list (fl_got fl') @ as @ bs @ capture_shown (pg_state pg) @ captures_ending (pg_endings pg) @ ls) (rt_media rt)"
    "list_all noted (entries ((pg_flights pg)[i := Some fl']))" by metis
  from captures.account_perm [OF f(2), of "as @ capture_list (fl_got fl') @ bs @ capture_shown (pg_state pg)
      @ captures_ending (pg_endings pg) @ ls"] f(1,3) resume_state [OF res]
  show ?thesis by (simp add: fly_on_def res devices_ok_def captures_held_def)
qed

lemma fails_devices:
  assumes "devices_ok ls pg" and i: "entry_at (pg_flights pg) i = Some fl"
    and res: "resume env fl (pg_rt pg) = (Some (Threw e), fl', rt)" and g: "pl_graph (env_platform env) = None"
  shows "devices_ok (ls @ capture_shown (pg_state pg)) (fly_on i env fl pg)"
proof -
  from flight_devices [OF assms] obtain as bs where f:
    "captures_flying ((pg_flights pg)[i := None]) = as @ bs"
    "settled (capture_list (fl_got fl') @ as @ bs @ capture_shown (pg_state pg) @ captures_ending (pg_endings pg) @ ls) (rt_media rt)"
    "list_all noted (entries ((pg_flights pg)[i := None]))" by metis
  from captures.account_perm [OF rollback_devices [OF f(2)], of "as @ bs @ captures_ending (pg_endings pg) @ ls
      @ capture_shown (pg_state pg)"] f(1,3)
  show ?thesis
    by (simp add: fly_on_def res devices_ok_def captures_held_def land_devices land_state del: reducer.simps)
qed

lemma lands_devices:
  assumes "devices_ok ls pg" and i: "entry_at (pg_flights pg) i = Some fl"
    and res: "resume env fl (pg_rt pg) = (Some (Started m), fl', rt)" and g: "pl_graph (env_platform env) = None"
  shows "devices_ok (ls @ (case pg_state pg of Creating _ \<Rightarrow> [] | _ \<Rightarrow> [capture m])) (fly_on i env fl pg)"
proof -
  let ?s = "pg_state pg" and ?new = "case pg_state pg of Creating _ \<Rightarrow> [] | _ \<Rightarrow> [capture m]"
  from flight_devices [OF assms] obtain as bs where f:
    "captures_flying ((pg_flights pg)[i := None]) = as @ bs"
    "settled ([capture m] @ as @ bs @ capture_shown ?s @ captures_ending (pg_endings pg) @ ls) (rt_media rt)"
    "list_all noted (entries ((pg_flights pg)[i := None]))" by metis
  have "settled (as @ bs @ capture_shown (dispatch (MEETING_STARTED m) ?s) @ captures_ending (pg_endings pg) @ ls @ ?new) (rt_media rt)"
    by (rule captures.account_perm [OF f(2)]) (unfold started_shown, cases ?s, simp_all)
  with f(1,3) resume_state [OF res] show ?thesis
    by (simp add: fly_on_def res devices_ok_def captures_held_def land_devices land_state del: reducer.simps)
qed

lemma fly_devices:
  assumes "devices_ok ls pg" and i: "entry_at (pg_flights pg) i = Some fl" and g: "pl_graph (env_platform env) = None"
  shows "devices_ok (ls @ lost_captures (FlightResumed i env) pg) (fly_on i env fl pg)"
proof -
  obtain r fl' rt where res: "resume env fl (pg_rt pg) = (r, fl', rt)" by (cases "resume env fl (pg_rt pg)") auto
  note lost = lost_captures_eval i res
  show ?thesis
  proof (cases r)
    case None
    with goes_devices [OF assms(1,2) _ g] res show ?thesis by (simp add: lost)
  next
    case (Some x)
    show ?thesis
    proof (cases x)
      case (Started m)
      with Some lands_devices [OF assms(1,2) _ g] res show ?thesis by (simp add: lost)
    next
      case (Threw e)
      with Some fails_devices [OF assms(1,2) _ g] res show ?thesis by (simp add: lost)
    next
      case Waiting
      with Some res resume_not_waiting show ?thesis by blast
    qed
  qed
qed

lemma step_devices:
  assumes "devices_ok ls pg" and "graph_built e pg"
  shows "devices_ok (ls @ lost_captures e pg) (page_step e pg)"
proof (cases "(\<exists>who. e = IdentityResolved who) \<or> (\<exists>i env. e = FlightResumed i env) \<or> (\<exists>i faults. e = EndSettled i faults)")
  case True
  then consider who where "e = IdentityResolved who" | i env where "e = FlightResumed i env"
    | i faults where "e = EndSettled i faults" by blast
  then show ?thesis
  proof cases
    case 1
    with identity_devices [OF assms(1), of who] show ?thesis by (simp add: lost_captures_eval)
  next
    case (2 i env)
    with assms fly_devices [OF assms(1), of i _ env] show ?thesis
      by (cases "entry_at (pg_flights pg) i") (simp_all add: graph_built_def, simp add: lost_captures_eval)
  next
    case (3 i faults)
    with assms(1) end_devices [OF assms(1), of i _ faults] show ?thesis
      by (cases "entry_at (pg_endings pg) i") (simp_all, simp add: lost_captures_eval)
  qed
next
  case False
  then have "lost_captures e pg = []" by (cases e) (simp_all add: lost_captures_eval)
  moreover have "devices_ok ls (page_step e pg)"
  proof (cases e pg rule: page_step_cases)
    case (acts as)
    with run_act_devices [OF assms(1), of e as] False show ?thesis by simp
  next
    case (submits pl checked f)
    with submit_devices [OF assms(1)] show ?thesis by simp
  next
    case (begins faults p m)
    with begin_devices [OF assms(1)] show ?thesis by simp
  qed (use False assms(1) in \<open>simp_all add: devices_ok_def captures_held_def\<close>)
  ultimately show ?thesis by simp
qed

lemma run_devices:
  "devices_ok ls pg \<Longrightarrow> all_allowed graph_built es pg \<Longrightarrow> devices_ok (ls @ capture_losses es pg) (run page_step es pg)"
proof (induction es arbitrary: ls pg)
  case (Cons e es)
  with Cons.IH [of "ls @ lost_captures e pg" "page_step e pg"] step_devices [of ls pg e] show ?case by simp
qed simp

lemma mount_devices: "devices_ok [] (mount_page st)"
  by (simp add: devices_ok_def mount_page_def a_runtime_def captures_held_def captures_flying_def captures_ending_def settled_Nil)

text \<open>C4. Every live device is accounted for, on every history of the page in which the mixing graph can
  be built, however the starts, ends and identities of several meetings cross: the live device tracks
  are those of the capture sessions that the starts in flight, the meeting on screen and the endings
  hold, and of those lost; the open audio contexts likewise, each belonging to one session; and stopping
  the sessions of this list, each once, leaves no track live and no context open. A session is
  lost exactly by a start that succeeds when the page has left the creating screen, with a meeting that a
  change of identity, a failing start or the settling end of another meeting takes off the screen, or by
  an end whose call to stop throws.\<close>

theorem page_devices_exactly:
  fixes es st
  assumes "all_allowed graph_built es (mount_page st)"
  defines "pg \<equiv> run page_step es (mount_page st)"
  defines "cs \<equiv> captures_held pg @ capture_losses es (mount_page st)" and "media \<equiv> rt_media (pg_rt pg)"
  shows "live media = (\<Union>c \<in> set cs. tracks_of c media) \<and> open_ctxs media = set (all_contexts cs media)
    \<and> distinct cs \<and> distinct (all_contexts cs media)
    \<and> live (fold stop cs media) = {} \<and> open_ctxs (fold stop cs media) = {}"
proof -
  have "settled cs media"
    using run_devices [OF mount_devices assms(1)] by (simp add: devices_ok_def pg_def cs_def media_def)
  moreover from captures.release_all [of cs "[]" media] this have "settled [] (fold stop cs media)" by simp
  ultimately show ?thesis
    using settled_devices [of cs media] settled_devices(1,2) [of "[]" "fold stop cs media"] distinct_parts by auto
qed

text \<open>With two meetings the sessions stay apart: a track belongs to one of them only.\<close>

lemma devices_apart:
  assumes "all_allowed graph_built es (mount_page st)"
    and "captures_held (run page_step es (mount_page st)) @ capture_losses es (mount_page st) = as @ c # bs"
    and "d \<in> set (as @ bs)"
  shows "tracks_of c (rt_media (pg_rt (run page_step es (mount_page st))))
    \<inter> tracks_of d (rt_media (pg_rt (run page_step es (mount_page st)))) = {}"
  using run_devices [OF mount_devices assms(1)] settled_apart [OF _ assms(3), of c] assms(2) by (simp add: devices_ok_def)

text \<open>The crossings in the page's own terms: the capture of the meeting taken off the screen is lost.\<close>

lemma crossed_end_capture:
  assumes "pg_state pg = ActiveHost p m" and "entry_at (pg_endings pg) i = Some m'" and "\<not> fault_stop faults"
  shows "lost_captures (EndSettled i faults) pg = [capture m]"
  using assms by (simp add: lost_captures_eval)

theorem page_devices_exactly_witness:
  "\<exists>c. capture_losses a_late_start (mount_page a_storage) = [c]
    \<and> captures_held (run page_step a_late_start (mount_page a_storage)) = []
    \<and> live (rt_media (pg_rt (run page_step a_late_start (mount_page a_storage))))
        = tracks_of c (rt_media (pg_rt (run page_step a_late_start (mount_page a_storage))))"
proof -
  let ?pg = "run page_step a_late_start (mount_page a_storage)"
  have "all_allowed graph_built a_late_start (mount_page a_storage)"
    by (simp add: a_late_start_def a_submission_def numeral_eq_Suc graph_built_def an_env_def a_platform_def)
  note exact = page_devices_exactly [OF this]
  have "capture_losses a_late_start (mount_page a_storage) = [SingleSession 0]" "captures_held ?pg = []"
    by (simp_all add: a_late_start_def page_eval numeral_eq_Suc lost_captures_eval captures_held_def
        captures_flying_def captures_ending_def)
  with exact show ?thesis by auto
qed

end
