(* ===== verification/Host_Page_Live.thy ===== *)
theory Host_Page_Live
  imports Host_Page_Leak
begin

section \<open>The host page makes progress\<close>

text \<open>
  The creating and the ending screen have no control that leaves them: the page gets out of them only
  by its own asynchronous code. Here it is shown that it does, from every reachable page, if the code
  is resumed and ICE gathering completes.
\<close>

subsection \<open>A flight lands\<close>

definition ice_completes :: "meeting_env \<Rightarrow> bool" where
  "ice_completes env \<longleftrightarrow> IceComplete \<in> set (fst (env_ice env) # snd (env_ice env))"

lemma resume_advances:
  assumes "resume env fl rt = (None, fl', rt')" and "ice_completes env"
  shows "rank (fl_phase fl') < rank (fl_phase fl)"
  using assms wait_ice_iff [of "fst (env_ice env)" "snd (env_ice env)"]
  by (cases "fl_phase fl")
    (auto simp: resume_def Let_def ice_completes_def split: prod.splits sum.splits option.splits if_splits)

definition settled :: "HostState \<Rightarrow> bool" where
  "settled s \<longleftrightarrow> (case s of ActiveHost _ _ \<Rightarrow> True | HostError _ _ \<Rightarrow> True | _ \<Rightarrow> False)"

lemma entry_at_update:
  "entry_at xs i = Some x \<Longrightarrow> entry_at (xs[i := y]) i = y"
  by (simp add: entry_at_def split: if_splits)

lemma land_settles: "rt_state rt = Creating f \<Longrightarrow> r \<noteq> Waiting \<Longrightarrow> settled (rt_state (land r got rt))"
  by (cases r) (simp_all add: land_state settled_def)

lemma no_flight_run: "entry_at (pg_flights pg) i = None \<Longrightarrow> run page_step (replicate n (FlightResumed i env)) pg = pg"
  by (induction n) simp_all

text \<open>One resumption of a flight: it goes on at a later await, or it lands.\<close>

lemma fly_on_goes:
  assumes "resume env fl (pg_rt pg) = (None, fl', rt)" and "entry_at (pg_flights pg) i = Some fl"
  shows "entry_at (pg_flights (fly_on i env fl pg)) i = Some fl'" "pg_state (fly_on i env fl pg) = pg_state pg"
  using assms(1) entry_at_update [OF assms(2), of "Some fl'"] resume_state [OF assms(1)] by (simp_all add: fly_on_def)

lemma fly_on_lands:
  assumes "resume env fl (pg_rt pg) = (Some x, fl', rt)" and "entry_at (pg_flights pg) i = Some fl"
    and "pg_state pg = Creating f"
  shows "entry_at (pg_flights (fly_on i env fl pg)) i = None" "settled (pg_state (fly_on i env fl pg))"
proof -
  have "rt_state rt = Creating f" using resume_state [OF assms(1)] assms(3) by simp
  moreover have "x \<noteq> Waiting" by (rule resume_not_waiting [OF assms(1)])
  ultimately have "settled (rt_state (land x (fl_got fl') rt))" by (rule land_settles)
  then show "entry_at (pg_flights (fly_on i env fl pg)) i = None" "settled (pg_state (fly_on i env fl pg))"
    using assms(1) entry_at_update [OF assms(2), of None] by (simp_all add: fly_on_def)
qed

lemma flight_settles:
  assumes "ice_completes env"
  shows "entry_at (pg_flights pg) i = Some fl \<Longrightarrow> pg_state pg = Creating f \<Longrightarrow> rank (fl_phase fl) \<le> n \<Longrightarrow>
    settled (pg_state (run page_step (replicate n (FlightResumed i env)) pg))"
proof (induction n arbitrary: pg fl)
  case 0
  with rank_pos [of "fl_phase fl"] have False by linarith
  then show ?case by blast
next
  case (Suc n)
  have step: "run page_step (replicate (Suc n) (FlightResumed i env)) pg
      = run page_step (replicate n (FlightResumed i env)) (fly_on i env fl pg)"
    by (simp only: replicate_Suc run.simps page_step.simps Suc.prems(1) option.simps)
  obtain r fl' rt where res: "resume env fl (pg_rt pg) = (r, fl', rt)" by (cases "resume env fl (pg_rt pg)") blast
  show ?case
  proof (cases r)
    case None
    note went = fly_on_goes [OF res [unfolded None] Suc.prems(1)]
    have "rank (fl_phase fl') \<le> n"
      using resume_advances [OF res [unfolded None] assms] Suc.prems(3) by linarith
    with Suc.IH [OF went(1)] went(2) Suc.prems(2) show ?thesis unfolding step by metis
  next
    case (Some x)
    note landed = fly_on_lands [OF res [unfolded Some] Suc.prems(1,2)]
    show ?thesis unfolding step no_flight_run [OF landed(1)] by (rule landed(2))
  qed
qed

lemma entries_entry: "entries xs = x # ys \<Longrightarrow> \<exists>i. entry_at xs i = Some x"
proof (induction xs)
  case (Cons y xs)
  show ?case
  proof (cases y)
    case None
    with Cons obtain i where "entry_at xs i = Some x" by auto
    then have "entry_at (y # xs) (Suc i) = Some x" by (simp add: entry_at_def split: if_splits)
    then show ?thesis by blast
  next
    case (Some z)
    with Cons.prems have "entry_at (y # xs) 0 = Some x" by (simp add: entry_at_def)
    then show ?thesis by blast
  qed
qed simp

text \<open>C8. The page is never stuck: from every page reached on a calm history, if a meeting is being
  created then six resumptions of the start in flight, one per await, end in the meeting or in the
  error screen, provided ICE gathering completes, whatever the gateway and the devices answer; and if
  a meeting is being ended then the settling of its last calls ends in the form, whichever of them
  fail.\<close>

theorem page_progress:
  assumes "reached calm pg" and "ice_completes env"
  shows "case pg_state pg of
     Creating _ \<Rightarrow> \<exists>i. settled (pg_state (run page_step (replicate 6 (FlightResumed i env)) pg))
   | EndingHost p _ \<Rightarrow> \<exists>i. pg_state (page_step (EndSettled i faults) pg) = fresh_form p DEFAULT_RAG_ID
   | _ \<Rightarrow> True"
proof (cases "pg_state pg")
  case (Creating f)
  with page_owner.reached_inv [OF assms(1)] obtain fl where "entries (pg_flights pg) = [fl]" by auto
  then obtain i where i: "entry_at (pg_flights pg) i = Some fl" by (auto dest: entries_entry)
  have "rank (fl_phase fl) \<le> 6" by (cases "fl_phase fl") simp_all
  with flight_settles [OF assms(2) i Creating] Creating show ?thesis by auto
next
  case (EndingHost p m)
  with page_owner.reached_inv [OF assms(1)] have "entries (pg_endings pg) = [m]" by auto
  then obtain i where "entry_at (pg_endings pg) i = Some m" by (auto dest: entries_entry)
  then have "pg_state (page_step (EndSettled i faults) pg) = fresh_form p DEFAULT_RAG_ID"
    using EndingHost by (simp add: DEFAULT_RAG_ID_def)
  with EndingHost show ?thesis by auto
qed simp_all

theorem page_progress_witness:
  "\<exists>i. settled (pg_state (run page_step (replicate 6 (FlightResumed i an_env)) (run page_step a_submission (mount_page a_storage))))"
proof -
  let ?pg = "run page_step a_submission (mount_page a_storage)"
  have "reached calm ?pg"
    by (rule reached_run [OF reached.mounted]) (simp add: page_eval numeral_eq_Suc calm_def resting_def)
  moreover have "ice_completes an_env" by (simp add: ice_completes_def an_env_def)
  moreover obtain f where "pg_state ?pg = Creating f" by (simp add: page_eval numeral_eq_Suc)
  ultimately show ?thesis using page_progress [of ?pg an_env] by simp
qed

end
