(* ===== verification/Engine_Messages.thy ===== *)
theory Engine_Messages
  imports Gateway_Messages
begin

section \<open>The engine service and the service descriptors (gen/proto/aegis/v1/aegis_pb.ts)\<close>

text \<open>
  The rest of the generated client: the messages of the \<open>Engine\<close> service, which the gateway exchanges
  with the engine, and the descriptors of both services: of every method its kind and the schemas of its
  input and output. A \<open>bytes\<close> field is a list of bytes, a \<open>oneof\<close> a datatype with a constructor for each
  member and one for no member, an enum value its number. No code of the frontend opens an engine
  stream; what the descriptors say of the frontend's own requests is stated at the end.
\<close>

subsection \<open>Messages\<close>

record EngineListCorporaRequest =
  elq_tenantId :: jsstring

record EngineListCorporaResponse =
  elr_corpora :: "CorpusInfo list"

record AudioFormat =
  af_sampleRateHz :: "32 word"
  af_channels :: "32 word"
  af_bitsPerSample :: "32 word"

record SessionStart =
  ss_sessionId :: jsstring
  ss_tenantId :: jsstring
  ss_ragId :: jsstring
  ss_audioFormat :: "AudioFormat option"
  ss_languageHints :: "jsstring list"
  ss_estimatedBytes :: "64 word"

record PcmChunk =
  pcm_pcm :: "8 word list"
  pcm_chunkId :: "64 word"
  pcm_offsetMs :: "64 word"

record OpusChunk =
  opus_opus :: "8 word list"
  opus_chunkId :: "64 word"
  opus_offsetMs :: "64 word"

definition CONTROL_KIND :: "(int \<times> string) list" where
  "CONTROL_KIND = [(0, ''UNSPECIFIED''), (1, ''PAUSE''), (2, ''RESUME''), (3, ''END_STREAM'')]"

record ControlEvent =
  ce_kind :: int

datatype IngestPayload =
    IngestSessionStart SessionStart
  | IngestPcm PcmChunk
  | IngestControl ControlEvent
  | IngestOpus OpusChunk
  | IngestUndefined

record IngestMessage =
  im_payload :: IngestPayload

record EngineStatus =
  es_budgetBytesUsed :: "64 word"
  es_budgetBytesTotal :: "64 word"
  es_activeSessions :: "32 word"

record EngineError =
  ee_code :: "32 word"
  ee_message :: jsstring

datatype EgressPayload =
    EgressTranscript ProtoTranscriptSegment
  | EgressHint ProtoPrompterHint
  | EgressStatus EngineStatus
  | EgressError EngineError
  | EgressUndefined

record EgressMessage =
  eg_payload :: EgressPayload

datatype HealthRequest = HealthRequest

record HealthResponse =
  hr_ready :: bool
  hr_info :: "EngineInfo option"
  hr_status :: "EngineStatus option"

subsection \<open>Schemas and services\<close>

datatype schema =
    CreateMeetingRequestSchema | CreateMeetingResponseSchema
  | NegotiateWebRTCRequestSchema | NegotiateWebRTCResponseSchema
  | JoinAsViewerRequestSchema | ViewerEventSchema
  | EndMeetingRequestSchema | EndMeetingResponseSchema
  | SendOfficerHintRequestSchema | SendOfficerHintResponseSchema
  | ListCorporaRequestSchema | ListCorporaResponseSchema
  | EngineListCorporaRequestSchema | EngineListCorporaResponseSchema
  | IngestMessageSchema | EgressMessageSchema
  | HealthRequestSchema | HealthResponseSchema

datatype methodKind = Unary | ServerStreaming | BidiStreaming

record service_method =
  sm_kind :: methodKind
  sm_input :: schema
  sm_output :: schema

definition Gateway_service :: "(string \<times> service_method) list" where
  "Gateway_service =
     [(''createMeeting'', \<lparr>sm_kind = Unary, sm_input = CreateMeetingRequestSchema, sm_output = CreateMeetingResponseSchema\<rparr>),
      (''negotiateWebRTC'', \<lparr>sm_kind = Unary, sm_input = NegotiateWebRTCRequestSchema, sm_output = NegotiateWebRTCResponseSchema\<rparr>),
      (''joinAsViewer'', \<lparr>sm_kind = ServerStreaming, sm_input = JoinAsViewerRequestSchema, sm_output = ViewerEventSchema\<rparr>),
      (''endMeeting'', \<lparr>sm_kind = Unary, sm_input = EndMeetingRequestSchema, sm_output = EndMeetingResponseSchema\<rparr>),
      (''sendOfficerHint'', \<lparr>sm_kind = Unary, sm_input = SendOfficerHintRequestSchema, sm_output = SendOfficerHintResponseSchema\<rparr>),
      (''listCorpora'', \<lparr>sm_kind = Unary, sm_input = ListCorporaRequestSchema, sm_output = ListCorporaResponseSchema\<rparr>)]"

definition Engine_service :: "(string \<times> service_method) list" where
  "Engine_service =
     [(''streamTranscribe'', \<lparr>sm_kind = BidiStreaming, sm_input = IngestMessageSchema, sm_output = EgressMessageSchema\<rparr>),
      (''health'', \<lparr>sm_kind = Unary, sm_input = HealthRequestSchema, sm_output = HealthResponseSchema\<rparr>),
      (''listCorpora'', \<lparr>sm_kind = Unary, sm_input = EngineListCorporaRequestSchema, sm_output = EngineListCorporaResponseSchema\<rparr>)]"

text \<open>A request message belongs to one method only, the two services share no message type of their
  own, and the only streaming method a client of the gateway can call is the one that delivers viewer
  events: the transports of \<open>Transcript_Stream\<close> are its only clients, every other request of the
  frontend has one answer.\<close>

lemma service_methods:
  "distinct (map (sm_input \<circ> snd) (Gateway_service @ Engine_service))
   \<and> distinct (map fst Gateway_service) \<and> distinct (map fst Engine_service)
   \<and> map fst (filter (\<lambda>(_, m). sm_kind m \<noteq> Unary) Gateway_service) = [''joinAsViewer'']
   \<and> map_option sm_output (map_of Gateway_service ''joinAsViewer'') = Some ViewerEventSchema"
  by (simp add: Gateway_service_def Engine_service_def)

end
