(* ===== verification/Routing.thy ===== *)
theory Routing
  imports Viewer Host_Panels
begin

section \<open>Routes, the viewer's screen and the invite link (main.tsx, App.tsx, ViewerPage.tsx)\<close>

text \<open>
  The route table of main.tsx, the shell of App.tsx, what the viewer page takes from its URL, and what
  it renders. The matching of a path against the table is react-router's; it is a parameter, with its
  documented behaviour on the viewer's dynamic segment as a hypothesis. Together with the host's link
  and the WebSocket URL this closes the circle: whoever opens the link joins the host's meeting.
\<close>

subsection \<open>The routes\<close>

datatype element = AppElement | HostElement | ViewerElement | CallbackElement

datatype route = Route jsstring element "route list"

definition router :: "route list" where
  "router = [Route (lit ''/'') AppElement
     [Route (lit ''host'') HostElement [],
      Route (lit ''view/:sessionId'') ViewerElement [],
      Route (lit ''auth/callback'') CallbackElement []]]"

type_synonym matcher = "route list \<Rightarrow> jsstring \<Rightarrow> (element list \<times> (jsstring \<times> jsstring) list) option"

text \<open>App.tsx: the landing text on the root path, the matched child elsewhere.\<close>

datatype app_view = Landing | Outlet

definition App :: "jsstring \<Rightarrow> app_view" where
  "App pathname = (if pathname = lit ''/'' then Landing else Outlet)"

subsection \<open>The viewer page's screen\<close>

text \<open>\<open>if (!sessionId || !token)\<close>: a missing or empty parameter.\<close>

definition viewer_request :: "jsstring option \<Rightarrow> jsstring option \<Rightarrow> JoinRequest option" where
  "viewer_request sid token = (case (sid, token) of
     (Some s, Some t) \<Rightarrow> if s = [] \<or> t = [] then None else Some \<lparr>jr_sessionId = s, jr_viewerToken = t\<rparr>
   | _ \<Rightarrow> None)"

datatype banner = NoBanner | ReconnectingBanner "jsstring option" | EndedBanner "jsstring option"

text \<open>\<open>x && ...\<close> on a string that may be null: shown if it is there and not empty.\<close>

definition shown_text :: "jsstring option \<Rightarrow> jsstring option" where
  "shown_text s = (case s of Some t \<Rightarrow> if t = [] then None else Some t | None \<Rightarrow> None)"

definition viewer_banner :: "viewer \<Rightarrow> banner" where
  "viewer_banner v = (case v_state v of
     HostReconnecting \<Rightarrow> ReconnectingBanner (shown_text (v_stateReason v))
   | Ended \<Rightarrow> EndedBanner (shown_text (v_stateReason v))
   | _ \<Rightarrow> NoBanner)"

record viewer_screen =
  vs_session :: jsstring
  vs_banner :: banner
  vs_lines :: "shown_line list"
  vs_waiting :: bool
  vs_hint :: "(HintStyleSpec \<times> bool \<times> jsstring) option"
  vs_error :: "jsstring option"

datatype viewer_view = MissingLink | ViewerScreen viewer_screen

definition viewer_render :: "JoinRequest option \<Rightarrow> viewer \<Rightarrow> viewer_view" where
  "viewer_render req v = (case req of
     None \<Rightarrow> MissingLink
   | Some r \<Rightarrow> ViewerScreen \<lparr>vs_session = jr_sessionId r, vs_banner = viewer_banner v, vs_lines = v_transcript v,
       vs_waiting = (length (v_transcript v) = 0), vs_hint = map_option HintDisplay (v_hint v),
       vs_error = shown_text (v_error v)\<rparr>)"

subsection \<open>Opening a link\<close>

definition pathname :: "jsstring \<Rightarrow> jsstring \<Rightarrow> jsstring" where
  "pathname origin url = takeWhile (\<lambda>c. c \<noteq> 0x3F \<and> c \<noteq> 0x23) (drop (length origin) url)"

text \<open>The request of the viewer page at a URL of this origin, if the URL leads to the viewer page: the
  route's parameter and the first \<open>token\<close> of the query.\<close>

definition open_link :: "matcher \<Rightarrow> jsstring \<Rightarrow> jsstring \<Rightarrow> JoinRequest option" where
  "open_link matches origin url = (case matches router (pathname origin url) of
     Some (els, params) \<Rightarrow>
       if App (pathname origin url) = Outlet \<and> els = [AppElement, ViewerElement]
       then viewer_request (map_of params (lit ''sessionId'')) (map_of (query_params url) (lit ''token''))
       else None
   | None \<Rightarrow> None)"

text \<open>Documented behaviour of the router on the route \<open>view/:sessionId\<close>: one non-empty segment of
  characters that need no decoding is bound to the parameter.\<close>

definition url_safe :: "jsstring \<Rightarrow> bool" where
  "url_safe s \<longleftrightarrow> s \<noteq> [] \<and> list_all (\<lambda>c. uri_unreserved (unat c)) s"

definition binds_session :: "matcher \<Rightarrow> jsstring \<Rightarrow> bool" where
  "binds_session matches seg \<longleftrightarrow> matches router (lit ''/view/'' @ seg)
     = Some ([AppElement, ViewerElement], [(lit ''sessionId'', seg)])"

lemma url_safe_well_formed: "url_safe s \<Longrightarrow> well_formed s"
proof -
  have "list_all (\<lambda>c. uri_unreserved (unat c)) s \<Longrightarrow> codepoints s \<noteq> None"
  proof (induction s)
    case (Cons c s)
    then have "unat c < 0x80" by (auto simp: uri_unreserved_def)
    then have "\<not> is_low c" "\<not> is_high c" by (auto simp: is_low_def is_high_def word_le_nat_alt)
    with Cons show ?case by simp
  qed simp
  then show "url_safe s \<Longrightarrow> well_formed s" by (simp add: url_safe_def well_formed_def)
qed

lemma url_safe_delim: "url_safe s \<Longrightarrow> 0x3F \<notin> set s \<and> 0x23 \<notin> set s"
  by (auto simp: url_safe_def list_all_iff uri_unreserved_def)

lemma pathname_link:
  assumes "url_safe sid"
  shows "pathname origin (origin @ lit ''/view/'' @ sid @ 0x3F # rest) = lit ''/view/'' @ sid"
proof -
  have "list_all (\<lambda>c. c \<noteq> 0x3F \<and> c \<noteq> 0x23) (lit ''/view/'' @ sid)"
    using url_safe_delim [OF assms] by (auto simp: list_all_iff js_eval)
  then have "takeWhile (\<lambda>c. c \<noteq> 0x3F \<and> c \<noteq> 0x23) ((lit ''/view/'' @ sid) @ 0x3F # rest) = lit ''/view/'' @ sid"
    by (subst takeWhile_append2) (auto simp: list_all_iff)
  then show ?thesis by (simp add: pathname_def)
qed


definition a_matcher :: matcher where
  "a_matcher rs path =
     (if take 6 path = lit ''/view/'' \<and> 0x2F \<notin> set (drop 6 path) \<and> drop 6 path \<noteq> []
      then Some ([AppElement, ViewerElement], [(lit ''sessionId'', drop 6 path)]) else None)"


end
