(* ===== verification/Shared_Stream.thy ===== *)
theory Shared_Stream
  imports Viewer Host_Reducer
begin

section \<open>The host's page and a viewer's page on one stream\<close>

text \<open>
  Both pages consume the events of one session: the host's reducer replaces a line by a later version
  of the same segment, the viewer's page pushes every segment into its sentence stitcher. Here the two
  are related on the events that reach both.
\<close>

text \<open>The stream events in a viewer's history.\<close>

fun delivered :: "viewer_event list \<Rightarrow> ViewerEvent list" where
  "delivered [] = []"
| "delivered (StreamEvent e # es) = e # delivered es"
| "delivered (_ # es) = delivered es"

fun spoken :: "ViewerEvent list \<Rightarrow> TranscriptEvent list" where
  "spoken [] = []"
| "spoken (VTranscript t # es) = t # spoken es"
| "spoken (_ # es) = spoken es"

lemma transcripts_spoken: "transcripts hs = spoken (map snd hs)"
  by (induction hs rule: transcripts.induct) simp_all

lemma accepted_text:
  "concat (map (\<lambda>seg. trim (si_text seg)) (accepted (stitch_inputs es)))
   = concat (map (\<lambda>t. trim (te_text t)) (spoken (delivered es)))"
  by (induction es rule: stitch_inputs.induct) simp_all

text \<open>What the viewer's page has made of its stream, up to blanks: all versions of all segments.\<close>

definition viewer_text :: "TranscriptStreamProvider \<Rightarrow> viewer_event list \<Rightarrow> jsstring" where
  "viewer_text p es = strip_blanks (stitched_text (v_stitcher (run (viewer_step p) es (viewer_mount p))))"

lemma viewer_spells:
  "viewer_text p es = strip_blanks (concat (map (\<lambda>t. trim (te_text t)) (spoken (delivered es))))"
  by (simp add: viewer_text_def viewer_stitcher stitched_content accepted_text)

lemma host_lines:
  "run dispatch (MEETING_STARTED started # stream_actions hs) (Creating f) = ActiveHost p m \<Longrightarrow>
     transcript m = map line_of (keep_last te_segmentId (transcripts hs))"
  by (auto simp: stream_fold foldl_upsert_lines start_meeting_def)

text \<open>The viewer's page does not look at \<open>isFinal\<close> or at the segment id: an interim version and the final
  version that supersedes it on the host's page are both in the viewer's text.\<close>

lemma viewer_repeats_interims:
  assumes "te_segmentId a = te_segmentId b" and "delivered es = [VTranscript a, VTranscript b]"
    and "run dispatch (MEETING_STARTED started # stream_actions [(now, VTranscript a), (now, VTranscript b)]) (Creating f)
      = ActiveHost q m"
  shows "map tl_text (transcript m) = [te_text b]"
    and "viewer_text p es = strip_blanks (trim (te_text a) @ trim (te_text b))"
  using host_lines [OF assms(3)] assms(1,2) by (simp_all add: viewer_spells line_of_def)

text \<open>C22. Host and viewers read the same words. If every segment of the stream comes in one version,
  then whatever else happens on either page and however time passes, the viewer's lines with the
  fragment still waiting and the host's transcript spell the same text, up to blanks.\<close>

theorem host_viewer_agree:
  assumes "delivered es = map snd hs" and "distinct (map te_segmentId (transcripts hs))"
    and "run dispatch (MEETING_STARTED started # stream_actions hs) (Creating f) = ActiveHost q m"
  shows "strip_blanks (stitched_text (v_stitcher (run (viewer_step p) es (viewer_mount p))))
    = strip_blanks (concat (map (\<lambda>l. trim (tl_text l)) (transcript m)))"
proof -
  have "transcript m = map line_of (spoken (delivered es))"
    using host_lines [OF assms(3)] assms(1,2) by (simp add: keep_last_distinct transcripts_spoken)
  then show ?thesis
    using viewer_spells [of p es] by (simp add: viewer_text_def line_of_def comp_def)
qed

text \<open>Two segments, heard by both.\<close>

definition a_line :: "jsnum \<Rightarrow> string \<Rightarrow> ViewerEvent" where
  "a_line i s = VTranscript \<lparr>te_sequence = i, te_emittedAtMs = 0, te_segmentId = i, te_speakerLabel = [],
     te_text = lit s, te_isFinal = True, te_isQuestion = False\<rparr>"

theorem host_viewer_agree_witness:
  "strip_blanks (stitched_text (v_stitcher (run (viewer_step (WebSocketTranscriptStreamProvider \<lparr>ws_endpoint = []\<rparr>))
     [StreamEvent (a_line 1 ''so''), TimeElapsed 1, HintDismissed, StreamEvent (a_line 2 ''it goes.'')]
     (viewer_mount (WebSocketTranscriptStreamProvider \<lparr>ws_endpoint = []\<rparr>))))) = lit ''soitgoes.''"
proof -
  let ?es = "[StreamEvent (a_line 1 ''so''), TimeElapsed 1, HintDismissed, StreamEvent (a_line 2 ''it goes.'')]"
  let ?hs = "[(0, a_line 1 ''so''), (0, a_line 2 ''it goes.'')]"
  let ?s = "run dispatch (MEETING_STARTED a_meeting # stream_actions ?hs) (Creating a_form)"
  have stream: "delivered ?es = map snd ?hs" "distinct (map te_segmentId (transcripts ?hs))" by (simp_all add: a_line_def)
  obtain q m where m: "?s = ActiveHost q m" by (simp add: stream_fold start_meeting_def)
  have "transcript m = map line_of (transcripts ?hs)"
    using host_lines [OF m] stream(2) by (simp add: keep_last_distinct)
  then have words: "map (\<lambda>l. trim (tl_text l)) (transcript m) = [trim (lit ''so''), trim (lit ''it goes.'')]"
    by (simp add: a_line_def line_of_def)
  have "strip_blanks (trim (lit ''so'') @ trim (lit ''it goes.'')) = lit ''soitgoes.''" by code_simp
  with host_viewer_agree [OF stream m, of "WebSocketTranscriptStreamProvider \<lparr>ws_endpoint = []\<rparr>"] show ?thesis
    by (simp only: words concat.simps append_Nil2)
qed

end
