(* ===== verification/Viewer_Session.thy ===== *)
theory Viewer_Session
  imports Shared_Stream
begin

section \<open>The viewer page over its WebSocket subscriptions\<close>

text \<open>
  The viewer page (pages/Viewer/ViewerPage.tsx) composed with the Local-mode transport
  (WebSocketTranscriptStreamProvider.ts): the page's state and the sockets of all the subscriptions its
  effect has made, the current one last. What a socket calls back reaches the page; a visible change of
  the page makes the effect unsubscribe the current socket and subscribe anew, while the sockets given
  up go on closing. Subscribing again builds the same URL, so every subscription starts out alike.
\<close>

subsection \<open>State and steps\<close>

record viewer_session =
  vs_view :: viewer
  vs_sockets :: "ws_subscription list"

fun deliver :: "viewer \<Rightarrow> callback \<Rightarrow> viewer" where
  "deliver v (OnEvent e) = viewer_handle (StreamEvent e) v"
| "deliver v (OnError msg) = viewer_handle (StreamError msg) v"
| "deliver v (OnClose r) = viewer_handle (StreamClosed (Some r)) v"

text \<open>The sockets after a render: as they are, or with the effect run again.\<close>

definition resubscribed :: "ws_subscription \<Rightarrow> viewer \<Rightarrow> viewer \<Rightarrow> ws_subscription list \<Rightarrow> ws_subscription list" where
  "resubscribed fresh old new ws =
     (if v_opened new = v_opened old then ws else butlast ws @ [ws_unsubscribe (last ws), fresh])"

definition session_mount :: "WebSocketConfig \<Rightarrow> ws_subscription \<Rightarrow> viewer_session" where
  "session_mount cfg fresh = \<lparr>vs_view = viewer_mount (WebSocketTranscriptStreamProvider cfg), vs_sockets = [fresh]\<rparr>"

datatype session_event =
    SocketDid nat ws_event
  | PageElapsed nat
  | PageDismissed

definition socket_event :: "nat \<Rightarrow> ws_event \<Rightarrow> viewer_session \<Rightarrow> bool" where
  "socket_event i e s \<longleftrightarrow> i < length (vs_sockets s) \<and> e \<noteq> WsUnsubscribe"

fun session_step ::
  "(8 word list \<Rightarrow> decode_error + ProtoViewerEvent) \<Rightarrow> WebSocketConfig \<Rightarrow> ws_subscription
   \<Rightarrow> session_event \<Rightarrow> viewer_session \<Rightarrow> viewer_session" where
  "session_step fb cfg fresh (SocketDid i e) s =
     (if socket_event i e s
      then let old = vs_view s; w = vs_sockets s ! i;
               new = settle (WebSocketTranscriptStreamProvider cfg) old (foldl deliver old (new_callbacks fb e w))
           in \<lparr>vs_view = new, vs_sockets = resubscribed fresh old new ((vs_sockets s)[i := ws_step fb e w])\<rparr>
      else s)"
| "session_step fb cfg fresh (PageElapsed dt) s =
     (let new = viewer_step (WebSocketTranscriptStreamProvider cfg) (TimeElapsed dt) (vs_view s)
      in \<lparr>vs_view = new, vs_sockets = resubscribed fresh (vs_view s) new (vs_sockets s)\<rparr>)"
| "session_step fb cfg fresh PageDismissed s =
     (let new = viewer_step (WebSocketTranscriptStreamProvider cfg) HintDismissed (vs_view s)
      in \<lparr>vs_view = new, vs_sockets = resubscribed fresh (vs_view s) new (vs_sockets s)\<rparr>)"

subsection \<open>The page\<close>

lemma settle_opened:
  assumes "v_effect_push v = Some (v_render v)"
  shows "v_opened (settle (WebSocketTranscriptStreamProvider cfg) old v)
    = v_opened v + (if appearance v = appearance old then 0 else 1)"
  using assms by (simp add: settle_def Let_def rerender_appearance rerender_counts)

lemma settle_window: "window_ok v \<Longrightarrow> window_ok (settle p old v)"
  by (simp add: settle_def Let_def rerender_window)

lemma deliver_window: "window_ok v \<Longrightarrow> window_ok (deliver v c)"
  by (cases c) (simp_all add: handle_window del: viewer_handle.simps)

lemma deliver_opened: "v_opened (deliver v c) = v_opened v"
  by (cases c) (simp_all add: handle_counts del: viewer_handle.simps)

lemma delivers:
  "window_ok v \<Longrightarrow> window_ok (foldl deliver v cs)" "v_opened (foldl deliver v cs) = v_opened v"
  by (induction cs arbitrary: v) (simp_all add: deliver_window deliver_opened)

subsection \<open>The invariant\<close>

definition session_ok :: "ws_subscription \<Rightarrow> viewer_session \<Rightarrow> bool" where
  "session_ok fresh s \<longleftrightarrow> ws_started fresh \<and> window_ok (vs_view s) \<and> vs_sockets s \<noteq> []
     \<and> length (vs_sockets s) = v_opened (vs_view s) \<and> list_all ws_ok (vs_sockets s)
     \<and> list_all ws_closed (butlast (vs_sockets s))"

text \<open>A render keeps it.\<close>

lemma rendered_ok:
  fixes cfg old
  assumes "ws_started fresh" and "window_ok v" and "v_opened v = length ws" and "v_opened old = length ws" and "ws \<noteq> []"
    and "list_all ws_ok ws" and "list_all ws_closed (butlast ws)"
  defines "new \<equiv> settle (WebSocketTranscriptStreamProvider cfg) old v"
  shows "session_ok fresh \<lparr>vs_view = new, vs_sockets = resubscribed fresh old new ws\<rparr>"
proof -
  have opened: "v_opened new = length ws + (if appearance v = appearance old then 0 else 1)"
    using assms(2,3) settle_opened [of v cfg old] by (simp add: new_def window_ok_def)
  have "ws_ok (last ws)" "list_all ws_ok (butlast ws)"
    using assms(5,6) by (auto simp: list_all_iff dest: in_set_butlastD)
  then have "ws_ok (ws_unsubscribe (last ws))" "ws_closed (ws_unsubscribe (last ws))" "list_all ws_ok (butlast ws)"
    using websocket.over_unsub websocket.ok_unsub by blast+
  moreover have "length (butlast ws) + 2 = Suc (length ws)" using assms(5) by (cases ws) simp_all
  moreover have "butlast (butlast ws @ [ws_unsubscribe (last ws), fresh]) = butlast ws @ [ws_unsubscribe (last ws)]"
    by (simp add: butlast_append)
  moreover have "window_ok new" using assms(2) by (simp add: new_def settle_window)
  ultimately show ?thesis
    using assms(1,3-7) opened ws_started_ok [OF assms(1)]
    by (auto simp: session_ok_def resubscribed_def)
qed

lemma socket_update_ok:
  assumes "list_all ws_ok ws" and "list_all ws_closed (butlast ws)" and "i < length ws"
  shows "list_all ws_ok (ws[i := ws_step fb e (ws ! i)])" "list_all ws_closed (butlast (ws[i := ws_step fb e (ws ! i)]))"
proof -
  have "ws_ok (ws ! i)" using assms(1,3) by (simp add: list_all_length)
  then show "list_all ws_ok (ws[i := ws_step fb e (ws ! i)])"
    using assms(1) ws_step_ok [of "ws ! i" fb e] set_update_subset_insert [of ws i "ws_step fb e (ws ! i)"]
    by (auto simp: list_all_iff)
  show "list_all ws_closed (butlast (ws[i := ws_step fb e (ws ! i)]))"
    using assms(2,3) ws_step_over [OF \<open>ws_ok (ws ! i)\<close>]
    by (auto simp: list_all_length nth_list_update nth_butlast)
qed

interpretation session: machine "session_step fb cfg fresh"
  "\<lambda>s. ws_started fresh \<and> s = session_mount cfg fresh" "session_ok fresh" for fb cfg fresh
proof unfold_locales
  fix s
  assume "ws_started fresh \<and> s = session_mount cfg fresh"
  moreover have "window_ok (viewer_mount (WebSocketTranscriptStreamProvider cfg))" by (rule viewer.start_inv) simp
  ultimately show "session_ok fresh s"
    by (auto simp: session_ok_def session_mount_def ws_started_ok viewer_mount_def viewer_effect_def)
next
  fix s e
  assume ok: "session_ok fresh s"
  then have parts: "ws_started fresh" "window_ok (vs_view s)" "v_opened (vs_view s) = length (vs_sockets s)"
    "vs_sockets s \<noteq> []" "list_all ws_ok (vs_sockets s)" "list_all ws_closed (butlast (vs_sockets s))"
    by (simp_all add: session_ok_def)
  have page: "session_ok fresh \<lparr>vs_view = viewer_step (WebSocketTranscriptStreamProvider cfg) x (vs_view s),
      vs_sockets = resubscribed fresh (vs_view s) (viewer_step (WebSocketTranscriptStreamProvider cfg) x (vs_view s)) (vs_sockets s)\<rparr>" for x
    unfolding viewer_step_def using parts by (intro rendered_ok) (simp_all add: handle_window handle_counts)
  show "session_ok fresh (session_step fb cfg fresh e s)"
  proof (cases e)
    case (SocketDid i x)
    show ?thesis
    proof (cases "socket_event i x s")
      case True
      then have "i < length (vs_sockets s)" by (simp add: socket_event_def)
      note socks = socket_update_ok [OF parts(5,6) this, of fb x]
      have "session_ok fresh (session_step fb cfg fresh (SocketDid i x) s)"
        unfolding session_step.simps if_P [OF True] Let_def
        using parts socks by (intro rendered_ok) (simp_all add: delivers)
      with SocketDid show ?thesis by simp
    qed (use SocketDid ok in simp)
  qed (use page in \<open>simp_all add: Let_def\<close>)
qed

subsection \<open>What the page has heard\<close>

text \<open>What an event of the session means to the page alone.\<close>

fun page_events :: "(8 word list \<Rightarrow> decode_error + ProtoViewerEvent) \<Rightarrow> session_event \<Rightarrow> viewer_session \<Rightarrow> viewer_event list" where
  "page_events fb (SocketDid i e) s =
     (if socket_event i e s then map StreamEvent (events_of (new_callbacks fb e (vs_sockets s ! i))) else [])"
| "page_events fb (PageElapsed dt) s = [TimeElapsed dt]"
| "page_events fb PageDismissed s = [HintDismissed]"

fun page_history ::
  "(8 word list \<Rightarrow> decode_error + ProtoViewerEvent) \<Rightarrow> WebSocketConfig \<Rightarrow> ws_subscription
   \<Rightarrow> session_event list \<Rightarrow> viewer_session \<Rightarrow> viewer_event list" where
  "page_history fb cfg fresh [] s = []"
| "page_history fb cfg fresh (e # es) s = page_events fb e s @ page_history fb cfg fresh es (session_step fb cfg fresh e s)"

lemma stitch_inputs_append [simp]: "stitch_inputs (es @ fs) = stitch_inputs es @ stitch_inputs fs"
  by (induction es rule: stitch_inputs.induct) simp_all

lemma deliver_stitcher:
  "v_stitcher (foldl deliver v cs) = run (stitcher_step default_options) (stitch_inputs (map StreamEvent (events_of cs))) (v_stitcher v)"
proof (induction cs arbitrary: v)
  case (Cons c cs)
  show ?case
  proof (cases c)
    case (OnEvent e)
    with Cons.IH show ?thesis by (cases e) (simp_all add: viewer_onEvent_def Let_def)
  qed (use Cons.IH in \<open>simp_all add: viewer_onError_def viewer_onClose_def\<close>)
qed simp

lemma session_stitcher:
  "v_stitcher (vs_view (session_step fb cfg fresh e s))
   = run (stitcher_step default_options) (stitch_inputs (page_events fb e s)) (v_stitcher (vs_view s))"
  by (cases e) (simp_all add: Let_def deliver_stitcher viewer_step_def)

lemma session_history:
  "v_stitcher (vs_view (run (session_step fb cfg fresh) es s))
   = run (stitcher_step default_options) (stitch_inputs (page_history fb cfg fresh es s)) (v_stitcher (vs_view s))"
  by (induction es arbitrary: s) (simp_all add: session_stitcher del: session_step.simps page_events.simps)


text \<open>A socket that was given up while it was still connecting is closed by the platform with an error
  event, and the handler of the error event does not look at the flag: the page shows the failure of a
  socket it no longer uses.\<close>

lemma stale_socket_error:
  assumes "i < length (vs_sockets s)" and "ws_ready (vs_sockets s ! i) = CLOSING" and "ws_closed (vs_sockets s ! i)"
  shows "v_error (vs_view (session_step fb cfg fresh (SocketDid i (WsClosed True code reason)) s))
    = Some (lit ''WebSocket error (Local mode transport)'')"
  using assms by (simp add: socket_event_def new_callbacks_def Let_def ws_defs viewer_onError_def)


end
