(* ===== verification/Host_Stream.thy ===== *)
theory Host_Stream
  imports Shared_Stream Host_Meeting
begin

section \<open>The host's own subscription (pages/Host/HostPage.tsx)\<close>

text \<open>
  During a meeting the host's page is a subscriber of its own session: from the frames of its WebSocket,
  through the transport, the callbacks of \<open>startMeeting\<close> and the reducer, to the transcript and the hint
  shelf. A step is one thing the socket does; what it calls back is dispatched at once. An error is only
  logged, and the page passes no \<open>onClose\<close>.
\<close>

fun host_callback :: "jsnum \<Rightarrow> callback \<Rightarrow> Action list" where
  "host_callback date_now (OnEvent e) = onEvent date_now e"
| "host_callback date_now (OnError msg) = []"
| "host_callback date_now (OnClose reason) = []"

fun event_time :: "ws_event \<Rightarrow> jsnum" where
  "event_time (WsMessage date_now d) = date_now"
| "event_time _ = 0"

definition host_socket_step ::
  "(8 word list \<Rightarrow> decode_error + ProtoViewerEvent) \<Rightarrow> ws_event \<Rightarrow> ws_subscription \<times> HostState \<Rightarrow> ws_subscription \<times> HostState" where
  "host_socket_step fb e ws =
     (ws_step fb e (fst ws),
      run dispatch (concat (map (host_callback (event_time e)) (new_callbacks fb e (fst ws)))) (snd ws))"

text \<open>What arrives: the decoded frames, with the time of their arrival, while the socket is open.\<close>

fun arrived :: "(8 word list \<Rightarrow> decode_error + ProtoViewerEvent) \<Rightarrow> ws_event list \<Rightarrow> ws_subscription \<Rightarrow> (jsnum \<times> ViewerEvent) list" where
  "arrived fb [] w = []"
| "arrived fb (e # es) w = (case e of
     WsMessage now d \<Rightarrow> if ws_ready w = OPEN then map (Pair now) (frame_event fb (now, d)) else [] | _ \<Rightarrow> [])
     @ arrived fb es (ws_step fb e w)"

lemma host_callbacks: "concat (map (host_callback now) cs) = stream_actions (map (Pair now) (events_of cs))"
  by (induction cs rule: events_of.induct) (simp_all add: stream_actions_def)

lemma stream_actions_append: "stream_actions (xs @ ys) = stream_actions xs @ stream_actions ys"
  by (simp add: stream_actions_def)

lemma host_socket_run:
  "run (host_socket_step fb) es (w, s) = (run (ws_step fb) es w, run dispatch (stream_actions (arrived fb es w)) s)"
proof (induction es arbitrary: w s)
  case Nil
  show ?case by (simp add: stream_actions_def)
next
  case (Cons e es)
  have "map (Pair (event_time e)) (events_of (new_callbacks fb e w)) = (case e of
      WsMessage now d \<Rightarrow> if ws_ready w = OPEN then map (Pair now) (frame_event fb (now, d)) else [] | _ \<Rightarrow> [])"
    by (cases e) (simp_all add: new_events)
  with Cons.IH show ?case
    by (simp add: host_socket_step_def host_callbacks stream_actions_append del: ws_step.simps)
qed

text \<open>A subscription that is over lets nothing arrive.\<close>

lemma arrived_over:
  assumes "ws_ok w" and "ws_closed w"
  shows "arrived fb es w = []"
  using assms
proof (induction es arbitrary: w)
  case (Cons e es)
  have "ws_ready w \<noteq> OPEN" using Cons.prems by (auto simp: ws_ok_def)
  then have "arrived fb (e # es) w = arrived fb es (ws_step fb e w)"
    by (cases e) (simp_all del: ws_step.simps)
  with Cons.IH [of "ws_step fb e w"] Cons.prems ws_step_ok ws_step_over show ?case by (simp del: arrived.simps)
qed simp

text \<open>C11. From the frames to the screen: from the start of a meeting, whatever its socket does, malformed
  and stray frames included, the page stays in the meeting, and its transcript is, for every segment,
  the last version among the frames that arrived while the socket was open, in the order of these last
  arrivals; and once the page has unsubscribed, nothing the socket still does changes it.\<close>

theorem host_reads_frames:
  fixes fb es f started fresh
  assumes "ws_subscribe reject cfg req = Inr fresh"
  defines "w \<equiv> run (ws_step fb) es fresh"
    and "s \<equiv> run (host_socket_step fb) es (fresh, dispatch (MEETING_STARTED started) (Creating f))"
  shows "(\<exists>m. s = (w, ActiveHost (cf_principal f) m)
      \<and> transcript m = map line_of (keep_last te_segmentId (spoken (map snd (arrived fb es fresh))))
      \<and> length (hints m) \<le> 5)
    \<and> snd (run (host_socket_step fb) fs (ws_unsubscribe w, snd s)) = snd s"
proof -
  have ok: "ws_ok w" unfolding w_def
    by (rule websocket.reach_inv) (use assms(1) in \<open>auto simp: ws_started_def\<close>)
  have "s = (w, run dispatch (MEETING_STARTED started # stream_actions (arrived fb es fresh)) (Creating f))"
    by (simp add: s_def w_def host_socket_run)
  moreover obtain m where m: "run dispatch (MEETING_STARTED started # stream_actions (arrived fb es fresh)) (Creating f)
      = ActiveHost (cf_principal f) m" and h: "length (hints m) \<le> 5"
    using foldl_upsert_window [of 4 hintId "hint_entries (arrived fb es fresh)"]
    by (simp add: stream_fold HINT_PANEL_SIZE_def start_meeting_def)
  ultimately have "s = (w, ActiveHost (cf_principal f) m)" by simp
  moreover have "snd (run (host_socket_step fb) fs (ws_unsubscribe w, snd s)) = snd s"
    using arrived_over [OF websocket.ok_unsub websocket.over_unsub, OF ok ok]
    by (simp add: host_socket_run stream_actions_def)
  ultimately show ?thesis using host_lines [OF m] h by (auto simp: transcripts_spoken)
qed

text \<open>A gateway that sends one line in two versions, and a stray text frame between them.\<close>

definition a_line_decoder :: "8 word list \<Rightarrow> decode_error + ProtoViewerEvent" where
  "a_line_decoder buf = Inr \<lparr>pv_sequence = 1, pv_emittedAt = None, pv_payload = PayloadTranscript
     \<lparr>pt_segmentId = 1, pt_speakerLabel = [], pt_startMs = 0, pt_endMs = 0, pt_text = (if buf = [] then lit ''h'' else lit ''hi''),
       pt_language = [], pt_isFinal = (buf \<noteq> []), pt_confidence = 0, pt_isQuestion = False\<rparr>\<rparr>"

theorem host_reads_frames_witness:
  "\<exists>m. snd (run (host_socket_step a_line_decoder)
       [WsOpened, WsMessage 5 (BinaryFrame []), WsMessage 6 (TextFrame []), WsMessage 7 (BinaryFrame [1])]
       (a_socket, dispatch (MEETING_STARTED a_meeting) (Creating a_form))) = ActiveHost LOCAL_PRINCIPAL m
     \<and> map tl_text (transcript m) = [lit ''hi'']"
proof -
  let ?es = "[WsOpened, WsMessage 5 (BinaryFrame []), WsMessage 6 (TextFrame []), WsMessage 7 (BinaryFrame [1])]"
  have "bigintToNumber 1 = 1" by (simp add: bigintToNumber_exact MAX_SAFE_INTEGER_def)
  then have words: "map te_text (keep_last te_segmentId (spoken (map snd (arrived a_line_decoder ?es a_socket)))) = [lit ''hi'']"
    by (simp add: a_socket_def a_line_decoder_def onmessage_frame frame_event_def decodeBinaryFrame_def timestampToMs_def Let_def)
  obtain m where run: "run (host_socket_step a_line_decoder) ?es (a_socket, dispatch (MEETING_STARTED a_meeting) (Creating a_form))
      = (run (ws_step a_line_decoder) ?es a_socket, ActiveHost (cf_principal a_form) m)"
    and m: "transcript m = map line_of (keep_last te_segmentId (spoken (map snd (arrived a_line_decoder ?es a_socket))))"
    using host_reads_frames [OF a_socket_subscribed, where fb = a_line_decoder and es = ?es and f = a_form
        and started = a_meeting and fs = "[]"] by blast
  have "cf_principal a_form = LOCAL_PRINCIPAL" by (simp add: a_form_def)
  moreover have "map tl_text (transcript m) = [lit ''hi'']" using words by (simp add: m line_of_def comp_def)
  ultimately show ?thesis unfolding run by simp
qed

end
