(* ===== verification/Platform_Ports.thy ===== *)
theory Platform_Ports
  imports Js_String
begin

section \<open>Notification and update ports (providers/NotificationProvider, providers/AutoUpdateProvider)\<close>

text \<open>
  The web implementations of two platform ports. The browser's permission and whether the constructor
  of a notification throws are parameters; the log lists the notifications shown.
\<close>

datatype NotificationPermissionState = Granted | Denied | DefaultPermission | Unsupported

datatype NotificationSeverity = InfoSeverity | WarningSeverity | ErrorSeverity

record NotificationRequest =
  nr_title :: jsstring
  nr_body :: "jsstring option"
  nr_severity :: "NotificationSeverity option"
  nr_tag :: "jsstring option"

record shown_notification =
  sn_title :: jsstring
  sn_silent :: bool
  sn_body :: "jsstring option"
  sn_tag :: "jsstring option"

text \<open>\<open>None\<close>: there is no \<open>Notification\<close>; otherwise its permission, and whether its constructor throws.\<close>

record notification_api =
  na_permission :: NotificationPermissionState
  na_throws :: bool

definition getPermission :: "notification_api option \<Rightarrow> NotificationPermissionState" where
  "getPermission api = (case api of None \<Rightarrow> Unsupported | Some a \<Rightarrow> na_permission a)"

definition requestPermission ::
  "(notification_api \<Rightarrow> NotificationPermissionState) \<Rightarrow> notification_api option \<Rightarrow> NotificationPermissionState" where
  "requestPermission prompt api = (case api of None \<Rightarrow> Unsupported | Some a \<Rightarrow> prompt a)"

definition show_notification ::
  "NotificationRequest \<Rightarrow> notification_api option \<Rightarrow> shown_notification list \<Rightarrow> bool \<times> shown_notification list" where
  "show_notification req api log =
     (if getPermission api \<noteq> Granted then (False, log)
      else case api of
        Some a \<Rightarrow> if na_throws a then (False, log)
          else (True, log @ [\<lparr>sn_title = nr_title req, sn_silent = (nr_severity req = Some InfoSeverity),
                              sn_body = nr_body req, sn_tag = nr_tag req\<rparr>])
      | None \<Rightarrow> (False, log))"

definition notifications_supported :: "notification_api option \<Rightarrow> bool" where
  "notifications_supported api \<longleftrightarrow> api \<noteq> None"

text \<open>\<open>show\<close> answers true exactly when one notification, the requested one, was shown, and needs the
  permission for it; no failure escapes.\<close>

lemma show_notification_spec:
  "case show_notification req api log of (ok, log') \<Rightarrow>
     (ok \<longleftrightarrow> (\<exists>n. log' = log @ [n] \<and> sn_title n = nr_title req \<and> sn_tag n = nr_tag req))
     \<and> (ok \<or> log' = log) \<and> (if ok then getPermission api = Granted \<and> notifications_supported api else True)"
  by (auto simp: show_notification_def getPermission_def notifications_supported_def split: option.splits)

record UpdateInfo =
  ui_version :: jsstring
  ui_notes :: "jsstring option"
  ui_requiresRestart :: bool

datatype UpdateCheckResult = UpToDate | UpdateAvailable UpdateInfo | CheckFailed jsstring

definition checkForUpdate :: UpdateCheckResult where
  "checkForUpdate = UpToDate"

definition applyUpdate :: "jsstring + unit" where
  "applyUpdate = Inl (lit ''WebAutoUpdateProvider.applyUpdate: not supported in a web-only '' @
     lit ''build. Trigger a browser reload (location.reload) or switch to '' @
     lit ''a Tauri shell where tauri-plugin-updater implements this path.'')"

definition update_supported :: bool where
  "update_supported = False"

text \<open>The port's contract: applying rejects exactly when no update was offered.\<close>

lemma update_contract: "(\<exists>e. applyUpdate = Inl e) \<longleftrightarrow> (\<forall>i. checkForUpdate \<noteq> UpdateAvailable i)"
  by (simp add: applyUpdate_def checkForUpdate_def)

end
