(* ===== verification/Spec2Isabelle.thy ===== *)
theory Spec2Isabelle
  imports Stitcher Viewer_Event Config Transcript_Stream Auth Hint_Styling Audio_Capture
    Host_Reducer Host_Meeting Gateway_Messages Host_Flight Host_Panels Viewer Json Consent
    Transcript_Export Export_Flow Consent_Dialog Host_View Host_Page Host_Page_Safety Host_Page_Export
    Host_Page_Leak Host_Page_Account Host_Page_Media Host_Page_Live Engine_Messages Routing
    Shared_Stream Viewer_Session Host_Stream Platform_Ports
begin

text \<open>
  A verification development for the Aegis web frontend (src/frontend_web/src, TypeScript).

  The program. A host signs in, accepts the audio processing consent, picks a corpus and starts a
  meeting: the page captures audio, creates a session at the gateway, negotiates a WebRTC connection and
  subscribes to the session's event stream. Transcript lines and prompter hints come back on the stream.
  The host may show the transcript, relabel speakers, send staff hints, export the transcript to a file
  and end the meeting. Viewers open the link of the QR code; their page joins the same stream and shows
  the lines after a sentence stitcher has put the fragments together. The parts talk through the ports
  of providers/ (authentication, audio capture, transcript stream, file system, notifications, updates),
  the gateway client, and props and callbacks of React.

  Reading the model. A component is a record of its state and one function per operation or handler; its
  events form a datatype, and a history is the run of a list of events (locale machine of the prelude).
  Errors that the code throws are the left side of a sum or a faults argument; a result that may be
  missing is an option. Strings are lists of UTF-16 code units, as in JavaScript; protobuf integers are
  words of their width; other numbers are integers, and the conversion from 64 bits to a JavaScript
  number is written out where the code makes it. Object state that is shared (media tracks, contexts,
  peers, subscriptions, object URLs) is an explicit store, addressed by handles. Asynchronous code is
  cut at its awaits.

  Theories and the files they model:
   Aegis_Prelude (shared types, array idioms, machines); Js_String (trim, encodeURIComponent, numbers in
     template literals); Json (JSON.stringify and JSON.parse on the values the frontend writes);
   Stitcher: hooks/useSentenceStitcher.ts;
   Viewer_Event: the decoded messages of gen/proto/aegis/v1/aegis_pb.ts, the event union of
     providers/TranscriptStreamProvider/types.ts and the frame decoder of the WebSocket transport;
   Gateway_Messages: the requests and responses of the Gateway service in aegis_pb.ts; Engine_Messages:
     the messages of the Engine service and the descriptors of both services;
   Transcript_Stream: both transports of providers/TranscriptStreamProvider and their choice;
   Config: lib/config.ts; Auth: lib/auth.ts, lib/gateway-client.ts, AegisAuthShell.tsx,
     AuthCallbackPage.tsx and the boot sequence of main.tsx;
   Audio_Capture: providers/AudioCaptureProvider; Capture_Account: several of its sessions on one store;
   Hint_Styling: lib/hintStyling.ts;
   Platform_Ports: providers/NotificationProvider and providers/AutoUpdateProvider;
   Consent: lib/consent.ts and components/AudioProcessingConsent.tsx; Consent_Dialog:
     components/ConsentModal.tsx with its two clients;
   Transcript_Export: lib/transcriptExport.ts; Export_Flow: performExport of the host page, the export
     confirmation and providers/FileSystemProvider;
   pages/Host/HostPage.tsx: Host_Reducer (reducer and stream callback), Host_Meeting (startMeeting and
     endMeeting over the resources, the identity effect), Host_Flight (startMeeting await by await),
     Host_Panels (corpora, viewer link, staff hints), Host_View (render), Host_Page (the page as one
     machine), Host_Page_Safety, Host_Page_Export and Host_Page_Leak (its invariants), Host_Page_Account
     and Host_Page_Media (every open connection, subscription and capture session over all its histories),
     Host_Page_Live (its progress);
   pages/Viewer/ViewerPage.tsx: Viewer (state, callbacks, subscription effect), Viewer_Session (the page
     over the sockets of its subscriptions) and Routing (its screen, with the route table of main.tsx and
     App.tsx); Shared_Stream: the host's page and a viewer's page on one stream; Host_Stream: the host's
     page over the socket of its own subscription.
\<close>

text \<open>
  What the lemmas show.
   Stitcher: the emitted lines and the buffer are the groups of an abstract specification, no character
     is lost, one timer is armed exactly while a fragment waits, and a waiting fragment is flushed when
     the timeout passes.
   Transports and viewer: a subscription is silent after unsubscribe; the events are the decodable frames
     in order; numbers of a frame are exact or cut at the largest safe integer; the URL carries session
     and token unchanged; the prompter window is the tail of what the stitcher makes of the stream; over
     all the sockets of its re-subscriptions the page shows each frame once; the host's transcript and
     the viewer's lines spell the same text; the link of the QR code joins the host's own session.
   Authentication: a bearer token is sent only in Cloud mode, and only the unexpired token of a user that
     an event brought in and none has removed; a boot that succeeds leaves configuration, client and
     shell in agreement.
   Capture: stopping releases exactly what starting acquired, a failed start nothing, no video track is
     kept; the exceptions are stated.
   Host page: the reducer's invariant; the transcript and the hint shelf as functions of the stream, and
     the transcript as a function of the frames of the socket;
     where a meeting, its panel and its labels come from; rollback of a failed start and the round trip
     of start and end; the equivalence of the awaited start with the sequential one on every
     interleaving, and when it lands. For the composed page, over every reachable state: no start
     without consent, requests the form allows and sessions the gateway knows, exports that are
     confirmed and of this page's own sessions, no resource that is open without an owner on calm
     histories, and progress: a start lands and an end settles. On histories that are not calm the open
     peer connections, subscriptions, device tracks and audio contexts are counted: those held, and those
     that a crossing of starts, ends and identity changes loses, with the crossings named.
   Consent and export: the check answers for the last recorded acceptance; the dialog is shown exactly
     while consent is needed; every download follows the audit record that covers it; the JSON export
     and the Markdown export read back to the transcript with the labels on screen; file names are safe.

  Interfaces. The locales are machine (an invariant of a component), subscription (what a page may
  expect of a transport), capture_session (what a page may expect of a captured session), ledger (an
  account of open handles, for captures, connections and subscriptions), json_codec and
  key_value_store (what consent records need of JSON and of the browser's storage), modal_client and
  closable_client (what the dialog needs of a client), and page_invariant (an invariant of the
  composed page under a condition on its steps). Each is interpreted on the definitions that model
  the code. Urgencies and prominences are instances of linorder, in which the styling is monotone.

  Parameters, that is, code outside the repository or outside the frontend: the OIDC library (as
  events), fetch, getUserMedia and getDisplayMedia, the audio graph, RTCPeerConnection, the
  gateway's answers, the protobuf decoder fromBinary, the path matching of react-router, the
  Notification API, the clock and the user agent, the calls of the browser that may throw, and
  whether the platform lets a close request be prevented. Conditions on a history are named: honours
  (a close request of the consent dialog can be prevented), clean (the unsubscribe and close calls
  of an ending do not throw), graph_built (the audio graph can be built) and calm (clean, stopping
  the capture does not throw, the identity does not change during a meeting and the audio graph can
  be built). What happens without them is stated by audio_dialog_bypassed, renewal_drops_meeting,
  late_start_leaks, crossed_end, crossed_failure and graph_failure_leaks.

  Bounds. The JSON parser has fuel of twice the number of tokens, which parse_tokens shows enough for
  every printed value; following a start takes six resumptions, one per await, which fly_rank shows
  enough; a change of the viewer page settles in two renders. No other definition has fuel.

  Not modelled. The encoded file descriptor of aegis_pb.ts, which the protobuf runtime reads;
  constant markup, styles and texts; the barrel files' exports; the build configuration and the
  tests; the engine (C++), the gateway (Go) and the protocol file, which are other programs and
  appear here as parameters. Rendering is modelled as a function to the controls and data on screen,
  not to a document.
\<close>

end
